theory Spec2Isabelle
  imports Complex_Main
begin

section \<open>Numeric values\<close>

text \<open>
  The notebooks compute with NumPy and pandas double-precision values.  The columns of the
  tables and the elements of the arrays are real numbers.  The arithmetic of the friction
  filter (the shear magnitude, the weighted misfit, the means and the quotients of the
  failure analysis) is modelled in double precision: a value is a finite real number or
  one of the three special values that NumPy produces without raising (\<open>inf\<close>,
  \<open>-inf\<close>, \<open>nan\<close>), and the result of an operation on finite values is the exact
  result rounded to the nearest double, ties to even, with gradual underflow and with
  overflow to an infinity (IEEE 754 binary64).  The sign of a zero is not modelled; the
  sign of an infinity obtained from a zero divisor is the one of a positive zero.
\<close>

datatype fval = Fin real | PInf | NInf | NaN

text \<open>The nearest integer, a tie going to the even one.\<close>

definition round_even :: "real \<Rightarrow> int" where
  "round_even q =
     (let f = \<lfloor>q\<rfloor>; d = q - of_int f
      in if d < 1 / 2 then f else if 1 / 2 < d then f + 1 else if even f then f else f + 1)"

text \<open>
  The binary exponent of a positive number, not below the exponent \<open>-1022\<close> of the
  smallest normal double, and the spacing of the doubles at that exponent (53 significant
  bits).
\<close>

definition bexp :: "real \<Rightarrow> int" where
  "bexp a = max \<lfloor>log 2 a\<rfloor> (- 1022)"

definition ulp :: "real \<Rightarrow> real" where
  "ulp a = 2 powr of_int (bexp a - 52)"

definition r64_mag :: "real \<Rightarrow> real" where
  "r64_mag a = of_int (round_even (a / ulp a)) * ulp a"

text \<open>
  The double nearest to a real number: a magnitude that rounds to \<open>2 ^ 1024\<close> overflows,
  a magnitude below half of the smallest subnormal double \<open>2 ^ -1074\<close> rounds to zero.
\<close>

definition r64 :: "real \<Rightarrow> fval" where
  "r64 x =
     (if x = 0 then Fin 0
      else if 2 ^ 1024 \<le> r64_mag \<bar>x\<bar> then (if 0 < x then PInf else NInf)
      else Fin (sgn x * r64_mag \<bar>x\<bar>))"

fun fadd :: "fval \<Rightarrow> fval \<Rightarrow> fval" where
  "fadd (Fin x) (Fin y) = r64 (x + y)"
| "fadd NaN _ = NaN"
| "fadd _ NaN = NaN"
| "fadd PInf NInf = NaN"
| "fadd NInf PInf = NaN"
| "fadd PInf _ = PInf"
| "fadd _ PInf = PInf"
| "fadd NInf _ = NInf"
| "fadd _ NInf = NInf"

fun fmul :: "fval \<Rightarrow> fval \<Rightarrow> fval" where
  "fmul (Fin x) (Fin y) = r64 (x * y)"
| "fmul NaN _ = NaN"
| "fmul _ NaN = NaN"
| "fmul PInf (Fin y) = (if y = 0 then NaN else if 0 < y then PInf else NInf)"
| "fmul NInf (Fin y) = (if y = 0 then NaN else if 0 < y then NInf else PInf)"
| "fmul (Fin x) PInf = (if x = 0 then NaN else if 0 < x then PInf else NInf)"
| "fmul (Fin x) NInf = (if x = 0 then NaN else if 0 < x then NInf else PInf)"
| "fmul PInf PInf = PInf"
| "fmul NInf NInf = PInf"
| "fmul PInf NInf = NInf"
| "fmul NInf PInf = NInf"

fun fdiv :: "fval \<Rightarrow> fval \<Rightarrow> fval" where
  "fdiv (Fin x) (Fin y) =
     (if y \<noteq> 0 then r64 (x / y)
      else if x = 0 then NaN
      else if 0 < x then PInf else NInf)"
| "fdiv NaN _ = NaN"
| "fdiv _ NaN = NaN"
| "fdiv (Fin x) _ = Fin 0"
| "fdiv PInf (Fin y) = (if 0 \<le> y then PInf else NInf)"
| "fdiv NInf (Fin y) = (if 0 \<le> y then NInf else PInf)"
| "fdiv _ _ = NaN"

text \<open>\<open>np.sqrt\<close>: the square root of a negative number is \<open>nan\<close>.\<close>

fun fsqrt :: "fval \<Rightarrow> fval" where
  "fsqrt (Fin x) = (if x < 0 then NaN else r64 (sqrt x))"
| "fsqrt PInf = PInf"
| "fsqrt NInf = NaN"
| "fsqrt NaN = NaN"

fun fle :: "fval \<Rightarrow> fval \<Rightarrow> bool" where
  "fle NaN _ = False"
| "fle _ NaN = False"
| "fle (Fin x) (Fin y) = (x \<le> y)"
| "fle NInf _ = True"
| "fle _ PInf = True"
| "fle _ _ = False"

fun isnan :: "fval \<Rightarrow> bool" where
  "isnan NaN = True"
| "isnan _ = False"

text \<open>
  \<open>Series.mean()\<close> and \<open>GroupBy.mean()\<close>: missing values (\<open>nan\<close>) are skipped, the
  mean of no value is \<open>nan\<close>; the values are added to zero in the order of the rows,
  each addition rounded, and the sum is divided by their number.  (For a column of eight
  values or more, the order in which a library version adds them may differ.)
\<close>

definition pd_mean :: "fval list \<Rightarrow> fval" where
  "pd_mean xs =
     (let ys = filter (\<lambda>v. \<not> isnan v) xs
      in if ys = [] then NaN
         else fdiv (foldl fadd (Fin 0) ys) (Fin (real (length ys))))"

text \<open>The values that are not negative, and the values that are not positive.\<close>

fun nonneg_val :: "fval \<Rightarrow> bool" where
  "nonneg_val (Fin x) = (0 \<le> x)"
| "nonneg_val PInf = True"
| "nonneg_val NInf = False"
| "nonneg_val NaN = True"

fun nonpos_val :: "fval \<Rightarrow> bool" where
  "nonpos_val (Fin x) = (x \<le> 0)"
| "nonpos_val PInf = False"
| "nonpos_val NInf = True"
| "nonpos_val NaN = True"

datatype error = IndexError | KeyError | ReindexError | TypeError | ValueError | ZeroDivisionError

section \<open>Failure analysis: \<open>tectonic_stress_2_failure.ipynb\<close>\<close>

subsection \<open>Input tables\<close>

text \<open>
  \<open>fault_df\<close>: one row per fault point; the columns read by the notebook
  (\<open>df_copy_cols\<close>) are \<open>z\<close> (km), \<open>strike\<close>, \<open>dip\<close>, \<open>slip_m\<close> and the six
  topographic stresses (MPa).  The fields carry the prefix \<open>f_\<close>.
\<close>

record fault_point =
  f_z :: real
  f_strike :: real
  f_dip :: real
  f_slip_m :: real
  f_xx_stress :: real
  f_yy_stress :: real
  f_xy_stress :: real
  f_zz_stress :: real
  f_xz_stress :: real
  f_yz_stress :: real

text \<open>
  \<open>r_priors_df\<close>: one row per iteration of the rake posterior file; \<open>p_index\<close> is the
  index column of the file (\<open>index_col=0\<close>).
\<close>

record prior_row =
  p_index :: int
  p_txx :: real
  p_tyy :: real
  p_txy :: real
  p_likelihood :: real

text \<open>A row of \<open>search_df\<close> after the fill from the fault model.\<close>

record sample =
  iter :: int
  txx :: real
  tyy :: real
  txy :: real
  phi :: real
  pt_index :: nat
  depth :: real
  strike :: real
  dip :: real
  slip_m :: real
  mxx :: real
  myy :: real
  mxy :: real
  mzz :: real
  mxz :: real
  myz :: real

subsection \<open>Pore-pressure-ratio priors\<close>

text \<open>
  \<open>np.random.seed(70); phi_priors = np.random.random(1e4)\<close>: an array of 10000 draws.
  The generator is a parameter: \<open>draws n\<close> is the \<open>n\<close>-th draw.  Reading the array at
  an integer follows NumPy: a negative index counts from the end, an index outside
  \<open>[-10000, 10000)\<close> raises IndexError.
\<close>

definition n_draws :: int where
  "n_draws = 10000"

definition phi_draw :: "(nat \<Rightarrow> real) \<Rightarrow> int \<Rightarrow> error + real" where
  "phi_draw draws i =
     (if 0 \<le> i \<and> i < n_draws then Inr (draws (nat i))
      else if - n_draws \<le> i \<and> i < 0 then Inr (draws (nat (i + n_draws)))
      else Inl IndexError)"

text \<open>\<open>phi_priors = phi_priors[r_priors_df.index]\<close>\<close>

fun phi_priors :: "(nat \<Rightarrow> real) \<Rightarrow> int list \<Rightarrow> error + real list" where
  "phi_priors draws [] = Inr []"
| "phi_priors draws (i # is) =
     (case phi_draw draws i of
        Inl e \<Rightarrow> Inl e
      | Inr v \<Rightarrow> (case phi_priors draws is of Inl e \<Rightarrow> Inl e | Inr vs \<Rightarrow> Inr (v # vs)))"

subsection \<open>The sample table\<close>

text \<open>
  \<open>index_list\<close>: the comprehension over \<open>enumerate(iter_range)\<close> and \<open>pt_range\<close>;
  an entry is \<open>[iter_ind, phi_priors[i], r_priors[i,0], r_priors[i,1], r_priors[i,2], pi]\<close>.
  The index values pass through \<open>np.float_\<close> and back through \<open>np.int_\<close>, which is the
  identity on the integers that index the draws.  \<open>phis\<close> is the re-indexed
  \<open>phi_priors\<close>, which has one entry for each row of the prior table.
\<close>

type_synonym index_entry = "int \<times> real \<times> real \<times> real \<times> real \<times> nat"

definition index_list :: "real list \<Rightarrow> prior_row list \<Rightarrow> nat \<Rightarrow> index_entry list" where
  "index_list phis r_priors n_points =
     concat (map (\<lambda>(i, iter_ind).
                    map (\<lambda>pt. (iter_ind, phis ! i, p_txx (r_priors ! i),
                               p_tyy (r_priors ! i), p_txy (r_priors ! i), pt))
                        [0..<n_points])
                 (enumerate 0 (map p_index r_priors)))"

text \<open>\<open>df_reps = np.tile(df_col_array, [n_trials, 1])\<close>\<close>

definition df_reps :: "fault_point list \<Rightarrow> nat \<Rightarrow> fault_point list" where
  "df_reps fault_df n_trials = concat (replicate n_trials fault_df)"

text \<open>
  The columns set from \<open>index_array\<close> and the fill \<open>search_df[df_fill_cols] = df_reps\<close>,
  column \<open>k\<close> of \<open>df_copy_cols\<close> going to column \<open>k\<close> of \<open>df_fill_cols\<close>.
\<close>

definition fill_row :: "index_entry \<Rightarrow> fault_point \<Rightarrow> sample" where
  "fill_row e f =
     (case e of (it, ph, sxx, syy, sxy, pt) \<Rightarrow>
        \<lparr> iter = it, txx = sxx, tyy = syy, txy = sxy, phi = ph, pt_index = pt,
          depth = f_z f, strike = f_strike f, dip = f_dip f, slip_m = f_slip_m f,
          mxx = f_xx_stress f, myy = f_yy_stress f, mxy = f_xy_stress f,
          mzz = f_zz_stress f, mxz = f_xz_stress f, myz = f_yz_stress f \<rparr>)"

text \<open>
  \<open>search_df.depth *= 1000\<close> (km to m) and
  \<open>search_df[['mxx', 'myy', 'mxy', 'mzz', 'mxz', 'myz']] *= 1e6\<close> (MPa to Pa).
\<close>

definition scale_units :: "sample \<Rightarrow> sample" where
  "scale_units r =
     r\<lparr> depth := depth r * 1000,
        mxx := mxx r * 1000000, myy := myy r * 1000000, mxy := mxy r * 1000000,
        mzz := mzz r * 1000000, mxz := mxz r * 1000000, myz := myz r * 1000000 \<rparr>"

text \<open>
  The table before the stresses are resolved.  \<open>iter_range\<close> is
  \<open>np.float_(r_priors_df.index.values)\<close>; of an array of one element \<open>np.float_\<close>
  returns a scalar, so that \<open>enumerate(iter_range)\<close> raises TypeError when the prior
  table has exactly one row.  \<open>np.array(index_list)\<close> of an empty list is
  one-dimensional, so the column reads \<open>index_array[:,0]\<close> raise IndexError when there
  is no iteration or no fault point.  The two lists zipped have the same length,
  \<open>n_trials * n_points\<close>.
\<close>

definition search_df :: "real list \<Rightarrow> fault_point list \<Rightarrow> prior_row list \<Rightarrow> error + sample list" where
  "search_df phis fault_df r_priors_df =
     (let n_trials = length r_priors_df;
          n_points = length fault_df;
          entries = index_list phis r_priors_df n_points
      in if n_trials = 1 then Inl TypeError
         else if entries = [] then Inl IndexError
         else Inr (map scale_units
                     (map2 fill_row entries (df_reps fault_df n_trials))))"

subsection \<open>Resolved stresses\<close>

text \<open>
  The module \<open>aux_scripts/stress_comps_vectorized.py\<close> (\<open>scv\<close>) is not among the
  sources.  Its three functions are parameters; each is called with whole columns and
  works row by row, so a function takes the keyword arguments of one row.
\<close>

record stress_args =
  a_strike :: real
  a_dip :: real
  a_rho :: real
  a_g :: real
  a_mxx :: real
  a_myy :: real
  a_mxy :: real
  a_mzz :: real
  a_mxz :: real
  a_myz :: real
  a_txx :: real
  a_tyy :: real
  a_txy :: real
  a_depth :: real

record scv =
  strike_shear :: "stress_args \<Rightarrow> real"
  dip_shear :: "stress_args \<Rightarrow> real"
  eff_normal_stress :: "stress_args \<Rightarrow> real \<Rightarrow> real"

definition rho :: real where
  "rho = 2700"

definition g :: real where
  "g = 981 / 100"

definition args_of :: "sample \<Rightarrow> stress_args" where
  "args_of r =
     \<lparr> a_strike = strike r, a_dip = dip r, a_rho = rho, a_g = g,
       a_mxx = mxx r, a_myy = myy r, a_mxy = mxy r, a_mzz = mzz r,
       a_mxz = mxz r, a_myz = myz r,
       a_txx = txx r, a_tyy = tyy r, a_txy = txy r, a_depth = depth r \<rparr>"

definition tau_s :: "scv \<Rightarrow> sample \<Rightarrow> real" where
  "tau_s m r = strike_shear m (args_of r)"

definition tau_d :: "scv \<Rightarrow> sample \<Rightarrow> real" where
  "tau_d m r = dip_shear m (args_of r)"

definition sig_n_eff :: "scv \<Rightarrow> sample \<Rightarrow> real" where
  "sig_n_eff m r = eff_normal_stress m (args_of r) (phi r)"

text \<open>
  \<open>search_df['tau_mag'] = np.sqrt(search_df.tau_s**2 + search_df.tau_d**2)\<close>: the
  square of a value is its rounded product with itself.
\<close>

definition tau_mag :: "scv \<Rightarrow> sample \<Rightarrow> fval" where
  "tau_mag m r =
     fsqrt (fadd (fmul (Fin (tau_s m r)) (Fin (tau_s m r)))
                 (fmul (Fin (tau_d m r)) (Fin (tau_d m r))))"

subsection \<open>Weighted misfit and the friction coefficient\<close>

text \<open>\<open>mean_slip = fault_df.slip_m.mean()\<close>\<close>

definition mean_slip :: "fault_point list \<Rightarrow> fval" where
  "mean_slip fault_df = pd_mean (map (\<lambda>f. Fin (f_slip_m f)) fault_df)"

text \<open>
  \<open>search_df['weighted_tau_misfit'] = search_df.tau_mag * search_df.slip_m / mean_slip\<close>
\<close>

definition weighted_tau_misfit :: "scv \<Rightarrow> fault_point list \<Rightarrow> sample \<Rightarrow> fval" where
  "weighted_tau_misfit m fault_df r =
     fdiv (fmul (tau_mag m r) (Fin (slip_m r))) (mean_slip fault_df)"

text \<open>
  \<open>iters = search_df.groupby('iter')\<close>: the groups are the rows with the same value of
  \<open>iter\<close>, and the result of an aggregation is indexed by the sorted group keys.
\<close>

definition group_keys :: "sample list \<Rightarrow> int list" where
  "group_keys rows = sort (remdups (map iter rows))"

definition group_rows :: "sample list \<Rightarrow> int \<Rightarrow> sample list" where
  "group_rows rows k = filter (\<lambda>r. iter r = k) rows"

definition group_mean :: "(sample \<Rightarrow> fval) \<Rightarrow> sample list \<Rightarrow> int \<Rightarrow> fval" where
  "group_mean col rows k = pd_mean (map col (group_rows rows k))"

text \<open>\<open>mu_iter = iters.weighted_tau_misfit.mean() / iters.sig_n_eff.mean()\<close>\<close>

definition mu_iter :: "scv \<Rightarrow> fault_point list \<Rightarrow> sample list \<Rightarrow> (int \<times> fval) list" where
  "mu_iter m fault_df rows =
     map (\<lambda>k. (k, fdiv (group_mean (weighted_tau_misfit m fault_df) rows k)
                      (group_mean (\<lambda>r. Fin (sig_n_eff m r)) rows k)))
         (group_keys rows)"

text \<open>\<open>mu_real = mu_iter[(0 <= mu_iter) & (mu_iter <= 1)]\<close>\<close>

definition mu_real :: "(int \<times> fval) list \<Rightarrow> (int \<times> fval) list" where
  "mu_real mu = filter (\<lambda>(k, v). fle (Fin 0) v \<and> fle v (Fin 1)) mu"

subsection \<open>The posterior table\<close>

record posterior =
  post_index :: int
  post_txx :: fval
  post_tyy :: fval
  post_txy :: fval
  post_mu :: fval
  post_phi :: fval
  post_likelihood :: real

text \<open>
  \<open>r_priors_df.loc[mu_real.index, 'likelihood']\<close> selects, for a label, every row of
  the prior table that carries it.
\<close>

definition loc_likelihood :: "prior_row list \<Rightarrow> int \<Rightarrow> real list" where
  "loc_likelihood df k = map p_likelihood (filter (\<lambda>r. p_index r = k) df)"

text \<open>
  \<open>pd.concat([txx_keep, tyy_keep, txy_keep, mu_real, phi_keep, likelihood_keep], axis=1)\<close>
  aligns the six columns on their index.  The first five are indexed by the retained
  group keys; the likelihood column has one entry per matching prior row, and pandas
  refuses to align on a label that occurs twice.
\<close>

fun concat_columns :: "sample list \<Rightarrow> prior_row list \<Rightarrow> (int \<times> fval) list \<Rightarrow> error + posterior list" where
  "concat_columns rows df [] = Inr []"
| "concat_columns rows df ((k, v) # kvs) =
     (case loc_likelihood df k of
        [] \<Rightarrow> Inl KeyError
      | [l] \<Rightarrow>
          (case concat_columns rows df kvs of
             Inl e \<Rightarrow> Inl e
           | Inr ps \<Rightarrow>
               Inr (\<lparr> post_index = k,
                      post_txx = group_mean (\<lambda>r. Fin (txx r)) rows k,
                      post_tyy = group_mean (\<lambda>r. Fin (tyy r)) rows k,
                      post_txy = group_mean (\<lambda>r. Fin (txy r)) rows k,
                      post_mu = v,
                      post_phi = group_mean (\<lambda>r. Fin (phi r)) rows k,
                      post_likelihood = l \<rparr> # ps))
      | _ \<Rightarrow> Inl ReindexError)"

text \<open>The notebook from the two input tables to \<open>fail_posteriors\<close>.\<close>

definition fail_posteriors ::
  "scv \<Rightarrow> (nat \<Rightarrow> real) \<Rightarrow> fault_point list \<Rightarrow> prior_row list \<Rightarrow> error + posterior list" where
  "fail_posteriors m draws fault_df r_priors_df =
     (case phi_priors draws (map p_index r_priors_df) of
        Inl e \<Rightarrow> Inl e
      | Inr phis \<Rightarrow>
          (case search_df phis fault_df r_priors_df of
             Inl e \<Rightarrow> Inl e
           | Inr rows \<Rightarrow> concat_columns rows r_priors_df (mu_real (mu_iter m fault_df rows))))"

text \<open>
  The row of the table for iteration position \<open>i\<close> and fault point \<open>pt\<close>, after the
  fill and the change of units.
\<close>

definition block_row :: "real list \<Rightarrow> fault_point list \<Rightarrow> prior_row list \<Rightarrow> nat \<Rightarrow> nat \<Rightarrow> sample" where
  "block_row phis fault_df df i pt =
     scale_units (fill_row (p_index (df ! i), phis ! i, p_txx (df ! i),
                            p_tyy (df ! i), p_txy (df ! i), pt) (fault_df ! pt))"

text \<open>
  The columns named by \<open>df_fill_cols\<close> in a row of the table, in the order of the
  list: \<open>depth\<close>, \<open>strike\<close>, \<open>dip\<close>, \<open>slip_m\<close>, \<open>mxx\<close>, \<open>myy\<close>,
  \<open>mxy\<close>, \<open>mzz\<close>, \<open>mxz\<close>, \<open>myz\<close>.
\<close>

definition df_fill_cols :: "sample \<Rightarrow> real list" where
  "df_fill_cols r =
     [depth r, strike r, dip r, slip_m r, mxx r, myy r, mxy r, mzz r, mxz r, myz r]"

section \<open>Stress field: \<open>topographic_stress_field_calcs.ipynb\<close>\<close>

subsection \<open>Arrays\<close>

text \<open>
  A NumPy array of two or three axes is its shape and its elements by index; an element
  is read only at an index inside the shape.
\<close>

record 'a arr2 =
  nrow :: nat
  ncol :: nat
  at2 :: "nat \<Rightarrow> nat \<Rightarrow> 'a"

record 'a arr3 =
  dim0 :: nat
  dim1 :: nat
  dim2 :: nat
  at3 :: "nat \<Rightarrow> nat \<Rightarrow> nat \<Rightarrow> 'a"

text \<open>
  Broadcasting of one axis in a binary operation: equal lengths, or one of them 1;
  the operand of length 1 is read at index 0.
\<close>

definition bc_dim :: "nat \<Rightarrow> nat \<Rightarrow> nat option" where
  "bc_dim a b = (if a = b then Some a else if a = 1 then Some b else if b = 1 then Some a else None)"

definition bc_ix :: "nat \<Rightarrow> nat \<Rightarrow> nat" where
  "bc_ix a i = (if a = 1 then 0 else i)"

text \<open>An elementwise binary operation of two arrays (\<open>a * b\<close>, \<open>a + b\<close>).\<close>

definition np_binop2 :: "('a \<Rightarrow> 'a \<Rightarrow> 'a) \<Rightarrow> 'a arr2 \<Rightarrow> 'a arr2 \<Rightarrow> error + 'a arr2" where
  "np_binop2 f a b =
     (case (bc_dim (nrow a) (nrow b), bc_dim (ncol a) (ncol b)) of
        (Some r, Some c) \<Rightarrow>
          Inr \<lparr> nrow = r, ncol = c,
                at2 = (\<lambda>i j. f (at2 a (bc_ix (nrow a) i) (bc_ix (ncol a) j))
                               (at2 b (bc_ix (nrow b) i) (bc_ix (ncol b) j))) \<rparr>
      | _ \<Rightarrow> Inl ValueError)"

definition np_binop3 :: "('a \<Rightarrow> 'a \<Rightarrow> 'a) \<Rightarrow> 'a arr3 \<Rightarrow> 'a arr3 \<Rightarrow> error + 'a arr3" where
  "np_binop3 f a b =
     (case (bc_dim (dim0 a) (dim0 b), bc_dim (dim1 a) (dim1 b), bc_dim (dim2 a) (dim2 b)) of
        (Some p, Some q, Some r) \<Rightarrow>
          Inr \<lparr> dim0 = p, dim1 = q, dim2 = r,
                at3 = (\<lambda>i j k. f (at3 a (bc_ix (dim0 a) i) (bc_ix (dim1 a) j) (bc_ix (dim2 a) k))
                                 (at3 b (bc_ix (dim0 b) i) (bc_ix (dim1 b) j) (bc_ix (dim2 b) k))) \<rparr>
      | _ \<Rightarrow> Inl ValueError)"

text \<open>An array and a scalar (\<open>a * s\<close>, \<open>a *= s\<close>).\<close>

definition np_scale2 :: "real arr2 \<Rightarrow> real \<Rightarrow> real arr2" where
  "np_scale2 a s = a\<lparr> at2 := (\<lambda>i j. at2 a i j * s) \<rparr>"

definition np_scale3 :: "real arr3 \<Rightarrow> real \<Rightarrow> real arr3" where
  "np_scale3 a s = a\<lparr> at3 := (\<lambda>i j k. at3 a i j k * s) \<rparr>"

text \<open>\<open>a[:,:,k]\<close>, for \<open>k\<close> inside the third axis.\<close>

definition slice3 :: "'a arr3 \<Rightarrow> nat \<Rightarrow> error + 'a arr2" where
  "slice3 a k =
     (if k < dim2 a
      then Inr \<lparr> nrow = dim0 a, ncol = dim1 a, at2 = (\<lambda>i j. at3 a i j k) \<rparr>
      else Inl IndexError)"

text \<open>
  \<open>a[:,:,k] = s\<close>: the value is broadcast to the shape of the slice, so an axis of
  \<open>s\<close> has the length of the slice's axis or the length 1.
\<close>

definition set_slice3 :: "'a arr3 \<Rightarrow> nat \<Rightarrow> 'a arr2 \<Rightarrow> error + 'a arr3" where
  "set_slice3 a k s =
     (if \<not> k < dim2 a then Inl IndexError
      else if (nrow s = dim0 a \<or> nrow s = 1) \<and> (ncol s = dim1 a \<or> ncol s = 1)
      then Inr (a\<lparr> at3 := (\<lambda>i j k'. if k' = k
                                      then at2 s (bc_ix (nrow s) i) (bc_ix (ncol s) j)
                                      else at3 a i j k') \<rparr>)
      else Inl ValueError)"

text \<open>
  \<open>np.empty\<close> and \<open>np.zeros\<close> of a shape given as integers; a negative length raises
  ValueError.  The contents of \<open>np.empty\<close> are whatever the memory holds: a parameter.
\<close>

definition np_empty :: "(nat \<Rightarrow> nat \<Rightarrow> nat \<Rightarrow> real) \<Rightarrow> int \<Rightarrow> int \<Rightarrow> int \<Rightarrow> error + real arr3" where
  "np_empty junk p q r =
     (if p < 0 \<or> q < 0 \<or> r < 0 then Inl ValueError
      else Inr \<lparr> dim0 = nat p, dim1 = nat q, dim2 = nat r, at3 = junk \<rparr>)"

definition np_zeros :: "nat \<Rightarrow> nat \<Rightarrow> nat \<Rightarrow> real arr3" where
  "np_zeros p q r = \<lparr> dim0 = p, dim1 = q, dim2 = r, at3 = (\<lambda>i j k. 0) \<rparr>"

text \<open>
  A Python slice \<open>start:stop\<close> on an axis of length \<open>n\<close>: the first index taken and
  the number of indices taken.
\<close>

definition py_slice_bound :: "nat \<Rightarrow> int \<Rightarrow> int" where
  "py_slice_bound n i = (if i < 0 then max 0 (i + int n) else min i (int n))"

definition py_slice :: "nat \<Rightarrow> int \<Rightarrow> int \<Rightarrow> nat \<times> nat" where
  "py_slice n start stop =
     (let s = py_slice_bound n start; e = py_slice_bound n stop
      in (nat s, nat (e - s)))"

text \<open>
  \<open>np.gradient(a, h)\<close> along one axis of length \<open>n\<close>: central differences in the
  interior, one-sided differences at the two ends.
\<close>

definition gradient1 :: "(nat \<Rightarrow> real) \<Rightarrow> nat \<Rightarrow> real \<Rightarrow> nat \<Rightarrow> real" where
  "gradient1 f n h i =
     (if i = 0 then (f 1 - f 0) / h
      else if i = n - 1 then (f (n - 1) - f (n - 2)) / h
      else (f (i + 1) - f (i - 1)) / (2 * h))"

text \<open>
  \<open>np.gradient(a, h)\<close> of a two-axis array: the gradient along axis 0, then along
  axis 1.  An axis shorter than 2 raises ValueError.
\<close>

definition np_gradient :: "real arr2 \<Rightarrow> real \<Rightarrow> error + (real arr2 \<times> real arr2)" where
  "np_gradient a h =
     (if nrow a < 2 \<or> ncol a < 2 then Inl ValueError
      else Inr (a\<lparr> at2 := (\<lambda>i j. gradient1 (\<lambda>k. at2 a k j) (nrow a) h i) \<rparr>,
                a\<lparr> at2 := (\<lambda>i j. gradient1 (\<lambda>k. at2 a i k) (ncol a) h j) \<rparr>))"

text \<open>\<open>int(x)\<close> of a float: truncation towards zero.\<close>

definition py_int :: "real \<Rightarrow> int" where
  "py_int x = (if 0 \<le> x then \<lfloor>x\<rfloor> else \<lceil>x\<rceil>)"

subsection \<open>The \<open>halfspace\<close> library\<close>

datatype comp = ZZ | XY | XZ | YZ | XX | YY

datatype f_dir = Dir_x | Dir_y

datatype conv_mode = Valid | Same

text \<open>
  Modelled from the spec: \<open>hbx.size_output\<close> of the \<open>halfspace\<close> library is not among the sources.
  Section 4.2: for \<open>valid\<close>, output = input - kernel + 1 in each dimension; for
  \<open>same\<close>, output = input shape.
\<close>

definition size_output :: "int \<times> int \<Rightarrow> int \<times> int \<Rightarrow> conv_mode \<Rightarrow> int \<times> int" where
  "size_output kernel_shape in_shape mode =
     (case mode of
        Valid \<Rightarrow> (fst in_shape - fst kernel_shape + 1, snd in_shape - snd kernel_shape + 1)
      | Same \<Rightarrow> in_shape)"

text \<open>
  Modelled from the spec: \<open>halfspace.load._centered\<close> is not among the sources.
  Section 4.3: the topography is symmetrically re-centered to the smaller shape, trimming
  equally from each border when possible; section 9 leaves the rule for an odd
  difference to the implementer and suggests that the extra row or column is trimmed
  from the trailing edge.  The crop is the slice from \<open>(currsize - newsize) div 2\<close> of
  length \<open>newsize\<close> on each axis.
\<close>

definition centered :: "'a arr2 \<Rightarrow> int \<times> int \<Rightarrow> 'a arr2" where
  "centered arr newsize =
     (let start0 = (int (nrow arr) - fst newsize) div 2;
          start1 = (int (ncol arr) - snd newsize) div 2;
          (s0, n0) = py_slice (nrow arr) start0 (start0 + fst newsize);
          (s1, n1) = py_slice (ncol arr) start1 (start1 + snd newsize)
      in \<lparr> nrow = n0, ncol = n1, at2 = (\<lambda>i j. at2 arr (i + s0) (j + s1)) \<rparr>)"

text \<open>
  Modelled from the spec: \<open>halfspace.load.do_b_convo\<close> and \<open>do_c_convo\<close> are not
  among the sources.  The values of a convolution are a parameter (\<open>b_conv\<close> for
  component, depth, unit load and load surface; \<open>c_conv\<close> for component, direction,
  depth and load surface); the shape of the result follows section 4.2, for a square
  kernel of \<open>kernel_len\<close> pixels.  The third parameter, \<open>junk\<close>, is not of the
  library: it is the content of the memory that \<open>np.empty\<close> returns.
\<close>

record halfspace =
  b_conv :: "comp \<Rightarrow> real \<Rightarrow> real \<Rightarrow> real arr2 \<Rightarrow> nat \<Rightarrow> nat \<Rightarrow> real"
  c_conv :: "comp \<Rightarrow> f_dir \<Rightarrow> real \<Rightarrow> real arr2 \<Rightarrow> nat \<Rightarrow> nat \<Rightarrow> real"
  junk :: "nat \<Rightarrow> nat \<Rightarrow> nat \<Rightarrow> real"

definition conv_result :: "int \<Rightarrow> real arr2 \<Rightarrow> conv_mode \<Rightarrow> (nat \<Rightarrow> nat \<Rightarrow> real) \<Rightarrow> real arr2" where
  "conv_result kernel_len load mode vals =
     (let (p, q) = size_output (kernel_len, kernel_len) (int (nrow load), int (ncol load)) mode
      in \<lparr> nrow = nat p, ncol = nat q, at2 = vals \<rparr>)"

definition do_b_convo :: "halfspace \<Rightarrow> int \<Rightarrow> comp \<Rightarrow> real \<Rightarrow> real \<Rightarrow> real arr2 \<Rightarrow> conv_mode \<Rightarrow> real arr2" where
  "do_b_convo hs kernel_len component z Fv load mode =
     conv_result kernel_len load mode (b_conv hs component z Fv load)"

definition do_c_convo :: "halfspace \<Rightarrow> int \<Rightarrow> comp \<Rightarrow> f_dir \<Rightarrow> real \<Rightarrow> real arr2 \<Rightarrow> conv_mode \<Rightarrow> real arr2" where
  "do_c_convo hs kernel_len component dir z load mode =
     conv_result kernel_len load mode (c_conv hs component dir z load)"

subsection \<open>Set up the problem\<close>

definition Fv :: real where
  "Fv = - rho * g"

definition z_res :: int where
  "z_res = 1000"

definition z_max :: "int \<Rightarrow> int" where
  "z_max z_min = z_min + 26000"

definition z_len :: "int \<Rightarrow> int" where
  "z_len z_min = py_int (real_of_int (z_max z_min - z_min) / real_of_int z_res + 1)"

text \<open>\<open>z_vec = np.linspace(z_min, z_max, num=z_len)\<close>, element \<open>k\<close>.\<close>

definition z_vec :: "int \<Rightarrow> nat \<Rightarrow> real" where
  "z_vec z_min k =
     real_of_int z_min
       + real k * (real_of_int (z_max z_min - z_min) / real_of_int (z_len z_min - 1))"

definition kernel_rad :: real where
  "kernel_rad = 150000"

definition kernel_len :: "int \<Rightarrow> int" where
  "kernel_len study_res = py_int (kernel_rad * 2 / real_of_int study_res + 1)"

definition comp_list :: "comp list" where
  "comp_list = [ZZ, XY, XZ, YZ, XX, YY]"

text \<open>The loops \<open>for i, z in enumerate(z_vec): a[:,:,i] = ...\<close>\<close>

fun fill_slices :: "(nat \<Rightarrow> real arr2) \<Rightarrow> nat list \<Rightarrow> real arr3 \<Rightarrow> error + real arr3" where
  "fill_slices sl [] a = Inr a"
| "fill_slices sl (k # ks) a =
     (case set_slice3 a k (sl k) of
        Inl e \<Rightarrow> Inl e
      | Inr a' \<Rightarrow> fill_slices sl ks a')"

text \<open>
  The loops \<open>for comp in comp_list\<close>: a file of datasets is the list of the datasets
  created, by key; the first failure ends the loop.
\<close>

fun for_comps :: "(comp \<Rightarrow> error + 'a) \<Rightarrow> comp list \<Rightarrow> error + (comp \<times> 'a) list" where
  "for_comps body [] = Inr []"
| "for_comps body (c # cs) =
     (case body c of
        Inl e \<Rightarrow> Inl e
      | Inr v \<Rightarrow> (case for_comps body cs of Inl e \<Rightarrow> Inl e | Inr vs \<Rightarrow> Inr ((c, v) # vs)))"

text \<open>Reading a dataset of a file by its key.\<close>

definition dataset :: "(comp \<times> 'a) list \<Rightarrow> comp \<Rightarrow> error + 'a" where
  "dataset db c = (case map_of db c of None \<Rightarrow> Inl KeyError | Some a \<Rightarrow> Inr a)"

subsection \<open>Boussinesq convolution\<close>

text \<open>
  The body of the loop for one component: a copy of \<open>b_stress\<close>, filled slice by slice
  with the convolution of the topography, then \<open>b_dict[comp] *= 1e-6\<close>; the result is
  the dataset \<open>b_<comp>_MPa\<close>.
\<close>

definition b_dataset :: "halfspace \<Rightarrow> int \<Rightarrow> real arr2 \<Rightarrow> real arr3 \<Rightarrow> comp \<Rightarrow> error + real arr3" where
  "b_dataset hs study_res topo b_stress c =
     (case fill_slices
             (\<lambda>i. do_b_convo hs (kernel_len study_res) c (z_vec study_res i) Fv topo Valid)
             [0..<nat (z_len study_res)] b_stress of
        Inl e \<Rightarrow> Inl e
      | Inr a \<Rightarrow> Inr (np_scale3 a (1 / 1000000)))"

subsection \<open>Horizontal loading functions\<close>

text \<open>
  The top slices of the Boussinesq \<open>xx\<close>, \<open>xy\<close> and \<open>yy\<close> datasets, back in Pa; the
  topography re-centered to their shape; its gradient.  The result is
  \<open>(b_xx_top, b_xy_top, b_yy_top, topo, topo_dy, topo_dx)\<close>.
\<close>

definition b_top :: "(comp \<times> real arr3) list \<Rightarrow> comp \<Rightarrow> error + real arr2" where
  "b_top b_db c =
     (case dataset b_db c of
        Inl e \<Rightarrow> Inl e
      | Inr a \<Rightarrow> (case slice3 a 0 of Inl e \<Rightarrow> Inl e | Inr s \<Rightarrow> Inr (np_scale2 s 1000000)))"

record loads_input =
  b_xx_top :: "real arr2"
  b_xy_top :: "real arr2"
  b_yy_top :: "real arr2"
  topo_c :: "real arr2"
  topo_dy :: "real arr2"
  topo_dx :: "real arr2"

definition loads_setup :: "(comp \<times> real arr3) list \<Rightarrow> real arr2 \<Rightarrow> int \<Rightarrow> error + loads_input" where
  "loads_setup b_db topo study_res =
     (case b_top b_db XX of Inl e \<Rightarrow> Inl e | Inr bxx \<Rightarrow>
     (case b_top b_db XY of Inl e \<Rightarrow> Inl e | Inr bxy \<Rightarrow>
     (case b_top b_db YY of Inl e \<Rightarrow> Inl e | Inr byy \<Rightarrow>
        (let b_shape = (int (nrow bxx), int (ncol bxx));
             topo' = centered topo b_shape
         in (case np_gradient topo' (real_of_int study_res) of
               Inl e \<Rightarrow> Inl e
             | Inr (dy, dx) \<Rightarrow>
                 Inr \<lparr> b_xx_top = bxx, b_xy_top = bxy, b_yy_top = byy,
                       topo_c = topo', topo_dy = dy, topo_dx = dx \<rparr>)))))"

text \<open>
  \<open>Fht_x = topo * Fv * topo_dx\<close>, \<open>Fhb_x = b_xx_top * topo_dx + b_xy_top * topo_dy\<close>,
  \<open>Fh_x = Fht_x + Fhb_x\<close>.
\<close>

definition Fh :: "real arr2 \<Rightarrow> real arr2 \<Rightarrow> real arr2 \<Rightarrow> real arr2 \<Rightarrow> real arr2 \<Rightarrow> error + real arr2" where
  "Fh topo d1 b1 b12 d2 =
     (case np_binop2 (*) (np_scale2 topo Fv) d1 of Inl e \<Rightarrow> Inl e | Inr fht \<Rightarrow>
     (case np_binop2 (*) b1 d1 of Inl e \<Rightarrow> Inl e | Inr u \<Rightarrow>
     (case np_binop2 (*) b12 d2 of Inl e \<Rightarrow> Inl e | Inr v \<Rightarrow>
     (case np_binop2 (+) u v of Inl e \<Rightarrow> Inl e | Inr fhb \<Rightarrow>
        np_binop2 (+) fht fhb))))"

definition Fh_x :: "loads_input \<Rightarrow> error + real arr2" where
  "Fh_x l = Fh (topo_c l) (topo_dx l) (b_xx_top l) (b_xy_top l) (topo_dy l)"

definition Fh_y :: "loads_input \<Rightarrow> error + real arr2" where
  "Fh_y l = Fh (topo_c l) (topo_dy l) (b_yy_top l) (b_xy_top l) (topo_dx l)"

subsection \<open>Cerruti convolutions and the sum\<close>

text \<open>
  The body of the loop for one component: the two Cerruti arrays, copies of \<open>c_x\<close>
  and \<open>c_y\<close> filled slice by slice with the convolution times \<open>1e-6\<close>, and the sum
  \<open>b_db['b_<comp>_MPa'][:,:,:] + cerr_x[comp] + cerr_y[comp]\<close>.
\<close>

record comp_result =
  cerr_x :: "real arr3"
  cerr_y :: "real arr3"
  total :: "real arr3"

definition cerr_dataset :: "halfspace \<Rightarrow> int \<Rightarrow> real arr2 \<Rightarrow> real arr3 \<Rightarrow> f_dir \<Rightarrow> comp \<Rightarrow> error + real arr3" where
  "cerr_dataset hs study_res load c0 dir c =
     fill_slices
       (\<lambda>i. np_scale2 (do_c_convo hs (kernel_len study_res) c dir (z_vec study_res i) load Same)
                      (1 / 1000000))
       [0..<nat (z_len study_res)] c0"

definition c_body ::
  "halfspace \<Rightarrow> int \<Rightarrow> (comp \<times> real arr3) list \<Rightarrow> real arr2 \<Rightarrow> real arr2 \<Rightarrow> real arr3 \<Rightarrow> comp
     \<Rightarrow> error + comp_result" where
  "c_body hs study_res b_db fx fy c0 c =
     (case cerr_dataset hs study_res fx c0 Dir_x c of Inl e \<Rightarrow> Inl e | Inr cx \<Rightarrow>
     (case cerr_dataset hs study_res fy c0 Dir_y c of Inl e \<Rightarrow> Inl e | Inr cy \<Rightarrow>
     (case dataset b_db c of Inl e \<Rightarrow> Inl e | Inr b \<Rightarrow>
     (case np_binop3 (+) b cx of Inl e \<Rightarrow> Inl e | Inr s \<Rightarrow>
     (case np_binop3 (+) s cy of Inl e \<Rightarrow> Inl e | Inr t \<Rightarrow>
        Inr \<lparr> cerr_x = cx, cerr_y = cy, total = t \<rparr>)))))"

subsection \<open>The notebook\<close>

text \<open>
  The three files written, each the list of its datasets by key: the Boussinesq datasets
  \<open>b_<comp>_MPa\<close>, the Cerruti datasets \<open>c_<comp>_x_MPa\<close> and \<open>c_<comp>_y_MPa\<close>,
  and the combined datasets \<open><comp>_MPa\<close>.  The files are new, so that no dataset
  exists before it is created.  The inputs are the DEM as loaded and \<open>x_res_m\<close> of its
  metadata, as an integer.
\<close>

record stress_files =
  b_db :: "(comp \<times> real arr3) list"
  c_db :: "((comp \<times> f_dir) \<times> real arr3) list"
  t_db :: "(comp \<times> real arr3) list"

definition write_files :: "(comp \<times> real arr3) list \<Rightarrow> (comp \<times> comp_result) list \<Rightarrow> stress_files" where
  "write_files bdb res =
     \<lparr> b_db = bdb,
       c_db = concat (map (\<lambda>(c, r). [((c, Dir_x), cerr_x r), ((c, Dir_y), cerr_y r)]) res),
       t_db = map (\<lambda>(c, r). (c, total r)) res \<rparr>"

definition stress_field :: "halfspace \<Rightarrow> real arr2 \<Rightarrow> int \<Rightarrow> error + stress_files" where
  "stress_field hs dem x_res_m =
     (let study_res = x_res_m
      in if study_res = 0 then Inl ZeroDivisionError
         else
          (let topo = np_scale2 dem (- 1);
               (b_out_x, b_out_y) =
                  size_output (kernel_len study_res, kernel_len study_res)
                    (int (nrow topo), int (ncol topo)) Valid
           in (case np_empty (junk hs) b_out_x b_out_y (z_len study_res) of
                 Inl e \<Rightarrow> Inl e
               | Inr b_stress \<Rightarrow>
              (case for_comps (b_dataset hs study_res topo b_stress) comp_list of
                 Inl e \<Rightarrow> Inl e
               | Inr bdb \<Rightarrow>
              (case loads_setup bdb topo study_res of
                 Inl e \<Rightarrow> Inl e
               | Inr l \<Rightarrow>
              (case Fh_x l of Inl e \<Rightarrow> Inl e | Inr fx \<Rightarrow>
              (case Fh_y l of Inl e \<Rightarrow> Inl e | Inr fy \<Rightarrow>
                 (let c0 = np_zeros (nrow (topo_c l)) (ncol (topo_c l)) (nat (z_len study_res))
                  in (case for_comps (c_body hs study_res bdb fx fy c0) comp_list of
                        Inl e \<Rightarrow> Inl e
                      | Inr res \<Rightarrow> Inr (write_files bdb res))))))))))"

subsection \<open>The difference scheme in the words of the specification\<close>

text \<open>
  Section 4.3 of the specification: gradients use a centered finite-difference scheme at
  the grid resolution.  The central difference of an array along axis 1 at the grid
  point \<open>(i, j)\<close>, over the two neighbours of the point in its row (for a column
  \<open>j\<close> that has both of them).
\<close>

definition spec_centered_dx :: "real arr2 \<Rightarrow> real \<Rightarrow> nat \<Rightarrow> nat \<Rightarrow> real" where
  "spec_centered_dx a h i j = (at2 a i (j + 1) - at2 a i (j - 1)) / (2 * h)"

section \<open>Example inputs\<close>

text \<open>
  A fault model of two points and a prior table of two iterations, with index labels 7
  and 3 in that order.  The example resolver gives shear stresses in the ratio 3 : 4,
  proportional to \<open>txx\<close>, and an effective normal stress proportional to depth.
\<close>

definition ex_fault :: "fault_point list" where
  "ex_fault =
     [\<lparr> f_z = 5, f_strike = 30, f_dip = 60, f_slip_m = 1,
        f_xx_stress = 1, f_yy_stress = 2, f_xy_stress = 3,
        f_zz_stress = 4, f_xz_stress = 5, f_yz_stress = 6 \<rparr>,
      \<lparr> f_z = 10, f_strike = 40, f_dip = 70, f_slip_m = 3,
        f_xx_stress = 7, f_yy_stress = 8, f_xy_stress = 9,
        f_zz_stress = 10, f_xz_stress = 11, f_yz_stress = 12 \<rparr>]"

definition ex_priors :: "prior_row list" where
  "ex_priors =
     [\<lparr> p_index = 7, p_txx = 2, p_tyy = 1, p_txy = 0, p_likelihood = 1 / 2 \<rparr>,
      \<lparr> p_index = 3, p_txx = 40, p_tyy = 5, p_txy = 6, p_likelihood = 1 / 4 \<rparr>]"

definition ex_draws :: "nat \<Rightarrow> real" where
  "ex_draws n = real n / 10000"

definition ex_phis :: "real list" where
  "ex_phis = [7 / 10000, 3 / 10000]"

definition ex_scv :: scv where
  "ex_scv =
     \<lparr> strike_shear = (\<lambda>a. 3 * a_txx a),
       dip_shear = (\<lambda>a. 4 * a_txx a),
       eff_normal_stress = (\<lambda>a p. a_depth a / 100) \<rparr>"

text \<open>A resolver with no shear stress and a negative effective normal stress everywhere.\<close>

definition ex_scv_neg :: scv where
  "ex_scv_neg =
     \<lparr> strike_shear = (\<lambda>a. 0),
       dip_shear = (\<lambda>a. 0),
       eff_normal_stress = (\<lambda>a p. - 1) \<rparr>"

text \<open>
  A resolver with shear stresses in the ratio 3 : 4, proportional to \<open>txy\<close>, and a
  negative effective normal stress.
\<close>

definition ex_scv_txy_neg :: scv where
  "ex_scv_txy_neg =
     \<lparr> strike_shear = (\<lambda>a. 3 * a_txy a),
       dip_shear = (\<lambda>a. 4 * a_txy a),
       eff_normal_stress = (\<lambda>a p. - 1) \<rparr>"

text \<open>
  A fault model whose first point has a negative slip, and a resolver that gives a shear
  stress to that point only, with a negative effective normal stress.
\<close>

definition ex_fault_back :: "fault_point list" where
  "ex_fault_back =
     [\<lparr> f_z = 5, f_strike = 30, f_dip = 60, f_slip_m = - 1,
        f_xx_stress = 1, f_yy_stress = 2, f_xy_stress = 3,
        f_zz_stress = 4, f_xz_stress = 5, f_yz_stress = 6 \<rparr>,
      \<lparr> f_z = 10, f_strike = 40, f_dip = 70, f_slip_m = 3,
        f_xx_stress = 7, f_yy_stress = 8, f_xy_stress = 9,
        f_zz_stress = 10, f_xz_stress = 11, f_yz_stress = 12 \<rparr>]"

definition ex_scv_strike_neg :: scv where
  "ex_scv_strike_neg =
     \<lparr> strike_shear = (\<lambda>a. 40 - a_strike a),
       dip_shear = (\<lambda>a. 0),
       eff_normal_stress = (\<lambda>a p. - 8) \<rparr>"

text \<open>
  Prior tables of two iterations: with the index labels \<open>-1\<close> and \<open>3\<close>, with the
  index label \<open>7\<close> twice, and with the index labels \<open>3\<close> and \<open>10000\<close>.
\<close>

definition ex_priors_last :: "prior_row list" where
  "ex_priors_last =
     [\<lparr> p_index = - 1, p_txx = 2, p_tyy = 1, p_txy = 0, p_likelihood = 1 / 2 \<rparr>,
      \<lparr> p_index = 3, p_txx = 40, p_tyy = 5, p_txy = 6, p_likelihood = 1 / 4 \<rparr>]"

definition ex_priors_dup :: "prior_row list" where
  "ex_priors_dup =
     [\<lparr> p_index = 7, p_txx = 2, p_tyy = 1, p_txy = 0, p_likelihood = 1 / 2 \<rparr>,
      \<lparr> p_index = 7, p_txx = 40, p_tyy = 5, p_txy = 6, p_likelihood = 1 / 4 \<rparr>]"

definition ex_priors_beyond :: "prior_row list" where
  "ex_priors_beyond =
     [\<lparr> p_index = 3, p_txx = 40, p_tyy = 5, p_txy = 6, p_likelihood = 1 / 4 \<rparr>,
      \<lparr> p_index = 10000, p_txx = 2, p_tyy = 1, p_txy = 0, p_likelihood = 1 / 2 \<rparr>]"

definition ex_rows :: "sample list" where
  "ex_rows = projr (search_df ex_phis ex_fault ex_priors)"

definition ex_rows_back :: "sample list" where
  "ex_rows_back = projr (search_df ex_phis ex_fault_back ex_priors)"

definition ex_rows_last :: "sample list" where
  "ex_rows_last = projr (search_df [9999 / 10000, 3 / 10000] ex_fault ex_priors_last)"

definition ex_rows_dup :: "sample list" where
  "ex_rows_dup = projr (search_df [7 / 10000, 7 / 10000] ex_fault ex_priors_dup)"

text \<open>
  A fault model of three points with unit slip and a prior table of two iterations, the
  first with \<open>txx\<close> the double nearest to one tenth (the value read from \<open>0.1\<close>);
  a resolver with shear stresses 3 and 4 and an effective normal stress of 8.
\<close>

definition ex_fault_three :: "fault_point list" where
  "ex_fault_three =
     [\<lparr> f_z = 5, f_strike = 30, f_dip = 60, f_slip_m = 1,
        f_xx_stress = 1, f_yy_stress = 2, f_xy_stress = 3,
        f_zz_stress = 4, f_xz_stress = 5, f_yz_stress = 6 \<rparr>,
      \<lparr> f_z = 10, f_strike = 40, f_dip = 70, f_slip_m = 1,
        f_xx_stress = 7, f_yy_stress = 8, f_xy_stress = 9,
        f_zz_stress = 10, f_xz_stress = 11, f_yz_stress = 12 \<rparr>,
      \<lparr> f_z = 15, f_strike = 50, f_dip = 80, f_slip_m = 1,
        f_xx_stress = 13, f_yy_stress = 14, f_xy_stress = 15,
        f_zz_stress = 16, f_xz_stress = 17, f_yz_stress = 18 \<rparr>]"

definition ex_priors_tenth :: "prior_row list" where
  "ex_priors_tenth =
     [\<lparr> p_index = 0, p_txx = 3602879701896397 / 36028797018963968, p_tyy = 1, p_txy = 0,
        p_likelihood = 1 / 2 \<rparr>,
      \<lparr> p_index = 1, p_txx = 2, p_tyy = 5, p_txy = 6, p_likelihood = 1 / 4 \<rparr>]"

definition ex_rows_tenth :: "sample list" where
  "ex_rows_tenth = projr (search_df [0, 1 / 10000] ex_fault_three ex_priors_tenth)"

definition ex_scv_unit :: scv where
  "ex_scv_unit =
     \<lparr> strike_shear = (\<lambda>a. 3),
       dip_shear = (\<lambda>a. 4),
       eff_normal_stress = (\<lambda>a p. 8) \<rparr>"

text \<open>
  A DEM of 5 by 5 pixels whose elevation is the square of the column number, at a
  resolution of 150000 m, for which the kernel has 3 by 3 pixels; example convolutions
  that scale the load by the depth.
\<close>

definition ex_dem :: "real arr2" where
  "ex_dem = \<lparr> nrow = 5, ncol = 5, at2 = (\<lambda>i j. real (j * j)) \<rparr>"

definition ex_hs :: halfspace where
  "ex_hs =
     \<lparr> b_conv = (\<lambda>c z Fv load i j. z * at2 load (i + 1) (j + 1)),
       c_conv = (\<lambda>c d z load i j. z * at2 load i j),
       junk = (\<lambda>i j k. 0) \<rparr>"

definition ex_files :: stress_files where
  "ex_files = projr (stress_field ex_hs ex_dem 150000)"

definition ex_loads :: loads_input where
  "ex_loads = projr (loads_setup (b_db ex_files) (np_scale2 ex_dem (- 1)) 150000)"

text \<open>Two arrays of the shapes \<open>(2, 2, 2)\<close> and \<open>(3, 2, 2)\<close>.\<close>

definition ex_a3 :: "real arr3" where
  "ex_a3 = \<lparr> dim0 = 2, dim1 = 2, dim2 = 2, at3 = (\<lambda>i j k. 10) \<rparr>"

definition ex_b3 :: "real arr3" where
  "ex_b3 = \<lparr> dim0 = 3, dim1 = 2, dim2 = 2, at3 = (\<lambda>i j k. real i + 1) \<rparr>"

section \<open>Properties of the double-precision arithmetic\<close>

subsection \<open>Rounding\<close>

lemma round_even_of_int [simp]: "round_even (of_int z) = z"
  by (simp add: round_even_def)

lemma round_even_nonneg: "0 \<le> q \<Longrightarrow> 0 \<le> round_even q"
  by (auto simp: round_even_def Let_def)

lemma round_even_small:
  assumes "q < 1 / 2" "0 \<le> q"
  shows "round_even q = 0"
proof -
  have "\<lfloor>q\<rfloor> = 0"
    using assms by (simp add: floor_eq_iff)
  then show ?thesis
    using assms by (simp add: round_even_def)
qed

lemma ulp_pos [simp]: "0 < ulp a"
  by (simp add: ulp_def)

lemma ulp_neq_0 [simp]: "ulp a \<noteq> 0"
  using ulp_pos [of a] by (simp del: ulp_pos)

lemma r64_mag_nonneg: "0 \<le> a \<Longrightarrow> 0 \<le> r64_mag a"
  unfolding r64_mag_def using round_even_nonneg [of "a / ulp a"] ulp_pos [of a]
  by (simp add: less_imp_le)

lemma r64_zero [simp]: "r64 0 = Fin 0"
  by (simp add: r64_def)

lemma r64_not_nan [simp]: "r64 x \<noteq> NaN"
  by (simp add: r64_def)

lemma r64_nonneg [simp]: "0 \<le> x \<Longrightarrow> nonneg_val (r64 x)"
  using r64_mag_nonneg [of "\<bar>x\<bar>"] by (auto simp: r64_def sgn_if)

lemma r64_nonpos [simp]: "x \<le> 0 \<Longrightarrow> nonpos_val (r64 x)"
  using r64_mag_nonneg [of "\<bar>x\<bar>"] by (auto simp: r64_def sgn_if)

lemma bexp_eq:
  assumes "0 < a" "2 powr of_int e \<le> a" "a < 2 powr (of_int e + 1)" "- 1022 \<le> e"
  shows "bexp a = e"
proof -
  have "\<lfloor>log 2 a\<rfloor> = e"
    using assms by (simp add: floor_log_eq_powr_iff)
  then show ?thesis using assms by (simp add: bexp_def)
qed

lemma bexp_subnormal:
  assumes "0 < a" "a < 2 powr (- 1022)"
  shows "bexp a = - 1022"
proof -
  have "log 2 a < - 1022"
    using assms by (simp add: log_less_iff)
  then have "\<lfloor>log 2 a\<rfloor> \<le> - 1022"
    by linarith
  then show ?thesis by (simp add: bexp_def)
qed

text \<open>The rounding of a positive number whose binary exponent is known.\<close>

lemma r64_eval_pos:
  assumes "0 < a" "2 powr of_int e \<le> a" "a < 2 powr (of_int e + 1)" "- 1022 \<le> e"
    and "round_even (a / 2 powr of_int (e - 52)) = n"
    and "of_int n * 2 powr of_int (e - 52) < (2 :: real) ^ 1024"
  shows "r64 a = Fin (of_int n * 2 powr of_int (e - 52))"
  using assms bexp_eq [OF assms(1-4)]
  by (simp add: r64_def r64_mag_def ulp_def)

text \<open>A number below half of the smallest subnormal double rounds to zero.\<close>

lemma r64_underflow:
  assumes "\<bar>x\<bar> < 2 powr (- 1075)"
  shows "r64 x = Fin 0"
proof (cases "x = 0")
  case True
  then show ?thesis by simp
next
  case False
  then have pos: "0 < \<bar>x\<bar>" by simp
  have "(2 :: real) powr (- 1075) \<le> 2 powr (- 1022)"
    by (rule powr_mono) simp_all
  then have b: "bexp \<bar>x\<bar> = - 1022"
    using assms by (intro bexp_subnormal [OF pos]) linarith
  have u: "ulp \<bar>x\<bar> = 2 powr (- 1074)"
    by (simp add: ulp_def b)
  have "(2 :: real) powr (- 1075) = 2 powr (- 1074) * (1 / 2)"
    using powr_add [of "2 :: real" "- 1074" "- 1"] by (simp add: powr_minus)
  then have "\<bar>x\<bar> < 2 powr (- 1074) * (1 / 2)"
    using assms by simp
  then have "\<bar>x\<bar> / 2 powr (- 1074) < 1 / 2"
    by (simp add: field_simps)
  moreover have "0 \<le> \<bar>x\<bar> / 2 powr (- 1074)"
    by simp
  ultimately have "round_even (\<bar>x\<bar> / 2 powr (- 1074)) = 0"
    by (rule round_even_small)
  then show ?thesis
    using False by (simp add: r64_def r64_mag_def u)
qed

text \<open>
  A number \<open>n / 2 ^ k\<close> with \<open>\<bar>n\<bar> < 2 ^ 53\<close> and \<open>k \<le> 1022\<close> is a double: rounding
  leaves it unchanged.
\<close>

lemma r64_mag_dyadic:
  assumes m: "1 \<le> m" "m < 2 ^ 53" and k: "k \<le> 1022"
  shows "r64_mag (of_int m / 2 ^ k) = of_int m / 2 ^ k"
proof -
  define L where "L = \<lfloor>log 2 (of_int m :: real)\<rfloor>"
  define a :: real where "a = of_int m / 2 ^ k"
  have mpos: "(0 :: real) < of_int m" using m by simp
  have L1: "2 powr of_int L \<le> (of_int m :: real)" and L2: "(of_int m :: real) < 2 powr (of_int L + 1)"
    using floor_log_eq_powr_iff [of "of_int m" 2 L] mpos by (simp_all add: L_def)
  have "0 \<le> log 2 (of_int m :: real)"
    using m by (simp add: zero_le_log_cancel_iff)
  then have L0: "0 \<le> L" by (simp add: L_def)
  have "(of_int m :: real) < 2 ^ 53"
    using m(2) by (metis of_int_less_iff of_int_numeral of_int_power)
  then have "log 2 (of_int m :: real) < 53"
    using mpos by (simp add: log_less_iff powr_realpow)
  then have L52: "L \<le> 52" unfolding L_def by linarith
  have apos: "0 < a" using mpos by (simp add: a_def)
  have k2: "(2 :: real) ^ k = 2 powr of_int (int k)"
    by (simp add: powr_realpow)
  have a1: "2 powr of_int (L - int k) \<le> a"
    using L1 by (simp add: a_def k2 powr_diff divide_right_mono)
  have a2: "a < 2 powr (of_int (L - int k) + 1)"
  proof -
    have "(2 :: real) powr (of_int (L - int k) + 1) = 2 powr (of_int L + 1) / 2 powr of_int (int k)"
      by (simp add: powr_diff [symmetric] algebra_simps)
    then show ?thesis using L2 by (simp add: a_def k2 divide_strict_right_mono)
  qed
  have e: "- 1022 \<le> L - int k" using L0 k by simp
  have b: "bexp a = L - int k"
    by (rule bexp_eq [OF apos a1 a2 e])
  have u: "ulp a = 2 powr of_int (L - int k - 52)"
    by (simp add: ulp_def b)
  have "a / ulp a = of_int m * 2 powr of_int (52 - L)"
  proof -
    define U :: real where "U = 2 powr of_int (L - int k - 52)"
    define P :: real where "P = 2 powr of_int (52 - L)"
    define K :: real where "K = 2 powr of_int (int k)"
    have pos: "0 < U" "0 < P" "0 < K"
      by (simp_all add: U_def P_def K_def)
    have "U * P * K = 2 powr (of_int (L - int k - 52) + of_int (52 - L) + of_int (int k))"
      unfolding U_def P_def K_def by (simp only: powr_add)
    then have one: "U * P * K = 1"
      by simp
    have "of_int m / K / U = of_int m * (U * P * K) / (K * U)"
      by (simp only: one) simp
    also have "\<dots> = of_int m * P"
      using pos by (simp add: field_simps)
    finally have "of_int m / K / U = of_int m * P" .
    then have "a / U = of_int m * P"
      unfolding a_def k2 K_def .
    then show ?thesis
      unfolding u U_def P_def .
  qed
  also have "(2 :: real) powr of_int (52 - L) = 2 ^ nat (52 - L)"
    using L52 by (simp add: powr_realpow [symmetric])
  finally have q: "a / ulp a = of_int (m * 2 ^ nat (52 - L))"
    by simp
  have "r64_mag a = of_int (m * 2 ^ nat (52 - L)) * ulp a"
    unfolding r64_mag_def q by (simp only: round_even_of_int)
  also have "\<dots> = a / ulp a * ulp a"
    by (simp only: q)
  also have "\<dots> = a"
    by simp
  finally show ?thesis by (simp add: a_def)
qed

lemma r64_dyadic:
  assumes "\<bar>n\<bar> < 2 ^ 53" "k \<le> 1022"
  shows "r64 (of_int n / 2 ^ k) = Fin (of_int n / 2 ^ k)"
proof (cases "n = 0")
  case True
  then show ?thesis by simp
next
  case False
  define x :: real where "x = of_int n / 2 ^ k"
  have m: "1 \<le> \<bar>n\<bar>" using False by simp
  have ax: "\<bar>x\<bar> = of_int \<bar>n\<bar> / 2 ^ k"
    by (simp add: x_def)
  have mag: "r64_mag \<bar>x\<bar> = \<bar>x\<bar>"
    unfolding ax by (rule r64_mag_dyadic [OF m assms])
  have M: "(of_int \<bar>n\<bar> :: real) < 2 ^ 53"
    using assms(1) by (metis of_int_less_iff of_int_numeral of_int_power)
  have "(of_int \<bar>n\<bar> :: real) / 2 ^ k \<le> of_int \<bar>n\<bar> / 1"
    by (rule divide_left_mono) simp_all
  then have "\<bar>x\<bar> < 2 ^ 53"
    unfolding ax using M by linarith
  also have "(2 :: real) ^ 53 \<le> 2 ^ 1024"
    by (rule power_increasing) simp_all
  finally have lt: "\<bar>x\<bar> < 2 ^ 1024" .
  have "x \<noteq> 0" using False by (simp add: x_def)
  then have "r64 x = Fin (sgn x * \<bar>x\<bar>)"
    using lt by (simp add: r64_def mag)
  then show ?thesis by (simp add: x_def [symmetric] mult_sgn_abs)
qed

lemma r64_of_int: "\<bar>n\<bar> < 2 ^ 53 \<Longrightarrow> r64 (of_int n) = Fin (of_int n)"
  using r64_dyadic [of n 0] by simp

lemma r64_numeral [simp]:
  "(numeral w :: int) < 9007199254740992 \<Longrightarrow> r64 (numeral w) = Fin (numeral w)"
  using r64_of_int [of "numeral w"] by simp

lemma r64_neg_numeral [simp]:
  "(numeral w :: int) < 9007199254740992 \<Longrightarrow> r64 (- numeral w) = Fin (- numeral w)"
  using r64_of_int [of "- numeral w"] by simp

lemma r64_one [simp]: "r64 1 = Fin 1"
  using r64_of_int [of 1] by simp

lemma r64_neg_one [simp]: "r64 (- 1) = Fin (- 1)"
  using r64_of_int [of "- 1"] by simp

text \<open>
  The doubles nearest to \<open>2 / 15\<close>, \<open>8 / 3\<close> and \<open>7 / 5\<close>; the double nearest to
  one tenth, its sum with itself, the rounded sum of three of them
  (\<open>0.30000000000000004\<close>) and the rounded third of that sum
  (\<open>0.10000000000000002\<close>).
\<close>

lemma r64_2_15 [simp]:
  "r64 (2 / 15) = Fin (4803839602528529 / 36028797018963968)"
  using r64_eval_pos [of "2 / 15" "- 3" 4803839602528529]
  by (simp add: powr_minus round_even_def Let_def)

lemma r64_8_3 [simp]:
  "r64 (8 / 3) = Fin (6004799503160661 / 2251799813685248)"
  using r64_eval_pos [of "8 / 3" 1 6004799503160661]
  by (simp add: powr_minus round_even_def Let_def)

lemma r64_7_5 [simp]:
  "r64 (7 / 5) = Fin (3152519739159347 / 2251799813685248)"
  using r64_eval_pos [of "7 / 5" 0 6305039478318694]
  by (simp add: powr_minus round_even_def Let_def)

lemma r64_5_8 [simp]: "r64 (5 / 8) = Fin (5 / 8)"
  using r64_dyadic [of 5 3] by simp

lemma r64_tenth [simp]:
  "r64 (3602879701896397 / 36028797018963968) = Fin (3602879701896397 / 36028797018963968)"
  using r64_dyadic [of 3602879701896397 55] by simp

lemma r64_two_tenths [simp]:
  "r64 (3602879701896397 / 18014398509481984) = Fin (3602879701896397 / 18014398509481984)"
  using r64_dyadic [of 3602879701896397 54] by simp

lemma r64_three_tenths [simp]:
  "r64 (10808639105689191 / 36028797018963968) = Fin (1351079888211149 / 4503599627370496)"
  using r64_eval_pos [of "10808639105689191 / 36028797018963968" "- 2" 5404319552844596]
  by (simp add: powr_minus round_even_def Let_def)

lemma r64_third_of_three_tenths [simp]:
  "r64 (1351079888211149 / 13510798882111488) = Fin (7205759403792795 / 72057594037927936)"
  using r64_eval_pos [of "1351079888211149 / 13510798882111488" "- 4" 7205759403792795]
  by (simp add: powr_minus round_even_def Let_def)

lemma pd_mean_three_tenths:
  "pd_mean (replicate 3 (Fin (3602879701896397 / 36028797018963968))) =
     Fin (7205759403792795 / 72057594037927936)"
  by (simp add: pd_mean_def numeral_3_eq_3)

subsection \<open>Signs\<close>

lemma fadd_nonneg: "nonneg_val a \<Longrightarrow> nonneg_val b \<Longrightarrow> nonneg_val (fadd a b)"
  by (cases a; cases b) simp_all

lemma fadd_nonpos: "nonpos_val a \<Longrightarrow> nonpos_val b \<Longrightarrow> nonpos_val (fadd a b)"
  by (cases a; cases b) simp_all

lemma fmul_nonneg: "nonneg_val a \<Longrightarrow> nonneg_val b \<Longrightarrow> nonneg_val (fmul a b)"
  by (cases a; cases b) simp_all

lemma fsqrt_nonneg: "nonneg_val a \<Longrightarrow> nonneg_val (fsqrt a)"
  by (cases a) simp_all

lemma fdiv_nonneg: "nonneg_val a \<Longrightarrow> nonneg_val b \<Longrightarrow> nonneg_val (fdiv a b)"
  by (cases a; cases b) simp_all

lemma fdiv_nonpos_count: "nonpos_val a \<Longrightarrow> 0 < n \<Longrightarrow> nonpos_val (fdiv a (Fin n))"
  by (cases a) (simp_all add: divide_nonpos_pos)

lemma foldl_fadd_nonneg:
  "nonneg_val a \<Longrightarrow> \<forall>v\<in>set xs. nonneg_val v \<Longrightarrow> nonneg_val (foldl fadd a xs)"
proof (induction xs arbitrary: a)
  case Nil
  then show ?case by simp
next
  case (Cons x xs)
  from Cons.prems have "nonneg_val (fadd a x)"
    by (intro fadd_nonneg) simp_all
  with Cons.prems show ?case
    by (simp add: Cons.IH)
qed

lemma foldl_fadd_nonpos:
  "nonpos_val a \<Longrightarrow> \<forall>v\<in>set xs. nonpos_val v \<Longrightarrow> nonpos_val (foldl fadd a xs)"
proof (induction xs arbitrary: a)
  case Nil
  then show ?case by simp
next
  case (Cons x xs)
  from Cons.prems have "nonpos_val (fadd a x)"
    by (intro fadd_nonpos) simp_all
  with Cons.prems show ?case
    by (simp add: Cons.IH)
qed

lemma pd_mean_nonneg:
  assumes "\<forall>v\<in>set xs. nonneg_val v"
  shows "nonneg_val (pd_mean xs)"
proof (cases "filter (\<lambda>v. \<not> isnan v) xs = []")
  case True
  then show ?thesis by (simp add: pd_mean_def)
next
  case False
  have "nonneg_val (foldl fadd (Fin 0) (filter (\<lambda>v. \<not> isnan v) xs))"
    using assms by (intro foldl_fadd_nonneg) simp_all
  moreover have "nonneg_val (Fin (real (length (filter (\<lambda>v. \<not> isnan v) xs))))"
    by simp
  ultimately have "nonneg_val (fdiv (foldl fadd (Fin 0) (filter (\<lambda>v. \<not> isnan v) xs))
      (Fin (real (length (filter (\<lambda>v. \<not> isnan v) xs)))))"
    by (rule fdiv_nonneg)
  with False show ?thesis
    unfolding pd_mean_def Let_def by (simp only: if_False)
qed

lemma pd_mean_nonpos:
  assumes "\<forall>v\<in>set xs. nonpos_val v"
  shows "nonpos_val (pd_mean xs)"
proof (cases "filter (\<lambda>v. \<not> isnan v) xs = []")
  case True
  then show ?thesis by (simp add: pd_mean_def)
next
  case False
  have "nonpos_val (foldl fadd (Fin 0) (filter (\<lambda>v. \<not> isnan v) xs))"
    using assms by (intro foldl_fadd_nonpos) simp_all
  moreover from False have "0 < real (length (filter (\<lambda>v. \<not> isnan v) xs))"
    by simp
  ultimately have "nonpos_val (fdiv (foldl fadd (Fin 0) (filter (\<lambda>v. \<not> isnan v) xs))
      (Fin (real (length (filter (\<lambda>v. \<not> isnan v) xs)))))"
    by (rule fdiv_nonpos_count)
  with False show ?thesis
    unfolding pd_mean_def Let_def by (simp only: if_False)
qed

text \<open>
  A quotient of a value that is not negative by a value that is not positive passes the
  test \<open>0 \<le> mu \<le> 1\<close> only when it is zero.
\<close>

lemma nonpos_val_zero: "nonpos_val v \<Longrightarrow> fle (Fin 0) v \<Longrightarrow> v = Fin 0"
  by (cases v) simp_all

lemma fdiv_nonneg_nonpos:
  assumes "nonneg_val a" "nonpos_val b" "fle (Fin 0) (fdiv a b)" "fle (fdiv a b) (Fin 1)"
  shows "fdiv a b = Fin 0"
proof (cases a)
  case a: (Fin x)
  show ?thesis
  proof (cases b)
    case b: (Fin y)
    show ?thesis
    proof (cases "y = 0")
      case True
      with assms a b show ?thesis
        by (simp split: if_splits)
    next
      case False
      with assms a b have "x / y \<le> 0"
        by (simp add: divide_nonneg_neg)
      then have "nonpos_val (r64 (x / y))"
        by simp
      moreover from assms(3) a b False have "fle (Fin 0) (r64 (x / y))"
        by simp
      ultimately have "r64 (x / y) = Fin 0"
        by (rule nonpos_val_zero)
      with a b False show ?thesis by simp
    qed
  qed (use assms a in simp_all)
qed (use assms in \<open>cases b; simp split: if_splits\<close>)+

section \<open>Properties of the failure analysis\<close>

subsection \<open>Layout of the sample table\<close>


lemma length_concat_blocks:
  "length (concat (map (\<lambda>i. map (f i) [0..<n]) [0..<m])) = m * n"
  by (induction m) simp_all

lemma concat_blocks_nth:
  "r < m * n \<Longrightarrow> concat (map (\<lambda>i. map (f i) [0..<n]) [0..<m]) ! r = f (r div n) (r mod n)"
proof (induction m)
  case 0
  then show ?case by simp
next
  case (Suc m)
  show ?case
  proof (cases "r < m * n")
    case True
    with Suc.IH show ?thesis
      by (simp add: nth_append length_concat_blocks)
  next
    case False
    with Suc.prems have lo: "m * n \<le> r" and hi: "r - m * n < n"
      by simp_all
    from hi have npos: "0 < n" by simp
    have q: "r div n = m"
      using lo Suc.prems npos
      by (metis False div_less_iff_less_mult div_nat_eqI mult.commute mult_Suc not_less)
    have "r mod n = r - m * n"
      using q by (metis minus_mult_div_eq_mod mult.commute)
    with False q hi show ?thesis
      by (simp add: nth_append length_concat_blocks)
  qed
qed

lemma length_concat_replicate:
  "length (concat (replicate m xs)) = m * length xs"
  by (induction m) simp_all

lemma concat_replicate_nth:
  "r < m * length xs \<Longrightarrow> concat (replicate m xs) ! r = xs ! (r mod length xs)"
proof (induction m arbitrary: r)
  case 0
  then show ?case by simp
next
  case (Suc m)
  show ?case
  proof (cases "r < length xs")
    case True
    then show ?thesis by (simp add: nth_append)
  next
    case False
    then have "r - length xs < m * length xs"
      using Suc.prems by simp
    from Suc.IH [OF this] False show ?thesis
      by (simp add: nth_append le_mod_geq)
  qed
qed

lemma map_enumerate_upt:
  "map (\<lambda>(i, x). F i x) (enumerate 0 xs) = map (\<lambda>i. F i (xs ! i)) [0..<length xs]"
  by (rule nth_equalityI) (simp_all add: nth_enumerate_eq)

lemma index_list_blocks:
  "index_list phis df n =
     concat (map (\<lambda>i. map (\<lambda>pt. (p_index (df ! i), phis ! i, p_txx (df ! i),
                                    p_tyy (df ! i), p_txy (df ! i), pt)) [0..<n])
                 [0..<length df])"
proof -
  have "map (\<lambda>(i, iter_ind). map (\<lambda>pt. (iter_ind, phis ! i, p_txx (df ! i),
                                    p_tyy (df ! i), p_txy (df ! i), pt)) [0..<n])
            (enumerate 0 (map p_index df))
        = map (\<lambda>i. map (\<lambda>pt. (p_index (df ! i), phis ! i, p_txx (df ! i),
                                    p_tyy (df ! i), p_txy (df ! i), pt)) [0..<n])
              [0..<length df]"
    by (rule nth_equalityI) (simp_all add: nth_enumerate_eq)
  then show ?thesis
    unfolding index_list_def by simp
qed

lemma search_df_length:
  assumes "search_df phis fault_df df = Inr rows"
  shows "length rows = length df * length fault_df"
  using assms
  by (auto simp: search_df_def Let_def index_list_blocks df_reps_def
      length_concat_blocks length_concat_replicate split: if_splits)

lemma search_df_nonempty:
  assumes "search_df phis fault_df df = Inr rows"
  shows "df \<noteq> [] \<and> fault_df \<noteq> []"
proof -
  from assms have "index_list phis df (length fault_df) \<noteq> []"
    by (auto simp: search_df_def Let_def split: if_splits)
  then have "length (index_list phis df (length fault_df)) \<noteq> 0"
    by simp
  then show ?thesis
    by (auto simp: index_list_blocks length_concat_blocks)
qed

lemma search_df_not_single:
  assumes "search_df phis fault_df df = Inr rows"
  shows "length df \<noteq> 1"
  using assms by (auto simp: search_df_def Let_def split: if_splits)

lemma search_df_nth:
  assumes "search_df phis fault_df df = Inr rows" and "r < length rows"
  shows "rows ! r = block_row phis fault_df df (r div length fault_df) (r mod length fault_df)"
proof -
  let ?n = "length fault_df"
  from assms have r: "r < length df * ?n"
    by (simp add: search_df_length)
  from assms(1) have rows: "rows = map scale_units
      (map2 fill_row (index_list phis df ?n) (df_reps fault_df (length df)))"
    by (auto simp: search_df_def Let_def split: if_splits)
  have e: "index_list phis df ?n ! r =
      (p_index (df ! (r div ?n)), phis ! (r div ?n), p_txx (df ! (r div ?n)),
       p_tyy (df ! (r div ?n)), p_txy (df ! (r div ?n)), r mod ?n)"
    unfolding index_list_blocks using r by (rule concat_blocks_nth)
  have f: "df_reps fault_df (length df) ! r = fault_df ! (r mod ?n)"
    unfolding df_reps_def using r by (rule concat_replicate_nth)
  have l1: "length (index_list phis df ?n) = length df * ?n"
    by (simp add: index_list_blocks length_concat_blocks)
  have l2: "length (df_reps fault_df (length df)) = length df * ?n"
    by (simp add: df_reps_def length_concat_replicate)
  show ?thesis
    unfolding rows block_row_def using r e f l1 l2 by simp
qed

lemma search_df_blocks:
  assumes "search_df phis fault_df df = Inr rows"
  shows "rows = concat (map (\<lambda>i. map (block_row phis fault_df df i) [0..<length fault_df])
                           [0..<length df])"
proof (rule nth_equalityI)
  show "length rows = length (concat (map (\<lambda>i. map (block_row phis fault_df df i)
      [0..<length fault_df]) [0..<length df]))"
    using assms by (simp add: search_df_length length_concat_blocks)
next
  fix r assume "r < length rows"
  then show "rows ! r = concat (map (\<lambda>i. map (block_row phis fault_df df i)
      [0..<length fault_df]) [0..<length df]) ! r"
    using assms by (simp add: search_df_nth search_df_length concat_blocks_nth)
qed

lemma iter_block_row [simp]:
  "iter (block_row phis fault_df df i pt) = p_index (df ! i)"
  by (simp add: block_row_def fill_row_def scale_units_def)

lemma concat_select_block:
  "i0 < m \<Longrightarrow> concat (map (\<lambda>i. if i = i0 then f i else []) [0..<m]) = f i0"
proof (induction m)
  case 0
  then show ?case by simp
next
  case (Suc m)
  show ?case
  proof (cases "i0 = m")
    case True
    have "concat (map (\<lambda>i. if i = m then f i else []) [0..<m]) = []"
      by (induction m) auto
    with True show ?thesis by simp
  next
    case False
    with Suc have "i0 < m" by simp
    from Suc.IH [OF this] False show ?thesis by simp
  qed
qed

lemma group_rows_block:
  assumes s: "search_df phis fault_df df = Inr rows"
    and i: "i < length df"
    and u: "\<forall>j<length df. p_index (df ! j) = p_index (df ! i) \<longrightarrow> j = i"
  shows "group_rows rows (p_index (df ! i)) =
           map (block_row phis fault_df df i) [0..<length fault_df]"
proof -
  let ?blk = "\<lambda>j. map (block_row phis fault_df df j) [0..<length fault_df]"
  have sel: "\<And>j. j < length df \<Longrightarrow>
      filter (\<lambda>r. iter r = p_index (df ! i)) (?blk j) = (if j = i then ?blk j else [])"
  proof -
    fix j assume j: "j < length df"
    have "p_index (df ! j) = p_index (df ! i) \<longleftrightarrow> j = i"
      using u j by auto
    then show "filter (\<lambda>r. iter r = p_index (df ! i)) (?blk j) = (if j = i then ?blk j else [])"
      by (simp add: filter_map o_def)
  qed
  have "group_rows rows (p_index (df ! i)) =
      concat (map (\<lambda>j. filter (\<lambda>r. iter r = p_index (df ! i)) (?blk j)) [0..<length df])"
    unfolding group_rows_def search_df_blocks [OF s]
    by (simp add: filter_concat o_def)
  also have "\<dots> = concat (map (\<lambda>j. if j = i then ?blk j else []) [0..<length df])"
    using sel by (intro arg_cong [where f = concat] map_cong) simp_all
  also have "\<dots> = ?blk i"
    using i by (rule concat_select_block)
  finally show ?thesis .
qed

lemma distinct_label_unique:
  assumes "distinct (map p_index df)" and "i < length df"
  shows "\<forall>j<length df. p_index (df ! j) = p_index (df ! i) \<longrightarrow> j = i"
  using assms by (metis distinct_conv_nth length_map nth_map)

text \<open>A list with exactly one element that passes a test.\<close>

lemma filter_singleton_index:
  "filter P xs = [y] \<Longrightarrow>
     \<exists>i<length xs. xs ! i = y \<and> (\<forall>j<length xs. P (xs ! j) \<longrightarrow> j = i)"
proof (induction xs)
  case Nil
  then show ?case by simp
next
  case (Cons x xs)
  show ?case
  proof (cases "P x")
    case True
    with Cons.prems have x: "x = y" and e: "filter P xs = []"
      by simp_all
    from e have none: "\<forall>j<length xs. \<not> P (xs ! j)"
      by (auto simp: filter_empty_conv)
    have "\<forall>j<length (x # xs). P ((x # xs) ! j) \<longrightarrow> j = 0"
    proof (intro allI impI)
      fix j assume "j < length (x # xs)" and "P ((x # xs) ! j)"
      with none show "j = 0"
        by (cases j) auto
    qed
    with x show ?thesis
      by (intro exI [of _ 0]) simp
  next
    case False
    with Cons.prems have "filter P xs = [y]"
      by simp
    from Cons.IH [OF this] obtain i where i: "i < length xs" "xs ! i = y"
      and u: "\<forall>j<length xs. P (xs ! j) \<longrightarrow> j = i"
      by blast
    have "\<forall>j<length (x # xs). P ((x # xs) ! j) \<longrightarrow> j = Suc i"
    proof (intro allI impI)
      fix j assume "j < length (x # xs)" and "P ((x # xs) ! j)"
      with False u show "j = Suc i"
        by (cases j) auto
    qed
    with i show ?thesis
      by (intro exI [of _ "Suc i"]) simp
  qed
qed

subsection \<open>Means and groups\<close>


lemma fle_unit_iff:
  "fle (Fin 0) v \<and> fle v (Fin 1) \<longleftrightarrow> (\<exists>x. v = Fin x \<and> 0 \<le> x \<and> x \<le> 1)"
  by (cases v) auto

lemma distinct_group_keys: "distinct (group_keys rows)"
  by (simp add: group_keys_def)

lemma set_group_keys: "set (group_keys rows) = iter ` set rows"
  by (simp add: group_keys_def)

lemma block_row_index:
  assumes "search_df phis fault_df df = Inr rows" "i < length df" "pt < length fault_df"
  shows "i * length fault_df + pt < length rows"
    and "rows ! (i * length fault_df + pt) = block_row phis fault_df df i pt"
proof -
  have "i * length fault_df + pt < Suc i * length fault_df"
    using assms(3) by simp
  also have "\<dots> \<le> length df * length fault_df"
    using assms(2) by (intro mult_le_mono1) simp
  finally have lt: "i * length fault_df + pt < length df * length fault_df" .
  then show "i * length fault_df + pt < length rows"
    using assms(1) by (simp add: search_df_length)
  from assms(3) have "length fault_df \<noteq> 0"
    by (cases fault_df) simp_all
  then have "(pt + i * length fault_df) div length fault_df = i + pt div length fault_df"
    by (rule div_mult_self1)
  with assms(3) have "(i * length fault_df + pt) div length fault_df = i"
    by (simp add: add.commute)
  with lt show "rows ! (i * length fault_df + pt) = block_row phis fault_df df i pt"
    using assms by (simp add: search_df_nth search_df_length)
qed

lemma set_iter_rows:
  assumes s: "search_df phis fault_df df = Inr rows"
  shows "iter ` set rows = p_index ` set df"
proof (intro set_eqI iffI)
  fix k assume "k \<in> iter ` set rows"
  then obtain j where j: "j < length rows" and k: "k = iter (rows ! j)"
    by (auto simp: in_set_conv_nth)
  from j have "j < length df * length fault_df"
    using s by (simp add: search_df_length)
  then have "j div length fault_df < length df"
    by (simp add: less_mult_imp_div_less)
  moreover have "k = p_index (df ! (j div length fault_df))"
    using k j by (simp add: search_df_nth [OF s])
  ultimately show "k \<in> p_index ` set df"
    using nth_mem by blast
next
  fix k assume "k \<in> p_index ` set df"
  then obtain i where i: "i < length df" and k: "k = p_index (df ! i)"
    by (auto simp: in_set_conv_nth)
  from search_df_nonempty [OF s] have n: "0 < length fault_df"
    by simp
  from block_row_index [OF s i n] k
  have "i * length fault_df + 0 < length rows" and "iter (rows ! (i * length fault_df + 0)) = k"
    by simp_all
  then show "k \<in> iter ` set rows"
    using nth_mem by blast
qed

lemma map_of_keyed:
  "map_of (map (\<lambda>k. (k, F k)) ks) k = (if k \<in> set ks then Some (F k) else None)"
  by (induction ks) auto

lemma map_of_mu_iter:
  "map_of (mu_iter m fault_df rows) k =
     (if k \<in> iter ` set rows
      then Some (fdiv (group_mean (weighted_tau_misfit m fault_df) rows k)
                      (group_mean (\<lambda>r. Fin (sig_n_eff m r)) rows k))
      else None)"
  unfolding mu_iter_def by (simp add: map_of_keyed set_group_keys)



text \<open>The group of a label that no other iteration carries, and its means.\<close>

lemma group_mean_block:
  assumes s: "search_df phis fault_df df = Inr rows"
    and i: "i < length df"
    and u: "\<forall>j<length df. p_index (df ! j) = p_index (df ! i) \<longrightarrow> j = i"
  shows "group_mean col rows (p_index (df ! i)) =
           pd_mean (map (\<lambda>pt. col (rows ! (i * length fault_df + pt))) [0..<length fault_df])"
proof -
  have "map col (map (block_row phis fault_df df i) [0..<length fault_df]) =
      map (\<lambda>pt. col (rows ! (i * length fault_df + pt))) [0..<length fault_df]"
    by (simp add: block_row_index(2) [OF s i])
  then show ?thesis
    unfolding group_mean_def group_rows_block [OF s i u] by (simp only:)
qed

lemma group_mean_prior_column:
  assumes s: "search_df phis fault_df df = Inr rows"
    and i: "i < length df"
    and u: "\<forall>j<length df. p_index (df ! j) = p_index (df ! i) \<longrightarrow> j = i"
    and c: "\<And>pt. c (block_row phis fault_df df i pt) = a"
  shows "group_mean (\<lambda>r. Fin (c r)) rows (p_index (df ! i)) =
           pd_mean (replicate (length fault_df) (Fin a))"
proof -
  have "map (\<lambda>r. Fin (c r)) (map (block_row phis fault_df df i) [0..<length fault_df]) =
      replicate (length fault_df) (Fin a)"
    by (intro nth_equalityI) (simp_all add: c)
  then show ?thesis
    unfolding group_mean_def group_rows_block [OF s i u] by (simp only:)
qed

subsection \<open>The example inputs, evaluated\<close>

lemmas fail_defs =
  fail_posteriors_def phi_draw_def n_draws_def search_df_def index_list_def df_reps_def
  fill_row_def scale_units_def mu_real_def mu_iter_def group_keys_def group_mean_def
  group_rows_def pd_mean_def weighted_tau_misfit_def mean_slip_def tau_mag_def tau_s_def
  tau_d_def sig_n_eff_def args_of_def loc_likelihood_def enumerate_eq_zip rho_def g_def

lemmas ex_defs =
  ex_fault_def ex_priors_def ex_draws_def ex_phis_def ex_scv_def ex_scv_neg_def
  ex_scv_txy_neg_def

lemma sqrt_100: "sqrt 100 = 10"
  by (rule real_sqrt_unique) simp_all

lemma sqrt_40000: "sqrt 40000 = 200"
  by (rule real_sqrt_unique) simp_all

lemma sqrt_25: "sqrt 25 = 5"
  by (rule real_sqrt_unique) simp_all

lemma sqrt_900: "sqrt 900 = 30"
  by (rule real_sqrt_unique) simp_all

lemma ex_phi_priors: "phi_priors ex_draws (map p_index ex_priors) = Inr ex_phis"
  by (simp add: ex_defs phi_draw_def n_draws_def)

lemma ex_search_df: "search_df ex_phis ex_fault ex_priors = Inr ex_rows"
  unfolding ex_rows_def by (simp add: ex_defs fail_defs)

lemma ex_rows_eq:
  "ex_rows =
     [block_row ex_phis ex_fault ex_priors 0 0, block_row ex_phis ex_fault ex_priors 0 1,
      block_row ex_phis ex_fault ex_priors 1 0, block_row ex_phis ex_fault ex_priors 1 1]"
  unfolding ex_rows_def by (simp add: ex_defs fail_defs block_row_def)

subsection \<open>The posterior table\<close>


lemma concat_columns_Inr:
  "concat_columns rows df kvs = Inr post \<Longrightarrow>
     post = map (\<lambda>(k, v).
               \<lparr> post_index = k,
                 post_txx = group_mean (\<lambda>r. Fin (txx r)) rows k,
                 post_tyy = group_mean (\<lambda>r. Fin (tyy r)) rows k,
                 post_txy = group_mean (\<lambda>r. Fin (txy r)) rows k,
                 post_mu = v,
                 post_phi = group_mean (\<lambda>r. Fin (phi r)) rows k,
                 post_likelihood = hd (loc_likelihood df k) \<rparr>) kvs"
proof (induction kvs arbitrary: post)
  case Nil
  then show ?case by simp
next
  case (Cons kv kvs)
  obtain k v where kv: "kv = (k, v)"
    by (cases kv)
  from Cons.prems obtain l ps where l: "loc_likelihood df k = [l]"
    and ps: "concat_columns rows df kvs = Inr ps"
    and post: "post = \<lparr> post_index = k,
                 post_txx = group_mean (\<lambda>r. Fin (txx r)) rows k,
                 post_tyy = group_mean (\<lambda>r. Fin (tyy r)) rows k,
                 post_txy = group_mean (\<lambda>r. Fin (txy r)) rows k,
                 post_mu = v,
                 post_phi = group_mean (\<lambda>r. Fin (phi r)) rows k,
                 post_likelihood = l \<rparr> # ps"
    unfolding kv by (auto split: list.splits sum.splits)
  from Cons.IH [OF ps] post l show ?case
    unfolding kv by simp
qed

lemma concat_columns_succeeds:
  "(\<forall>kv\<in>set kvs. \<exists>l. loc_likelihood df (fst kv) = [l]) \<Longrightarrow>
     \<exists>post. concat_columns rows df kvs = Inr post"
proof (induction kvs)
  case Nil
  then show ?case by simp
next
  case (Cons kv kvs)
  obtain k v where kv: "kv = (k, v)"
    by (cases kv)
  from Cons.prems obtain l where l: "loc_likelihood df k = [l]"
    unfolding kv by auto
  from Cons obtain ps where "concat_columns rows df kvs = Inr ps"
    by auto
  with l show ?case
    unfolding kv by simp
qed

lemma filter_distinct_key:
  "distinct (map f xs) \<Longrightarrow> i < length xs \<Longrightarrow> filter (\<lambda>x. f x = f (xs ! i)) xs = [xs ! i]"
proof (induction xs arbitrary: i)
  case Nil
  then show ?case by simp
next
  case (Cons x xs)
  show ?case
  proof (cases i)
    case 0
    have "filter (\<lambda>y. f y = f x) xs = []"
      using Cons.prems(1) by (auto simp: filter_empty_conv image_iff)
    with 0 show ?thesis by simp
  next
    case (Suc j)
    with Cons.prems have j: "j < length xs" and d: "distinct (map f xs)"
      by simp_all
    have "f x \<noteq> f (xs ! j)"
      using Cons.prems(1) j by auto
    with Cons.IH [OF d j] Suc show ?thesis by simp
  qed
qed

lemma loc_likelihood_distinct:
  assumes "distinct (map p_index df)" and "i < length df"
  shows "loc_likelihood df (p_index (df ! i)) = [p_likelihood (df ! i)]"
  unfolding loc_likelihood_def using filter_distinct_key [OF assms] by simp

lemma keys_mu_real:
  "fst ` set (mu_real (mu_iter m fault_df rows)) \<subseteq> iter ` set rows"
  by (auto simp: mu_real_def mu_iter_def set_group_keys)

lemma distinct_keys_mu_iter: "distinct (map fst (mu_iter m fault_df rows))"
  by (simp add: mu_iter_def o_def distinct_group_keys)

lemma distinct_keys_mu_real: "distinct (map fst (mu_real (mu_iter m fault_df rows)))"
  unfolding mu_real_def by (rule distinct_map_filter) (rule distinct_keys_mu_iter)

lemma fail_posteriors_unfold:
  assumes "phi_priors draws (map p_index df) = Inr phis"
    and "search_df phis fault_df df = Inr rows"
  shows "fail_posteriors m draws fault_df df =
           concat_columns rows df (mu_real (mu_iter m fault_df rows))"
  using assms by (simp add: fail_posteriors_def)

lemma concat_columns_single:
  "concat_columns rows df kvs = Inr post \<Longrightarrow>
     \<forall>kv\<in>set kvs. \<exists>l. loc_likelihood df (fst kv) = [l]"
proof (induction kvs arbitrary: post)
  case Nil
  then show ?case by simp
next
  case (Cons kv kvs)
  obtain k v where kv: "kv = (k, v)"
    by (cases kv)
  from Cons.prems obtain l ps where l: "loc_likelihood df k = [l]"
    and ps: "concat_columns rows df kvs = Inr ps"
    unfolding kv by (auto split: list.splits sum.splits)
  from Cons.IH [OF ps] l show ?case
    unfolding kv by simp
qed

lemma fail_posteriors_succeeds_single:
  assumes p: "phi_priors draws (map p_index df) = Inr phis"
    and s: "search_df phis fault_df df = Inr rows"
    and one: "\<forall>kv\<in>set (mu_real (mu_iter m fault_df rows)).
                length (filter (\<lambda>r. p_index r = fst kv) df) = 1"
  shows "\<exists>post. fail_posteriors m draws fault_df df = Inr post"
proof -
  have "\<forall>kv\<in>set (mu_real (mu_iter m fault_df rows)). \<exists>l. loc_likelihood df (fst kv) = [l]"
  proof
    fix kv assume "kv \<in> set (mu_real (mu_iter m fault_df rows))"
    with one have "length (loc_likelihood df (fst kv)) = 1"
      by (simp add: loc_likelihood_def)
    then show "\<exists>l. loc_likelihood df (fst kv) = [l]"
      by (cases "loc_likelihood df (fst kv)") simp_all
  qed
  from concat_columns_succeeds [OF this] show ?thesis
    unfolding fail_posteriors_unfold [OF p s] .
qed

lemma fail_posteriors_succeeds:
  assumes p: "phi_priors draws (map p_index df) = Inr phis"
    and s: "search_df phis fault_df df = Inr rows"
    and d: "distinct (map p_index df)"
  shows "\<exists>post. fail_posteriors m draws fault_df df = Inr post"
proof -
  have "\<forall>kv\<in>set (mu_real (mu_iter m fault_df rows)). \<exists>l. loc_likelihood df (fst kv) = [l]"
  proof
    fix kv assume "kv \<in> set (mu_real (mu_iter m fault_df rows))"
    then have "fst kv \<in> p_index ` set df"
      using keys_mu_real [of m fault_df rows] set_iter_rows [OF s] by auto
    then obtain i where "i < length df" and "fst kv = p_index (df ! i)"
      by (auto simp: in_set_conv_nth)
    then show "\<exists>l. loc_likelihood df (fst kv) = [l]"
      using loc_likelihood_distinct [OF d] by simp
  qed
  from concat_columns_succeeds [OF this] show ?thesis
    unfolding fail_posteriors_unfold [OF p s] .
qed

text \<open>
  The index and the \<open>mu\<close> column of the posterior table are the retained entries of
  \<open>mu_iter\<close>.
\<close>

lemma posterior_index_mu:
  assumes p: "phi_priors draws (map p_index df) = Inr phis"
    and s: "search_df phis fault_df df = Inr rows"
    and f: "fail_posteriors m draws fault_df df = Inr post"
  shows "map (\<lambda>q. (post_index q, post_mu q)) post = mu_real (mu_iter m fault_df rows)"
proof -
  from f have "concat_columns rows df (mu_real (mu_iter m fault_df rows)) = Inr post"
    by (simp add: fail_posteriors_unfold [OF p s])
  from concat_columns_Inr [OF this] show ?thesis
    by (simp add: o_def split_def)
qed

lemma posterior_keys:
  assumes p: "phi_priors draws (map p_index df) = Inr phis"
    and s: "search_df phis fault_df df = Inr rows"
    and f: "fail_posteriors m draws fault_df df = Inr post"
    and kv: "(k, v) \<in> set (mu_iter m fault_df rows)"
  shows "(\<exists>q\<in>set post. post_index q = k) \<longleftrightarrow> fle (Fin 0) v \<and> fle v (Fin 1)"
    and "\<forall>q\<in>set post. post_index q = k \<longrightarrow> post_mu q = v"
proof -
  let ?mu = "mu_iter m fault_df rows"
  note idx = posterior_index_mu [OF p s f]
  have uniq: "\<And>v'. (k, v') \<in> set ?mu \<Longrightarrow> v' = v"
    using kv distinct_keys_mu_iter [of m fault_df rows]
    by (meson eq_key_imp_eq_value)
  have mem: "\<And>q. q \<in> set post \<Longrightarrow> (post_index q, post_mu q) \<in> set (mu_real ?mu)"
    using idx by (metis (no_types, lifting) image_eqI set_map)
  show "(\<exists>q\<in>set post. post_index q = k) \<longleftrightarrow> fle (Fin 0) v \<and> fle v (Fin 1)"
  proof
    assume "\<exists>q\<in>set post. post_index q = k"
    then obtain q where q: "q \<in> set post" "post_index q = k" by blast
    from mem [OF q(1)] q(2) have in_real: "(k, post_mu q) \<in> set (mu_real ?mu)"
      by simp
    then have "(k, post_mu q) \<in> set ?mu" and "fle (Fin 0) (post_mu q) \<and> fle (post_mu q) (Fin 1)"
      by (auto simp: mu_real_def)
    with uniq show "fle (Fin 0) v \<and> fle v (Fin 1)"
      by auto
  next
    assume "fle (Fin 0) v \<and> fle v (Fin 1)"
    with kv have "(k, v) \<in> set (mu_real ?mu)"
      by (simp add: mu_real_def)
    then have "(k, v) \<in> set (map (\<lambda>q. (post_index q, post_mu q)) post)"
      by (simp only: idx)
    then show "\<exists>q\<in>set post. post_index q = k"
      by auto
  qed
  show "\<forall>q\<in>set post. post_index q = k \<longrightarrow> post_mu q = v"
  proof (intro ballI impI)
    fix q assume q: "q \<in> set post" "post_index q = k"
    from mem [OF q(1)] q(2) have "(k, post_mu q) \<in> set ?mu"
      by (auto simp: mu_real_def)
    then show "post_mu q = v" by (rule uniq)
  qed
qed

text \<open>The friction coefficients of the example: the doubles nearest to 8/3 and 2/15.\<close>

lemma ex_mu_iter:
  "mu_iter ex_scv ex_fault ex_rows =
     [(3, Fin (6004799503160661 / 2251799813685248)),
      (7, Fin (4803839602528529 / 36028797018963968))]"
  by (simp add: ex_rows_eq block_row_def ex_defs fail_defs sqrt_100 sqrt_40000)

lemma ex_mu_real:
  "mu_real (mu_iter ex_scv ex_fault ex_rows) = [(7, Fin (4803839602528529 / 36028797018963968))]"
  unfolding ex_mu_iter by (simp add: mu_real_def)

lemma phi_priors_Inr:
  "phi_priors draws idxs = Inr phis \<Longrightarrow>
     length phis = length idxs \<and> (\<forall>j<length idxs. phi_draw draws (idxs ! j) = Inr (phis ! j))"
proof (induction idxs arbitrary: phis)
  case Nil
  then show ?case by simp
next
  case (Cons i idxs)
  from Cons.prems obtain v vs where v: "phi_draw draws i = Inr v"
    and vs: "phi_priors draws idxs = Inr vs" and phis: "phis = v # vs"
    by (auto split: sum.splits)
  from Cons.IH [OF vs] v show ?case
    unfolding phis by (auto simp: nth_Cons split: nat.splits)
qed

subsection \<open>Signs of the group means\<close>

lemma slip_m_rows:
  assumes s: "search_df phis fault_df df = Inr rows" and r: "r \<in> set rows"
  shows "\<exists>f\<in>set fault_df. slip_m r = f_slip_m f"
proof -
  from r obtain j where j: "j < length rows" and rj: "r = rows ! j"
    by (auto simp: in_set_conv_nth)
  from search_df_nonempty [OF s] have "j mod length fault_df < length fault_df"
    by simp
  then have "fault_df ! (j mod length fault_df) \<in> set fault_df"
    by simp
  moreover have "slip_m r = f_slip_m (fault_df ! (j mod length fault_df))"
    unfolding rj using j
    by (simp add: search_df_nth [OF s] block_row_def fill_row_def scale_units_def)
  ultimately show ?thesis by blast
qed

lemma tau_mag_nonneg: "nonneg_val (tau_mag m r)"
  unfolding tau_mag_def by (intro fsqrt_nonneg fadd_nonneg) simp_all

lemma mean_slip_nonneg:
  assumes "\<forall>f\<in>set fault_df. 0 \<le> f_slip_m f"
  shows "nonneg_val (mean_slip fault_df)"
  unfolding mean_slip_def using assms by (intro pd_mean_nonneg) simp

lemma weighted_tau_misfit_nonneg:
  assumes "\<forall>f\<in>set fault_df. 0 \<le> f_slip_m f" and "0 \<le> slip_m r"
  shows "nonneg_val (weighted_tau_misfit m fault_df r)"
  unfolding weighted_tau_misfit_def
  using assms by (intro fdiv_nonneg fmul_nonneg tau_mag_nonneg mean_slip_nonneg) simp_all

text \<open>
  With a negative effective normal stress in every row and no negative slip, a friction
  coefficient that passes the filter is zero.
\<close>

lemma mu_retained_zero:
  assumes s: "search_df phis fault_df df = Inr rows"
    and neg: "\<forall>r\<in>set rows. sig_n_eff m r < 0"
    and slips: "\<forall>f\<in>set fault_df. 0 \<le> f_slip_m f"
    and kv: "(k, v) \<in> set (mu_iter m fault_df rows)"
    and unit: "fle (Fin 0) v" "fle v (Fin 1)"
  shows "v = Fin 0"
proof -
  let ?G = "group_rows rows k"
  have sub: "set ?G \<subseteq> set rows"
    by (auto simp: group_rows_def)
  from kv have v: "v = fdiv (group_mean (weighted_tau_misfit m fault_df) rows k)
                           (group_mean (\<lambda>r. Fin (sig_n_eff m r)) rows k)"
    by (auto simp: mu_iter_def)
  have "\<forall>x\<in>set (map (weighted_tau_misfit m fault_df) ?G). nonneg_val x"
  proof
    fix x assume "x \<in> set (map (weighted_tau_misfit m fault_df) ?G)"
    then obtain r where r: "r \<in> set rows" and x: "x = weighted_tau_misfit m fault_df r"
      using sub by auto
    from slip_m_rows [OF s r] slips have "0 \<le> slip_m r"
      by auto
    with slips show "nonneg_val x"
      unfolding x by (rule weighted_tau_misfit_nonneg)
  qed
  then have w: "nonneg_val (group_mean (weighted_tau_misfit m fault_df) rows k)"
    unfolding group_mean_def by (rule pd_mean_nonneg)
  have "\<forall>x\<in>set (map (\<lambda>r. Fin (sig_n_eff m r)) ?G). nonpos_val x"
    using neg sub by (auto simp: less_imp_le)
  then have g: "nonpos_val (group_mean (\<lambda>r. Fin (sig_n_eff m r)) rows k)"
    unfolding group_mean_def by (rule pd_mean_nonpos)
  from w g unit show ?thesis
    unfolding v by (rule fdiv_nonneg_nonpos)
qed

text \<open>
  A shear stress of \<open>1e-200\<close> has a square below the smallest double: the shear
  magnitude is computed as zero.
\<close>

lemma tau_mag_underflow:
  assumes "tau_s m r = 1 / 10 ^ 200" and "tau_d m r = 0"
  shows "tau_mag m r = Fin 0"
proof -
  have "r64 (1 / 10 ^ 200 * (1 / 10 ^ 200)) = Fin 0"
    by (rule r64_underflow) (simp add: powr_minus)
  then show ?thesis
    by (simp add: tau_mag_def assms)
qed

subsection \<open>Reading the draws\<close>


lemma phi_draw_in_range:
  "- 10000 \<le> i \<Longrightarrow> i < 10000 \<Longrightarrow> phi_draw draws i = Inr (draws (nat (i mod 10000)))"
proof -
  assume lo: "- 10000 \<le> i" and hi: "i < 10000"
  show ?thesis
  proof (cases "0 \<le> i")
    case True
    with hi show ?thesis
      by (simp add: phi_draw_def n_draws_def)
  next
    case False
    then have neg: "i < 0" by simp
    with lo have "0 \<le> i + 10000" and "i + 10000 < 10000"
      by simp_all
    then have "(i + 10000) mod 10000 = i + 10000"
      by (rule mod_pos_pos_trivial)
    then have "i mod 10000 = i + 10000"
      by simp
    with lo neg show ?thesis
      by (simp add: phi_draw_def n_draws_def)
  qed
qed

lemma phi_draw_out_of_range:
  "i < - 10000 \<or> 10000 \<le> i \<Longrightarrow> phi_draw draws i = Inl IndexError"
  by (auto simp: phi_draw_def n_draws_def)

lemma phi_priors_Inl:
  "phi_priors draws idxs = Inl e \<Longrightarrow> e = IndexError"
proof (induction idxs)
  case Nil
  then show ?case by simp
next
  case (Cons i idxs)
  then show ?case
    by (auto simp: phi_draw_def split: sum.splits if_splits)
qed

lemma phi_priors_defined_iff:
  "(\<exists>phis. phi_priors draws idxs = Inr phis) \<longleftrightarrow> (\<forall>i\<in>set idxs. - 10000 \<le> i \<and> i < 10000)"
proof (induction idxs)
  case Nil
  then show ?case by simp
next
  case (Cons i idxs)
  show ?case
  proof (cases "- 10000 \<le> i \<and> i < 10000")
    case True
    then have "phi_draw draws i = Inr (draws (nat (i mod 10000)))"
      by (simp add: phi_draw_in_range)
    with True Cons.IH show ?thesis
      by (auto split: sum.splits)
  next
    case False
    then have "phi_draw draws i = Inl IndexError"
      by (intro phi_draw_out_of_range) auto
    with False show ?thesis
      by auto
  qed
qed

section \<open>The claims on the failure analysis\<close>

text \<open>
  Claim C1, amended.  For every iteration of the prior table whose index label no other
  iteration carries, the friction coefficient estimate \<open>mu_iter\<close> under that label is
  the mean, over the fault points of the iteration, of \<open>tau_mag * slip / mean(slip)\<close>,
  with \<open>tau_mag = sqrt (tau_s\<^sup>2 + tau_d\<^sup>2)\<close> and \<open>mean(slip)\<close> the mean slip of the
  fault model, divided by the mean, over the same fault points, of the effective normal
  stress.  Row \<open>i * n_points + pt\<close> of the table is the sample of iteration position
  \<open>i\<close> and fault point \<open>pt\<close>.  The products, the sum, the square root, the means and
  the quotients are those of the notebook, in double precision.
\<close>

theorem mu_iter_ratio_of_means:
  assumes s: "search_df phis fault_df df = Inr rows"
    and i: "i < length df"
    and u: "\<forall>j<length df. p_index (df ! j) = p_index (df ! i) \<longrightarrow> j = i"
  shows "map_of (mu_iter m fault_df rows) (p_index (df ! i)) =
     Some (fdiv
       (pd_mean (map (\<lambda>pt. fdiv
            (fmul
               (fsqrt (fadd
                  (fmul (Fin (tau_s m (rows ! (i * length fault_df + pt))))
                        (Fin (tau_s m (rows ! (i * length fault_df + pt)))))
                  (fmul (Fin (tau_d m (rows ! (i * length fault_df + pt))))
                        (Fin (tau_d m (rows ! (i * length fault_df + pt)))))))
               (Fin (f_slip_m (fault_df ! pt))))
            (pd_mean (map (\<lambda>f. Fin (f_slip_m f)) fault_df)))
          [0..<length fault_df]))
       (pd_mean (map (\<lambda>pt. Fin (sig_n_eff m (rows ! (i * length fault_df + pt))))
          [0..<length fault_df])))"
proof -
  let ?n = "length fault_df"
  let ?k = "p_index (df ! i)"
  have mem: "?k \<in> iter ` set rows"
    using i by (simp add: set_iter_rows [OF s])
  have slip: "\<And>pt. pt < ?n \<Longrightarrow> slip_m (rows ! (i * ?n + pt)) = f_slip_m (fault_df ! pt)"
    by (simp add: block_row_index(2) [OF s i] block_row_def fill_row_def scale_units_def)
  have w: "group_mean (weighted_tau_misfit m fault_df) rows ?k =
      pd_mean (map (\<lambda>pt. fdiv
            (fmul
               (fsqrt (fadd
                  (fmul (Fin (tau_s m (rows ! (i * ?n + pt)))) (Fin (tau_s m (rows ! (i * ?n + pt)))))
                  (fmul (Fin (tau_d m (rows ! (i * ?n + pt)))) (Fin (tau_d m (rows ! (i * ?n + pt)))))))
               (Fin (f_slip_m (fault_df ! pt))))
            (pd_mean (map (\<lambda>f. Fin (f_slip_m f)) fault_df)))
          [0..<?n])"
    unfolding group_mean_block [OF s i u]
    by (intro arg_cong [where f = pd_mean] map_cong)
       (simp_all add: weighted_tau_misfit_def tau_mag_def mean_slip_def slip)
  have "map_of (mu_iter m fault_df rows) ?k =
      Some (fdiv (group_mean (weighted_tau_misfit m fault_df) rows ?k)
                 (group_mean (\<lambda>r. Fin (sig_n_eff m r)) rows ?k))"
    using mem by (simp add: map_of_mu_iter)
  then show ?thesis
    unfolding w by (simp only: group_mean_block [OF s i u])
qed

theorem mu_iter_ratio_of_means_witness:
  "search_df ex_phis ex_fault ex_priors = Inr ex_rows
   \<and> (0::nat) < length ex_priors
   \<and> map p_index ex_priors = [7, 3]
   \<and> map_of (mu_iter ex_scv ex_fault ex_rows) (p_index (ex_priors ! 0)) =
       Some (Fin (4803839602528529 / 36028797018963968))"
proof -
  have i: "(0::nat) < length ex_priors"
    by (simp add: ex_defs)
  have l: "map p_index ex_priors = [7, 3]"
    by (simp add: ex_defs)
  have u: "\<forall>j<length ex_priors. p_index (ex_priors ! j) = p_index (ex_priors ! 0) \<longrightarrow> j = 0"
    by (simp add: ex_priors_def less_Suc_eq numeral_2_eq_2)
  have n: "length ex_fault = 2"
    by (simp add: ex_fault_def)
  have t: "[0..<2] = [0, 1]"
    by (simp add: upt_rec)
  from mu_iter_ratio_of_means [OF ex_search_df i u, of ex_scv]
  have "map_of (mu_iter ex_scv ex_fault ex_rows) (p_index (ex_priors ! 0)) =
       Some (Fin (4803839602528529 / 36028797018963968))"
    unfolding n t
    by (simp add: ex_rows_eq block_row_def fill_row_def scale_units_def sig_n_eff_def
        tau_s_def tau_d_def args_of_def ex_scv_def ex_fault_def ex_priors_def ex_phis_def
        pd_mean_def sqrt_100)
  with ex_search_df i l show ?thesis
    by (intro conjI)
qed

text \<open>
  Claim C1 as stated fails for a prior table in which two iterations carry the same index
  label 7: the \<open>groupby\<close> merges their rows, and the friction coefficient under the
  label is the quotient of the means over all four rows (the double nearest to 7/5), which
  is the value of neither iteration (the doubles nearest to 2/15 and to 8/3).
\<close>

theorem duplicate_label_counterexample:
  "map p_index ex_priors_dup = [7, 7]
   \<and> phi_priors ex_draws (map p_index ex_priors_dup) = Inr [7 / 10000, 7 / 10000]
   \<and> search_df [7 / 10000, 7 / 10000] ex_fault ex_priors_dup = Inr ex_rows_dup
   \<and> length ex_rows_dup = 4
   \<and> mu_iter ex_scv ex_fault ex_rows_dup = [(7, Fin (3152519739159347 / 2251799813685248))]
   \<and> fdiv (pd_mean [weighted_tau_misfit ex_scv ex_fault (ex_rows_dup ! 0),
                     weighted_tau_misfit ex_scv ex_fault (ex_rows_dup ! 1)])
          (pd_mean [Fin (sig_n_eff ex_scv (ex_rows_dup ! 0)),
                     Fin (sig_n_eff ex_scv (ex_rows_dup ! 1))]) =
       Fin (4803839602528529 / 36028797018963968)
   \<and> fdiv (pd_mean [weighted_tau_misfit ex_scv ex_fault (ex_rows_dup ! 2),
                     weighted_tau_misfit ex_scv ex_fault (ex_rows_dup ! 3)])
          (pd_mean [Fin (sig_n_eff ex_scv (ex_rows_dup ! 2)),
                     Fin (sig_n_eff ex_scv (ex_rows_dup ! 3))]) =
       Fin (6004799503160661 / 2251799813685248)"
proof -
  have l: "map p_index ex_priors_dup = [7, 7]"
    by (simp add: ex_priors_dup_def)
  have p: "phi_priors ex_draws (map p_index ex_priors_dup) = Inr [7 / 10000, 7 / 10000]"
    by (simp add: ex_priors_dup_def ex_draws_def phi_draw_def n_draws_def)
  have s: "search_df [7 / 10000, 7 / 10000] ex_fault ex_priors_dup = Inr ex_rows_dup"
    unfolding ex_rows_dup_def by (simp add: ex_priors_dup_def ex_fault_def fail_defs)
  have rows: "ex_rows_dup =
     [block_row [7 / 10000, 7 / 10000] ex_fault ex_priors_dup 0 0,
      block_row [7 / 10000, 7 / 10000] ex_fault ex_priors_dup 0 1,
      block_row [7 / 10000, 7 / 10000] ex_fault ex_priors_dup 1 0,
      block_row [7 / 10000, 7 / 10000] ex_fault ex_priors_dup 1 1]"
    unfolding ex_rows_dup_def
    by (simp add: ex_priors_dup_def ex_fault_def fail_defs block_row_def)
  have len: "length ex_rows_dup = 4"
    by (simp add: rows)
  have mu: "mu_iter ex_scv ex_fault ex_rows_dup = [(7, Fin (3152519739159347 / 2251799813685248))]"
    by (simp add: rows block_row_def ex_priors_dup_def ex_defs fail_defs sqrt_100 sqrt_40000)
  have a: "fdiv (pd_mean [weighted_tau_misfit ex_scv ex_fault (ex_rows_dup ! 0),
                     weighted_tau_misfit ex_scv ex_fault (ex_rows_dup ! 1)])
          (pd_mean [Fin (sig_n_eff ex_scv (ex_rows_dup ! 0)),
                     Fin (sig_n_eff ex_scv (ex_rows_dup ! 1))]) =
       Fin (4803839602528529 / 36028797018963968)"
    by (simp add: rows block_row_def ex_priors_dup_def ex_defs fail_defs sqrt_100)
  have b: "fdiv (pd_mean [weighted_tau_misfit ex_scv ex_fault (ex_rows_dup ! 2),
                     weighted_tau_misfit ex_scv ex_fault (ex_rows_dup ! 3)])
          (pd_mean [Fin (sig_n_eff ex_scv (ex_rows_dup ! 2)),
                     Fin (sig_n_eff ex_scv (ex_rows_dup ! 3))]) =
       Fin (6004799503160661 / 2251799813685248)"
    by (simp add: rows block_row_def ex_priors_dup_def ex_defs fail_defs sqrt_40000)
  from l p s len mu a b show ?thesis
    by (intro conjI)
qed

text \<open>
  Claim C9.  The sample table is laid out iteration-major: row \<open>r\<close> belongs to the
  iteration at position \<open>r div n_points\<close> of the prior table and to fault point
  \<open>r mod n_points\<close>; its fault-point columns are those of that fault point (depth in m,
  stresses in Pa), so that rows of the same fault point carry the same fault-point
  columns in every iteration.
\<close>

theorem search_df_iteration_major:
  assumes s: "search_df phis fault_df df = Inr rows" and r: "r < length rows"
  shows "length rows = length df * length fault_df
     \<and> r div length fault_df < length df
     \<and> r mod length fault_df < length fault_df
     \<and> iter (rows ! r) = p_index (df ! (r div length fault_df))
     \<and> pt_index (rows ! r) = r mod length fault_df
     \<and> df_fill_cols (rows ! r) =
         [f_z (fault_df ! (r mod length fault_df)) * 1000,
          f_strike (fault_df ! (r mod length fault_df)),
          f_dip (fault_df ! (r mod length fault_df)),
          f_slip_m (fault_df ! (r mod length fault_df)),
          f_xx_stress (fault_df ! (r mod length fault_df)) * 1000000,
          f_yy_stress (fault_df ! (r mod length fault_df)) * 1000000,
          f_xy_stress (fault_df ! (r mod length fault_df)) * 1000000,
          f_zz_stress (fault_df ! (r mod length fault_df)) * 1000000,
          f_xz_stress (fault_df ! (r mod length fault_df)) * 1000000,
          f_yz_stress (fault_df ! (r mod length fault_df)) * 1000000]
     \<and> (\<forall>r'<length rows. r' mod length fault_df = r mod length fault_df
            \<longrightarrow> df_fill_cols (rows ! r') = df_fill_cols (rows ! r))"
proof -
  let ?n = "length fault_df"
  have len: "length rows = length df * ?n"
    by (rule search_df_length [OF s])
  from search_df_nonempty [OF s] have n: "0 < ?n"
    by simp
  from r len have q: "r div ?n < length df"
    by (simp add: less_mult_imp_div_less)
  from n have p: "r mod ?n < ?n"
    by simp
  have cols: "\<And>i pt. df_fill_cols (block_row phis fault_df df i pt) =
      [f_z (fault_df ! pt) * 1000, f_strike (fault_df ! pt), f_dip (fault_df ! pt),
       f_slip_m (fault_df ! pt),
       f_xx_stress (fault_df ! pt) * 1000000, f_yy_stress (fault_df ! pt) * 1000000,
       f_xy_stress (fault_df ! pt) * 1000000, f_zz_stress (fault_df ! pt) * 1000000,
       f_xz_stress (fault_df ! pt) * 1000000, f_yz_stress (fault_df ! pt) * 1000000]"
    by (simp add: df_fill_cols_def block_row_def fill_row_def scale_units_def)
  have it: "iter (rows ! r) = p_index (df ! (r div ?n))"
    using r by (simp add: search_df_nth [OF s])
  have pt: "pt_index (rows ! r) = r mod ?n"
    using r by (simp add: search_df_nth [OF s] block_row_def fill_row_def scale_units_def)
  have c: "df_fill_cols (rows ! r) =
      [f_z (fault_df ! (r mod ?n)) * 1000, f_strike (fault_df ! (r mod ?n)),
       f_dip (fault_df ! (r mod ?n)), f_slip_m (fault_df ! (r mod ?n)),
       f_xx_stress (fault_df ! (r mod ?n)) * 1000000, f_yy_stress (fault_df ! (r mod ?n)) * 1000000,
       f_xy_stress (fault_df ! (r mod ?n)) * 1000000, f_zz_stress (fault_df ! (r mod ?n)) * 1000000,
       f_xz_stress (fault_df ! (r mod ?n)) * 1000000, f_yz_stress (fault_df ! (r mod ?n)) * 1000000]"
    using r by (simp only: search_df_nth [OF s] cols)
  have same: "\<forall>r'<length rows. r' mod ?n = r mod ?n
      \<longrightarrow> df_fill_cols (rows ! r') = df_fill_cols (rows ! r)"
  proof (intro allI impI)
    fix r' assume r': "r' < length rows" and e: "r' mod ?n = r mod ?n"
    show "df_fill_cols (rows ! r') = df_fill_cols (rows ! r)"
      using r r' e by (simp only: search_df_nth [OF s] cols)
  qed
  from len q p it pt c same show ?thesis
    by (intro conjI)
qed

theorem search_df_iteration_major_witness:
  "search_df ex_phis ex_fault ex_priors = Inr ex_rows \<and> (3::nat) < length ex_rows
   \<and> length ex_rows = 4 \<and> iter (ex_rows ! 3) = 3 \<and> pt_index (ex_rows ! 3) = 1
   \<and> df_fill_cols (ex_rows ! 3) =
       [10000, 40, 70, 3, 7000000, 8000000, 9000000, 10000000, 11000000, 12000000]
   \<and> df_fill_cols (ex_rows ! 1) = df_fill_cols (ex_rows ! 3)"
proof -
  have r: "(3::nat) < length ex_rows"
    by (simp add: ex_rows_eq)
  have r1: "(1::nat) < length ex_rows"
    by (simp add: ex_rows_eq)
  have n: "length ex_fault = 2" "length ex_priors = 2"
    by (simp_all add: ex_defs)
  have m: "(3::nat) div 2 = 1" "(3::nat) mod 2 = 1" "(1::nat) mod 2 = 1"
    by simp_all
  from search_df_iteration_major [OF ex_search_df r] r1
  have "length ex_rows = 4 \<and> iter (ex_rows ! 3) = 3 \<and> pt_index (ex_rows ! 3) = 1
     \<and> df_fill_cols (ex_rows ! 3) =
       [10000, 40, 70, 3, 7000000, 8000000, 9000000, 10000000, 11000000, 12000000]
     \<and> df_fill_cols (ex_rows ! 1) = df_fill_cols (ex_rows ! 3)"
    unfolding n m by (simp add: ex_defs)
  with ex_search_df r show ?thesis
    by simp
qed

text \<open>
  Claim C2.  Whenever the posterior table is produced, an iteration label is in it if and
  only if its \<open>mu\<close> is a number with \<open>0 \<le> mu \<le> 1\<close> (the special values \<open>inf\<close>,
  \<open>-inf\<close> and \<open>nan\<close> of a zero divisor are outside), and the \<open>mu\<close> column of a
  retained label is the value of \<open>mu_iter\<close>, unchanged.  A value outside the interval
  is no fault: the table is produced as soon as every label with \<open>mu\<close> inside the
  interval occurs once among the labels of the prior table, whatever the other values of
  \<open>mu\<close> are.
\<close>

theorem failure_filter_retains_unit_interval:
  assumes p: "phi_priors draws (map p_index df) = Inr phis"
    and s: "search_df phis fault_df df = Inr rows"
  shows "(\<forall>post. fail_posteriors m draws fault_df df = Inr post \<longrightarrow>
            (\<forall>k v. (k, v) \<in> set (mu_iter m fault_df rows) \<longrightarrow>
               ((\<exists>q\<in>set post. post_index q = k) \<longleftrightarrow> (\<exists>x. v = Fin x \<and> 0 \<le> x \<and> x \<le> 1))
             \<and> (\<forall>q\<in>set post. post_index q = k \<longrightarrow> post_mu q = v)))
     \<and> ((\<forall>kv\<in>set (mu_iter m fault_df rows).
            (\<exists>x. snd kv = Fin x \<and> 0 \<le> x \<and> x \<le> 1) \<longrightarrow>
              length (filter (\<lambda>r. p_index r = fst kv) df) = 1)
          \<longrightarrow> (\<exists>post. fail_posteriors m draws fault_df df = Inr post))"
proof (intro conjI allI impI)
  fix post k v
  assume f: "fail_posteriors m draws fault_df df = Inr post"
    and kv: "(k, v) \<in> set (mu_iter m fault_df rows)"
  from posterior_keys(1) [OF p s f kv]
  show "(\<exists>q\<in>set post. post_index q = k) \<longleftrightarrow> (\<exists>x. v = Fin x \<and> 0 \<le> x \<and> x \<le> 1)"
    by (simp only: fle_unit_iff)
  from posterior_keys(2) [OF p s f kv]
  show "\<forall>q\<in>set post. post_index q = k \<longrightarrow> post_mu q = v" .
next
  assume one: "\<forall>kv\<in>set (mu_iter m fault_df rows).
            (\<exists>x. snd kv = Fin x \<and> 0 \<le> x \<and> x \<le> 1) \<longrightarrow>
              length (filter (\<lambda>r. p_index r = fst kv) df) = 1"
  have "\<forall>kv\<in>set (mu_real (mu_iter m fault_df rows)).
          length (filter (\<lambda>r. p_index r = fst kv) df) = 1"
  proof
    fix kv assume "kv \<in> set (mu_real (mu_iter m fault_df rows))"
    then have kv: "kv \<in> set (mu_iter m fault_df rows)"
      and "fle (Fin 0) (snd kv) \<and> fle (snd kv) (Fin 1)"
      by (auto simp: mu_real_def)
    then have "\<exists>x. snd kv = Fin x \<and> 0 \<le> x \<and> x \<le> 1"
      by (simp only: fle_unit_iff)
    with one kv show "length (filter (\<lambda>r. p_index r = fst kv) df) = 1"
      by blast
  qed
  then show "\<exists>post. fail_posteriors m draws fault_df df = Inr post"
    by (rule fail_posteriors_succeeds_single [OF p s])
qed

theorem failure_filter_retains_unit_interval_witness:
  "phi_priors ex_draws (map p_index ex_priors) = Inr ex_phis
   \<and> search_df ex_phis ex_fault ex_priors = Inr ex_rows
   \<and> mu_iter ex_scv ex_fault ex_rows =
       [(3, Fin (6004799503160661 / 2251799813685248)), (7, Fin (4803839602528529 / 36028797018963968))]
   \<and> length (filter (\<lambda>r. p_index r = 7) ex_priors) = 1
   \<and> (\<exists>post. fail_posteriors ex_scv ex_draws ex_fault ex_priors = Inr post
        \<and> (\<exists>q\<in>set post. post_index q = 7)
        \<and> \<not> (\<exists>q\<in>set post. post_index q = 3)
        \<and> (\<forall>q\<in>set post. post_index q = 7 \<longrightarrow>
              post_mu q = Fin (4803839602528529 / 36028797018963968)))"
proof -
  note th = failure_filter_retains_unit_interval [OF ex_phi_priors ex_search_df, of ex_scv]
  have once: "length (filter (\<lambda>r. p_index r = 7) ex_priors) = 1"
    by (simp add: ex_priors_def)
  have "\<forall>kv\<in>set (mu_iter ex_scv ex_fault ex_rows).
            (\<exists>x. snd kv = Fin x \<and> 0 \<le> x \<and> x \<le> 1) \<longrightarrow>
              length (filter (\<lambda>r. p_index r = fst kv) ex_priors) = 1"
    unfolding ex_mu_iter by (simp add: ex_priors_def)
  with th obtain post where f: "fail_posteriors ex_scv ex_draws ex_fault ex_priors = Inr post"
    by blast
  have k7: "(7, Fin (4803839602528529 / 36028797018963968)) \<in> set (mu_iter ex_scv ex_fault ex_rows)"
    and k3: "(3, Fin (6004799503160661 / 2251799813685248)) \<in> set (mu_iter ex_scv ex_fault ex_rows)"
    by (simp_all add: ex_mu_iter)
  from th f have all: "\<And>k v. (k, v) \<in> set (mu_iter ex_scv ex_fault ex_rows) \<Longrightarrow>
           ((\<exists>q\<in>set post. post_index q = k) \<longleftrightarrow> (\<exists>x. v = Fin x \<and> 0 \<le> x \<and> x \<le> 1))
         \<and> (\<forall>q\<in>set post. post_index q = k \<longrightarrow> post_mu q = v)"
    by blast
  have e7: "\<exists>x::real. Fin (4803839602528529 / 36028797018963968) = Fin x \<and> 0 \<le> x \<and> x \<le> 1"
    by (intro exI [of _ "4803839602528529 / 36028797018963968"]) simp
  have e3: "\<not> (\<exists>x::real. Fin (6004799503160661 / 2251799813685248) = Fin x \<and> 0 \<le> x \<and> x \<le> 1)"
    by auto
  from all [OF k7] e7 have a7: "\<exists>q\<in>set post. post_index q = 7"
    and m7: "\<forall>q\<in>set post. post_index q = 7 \<longrightarrow>
              post_mu q = Fin (4803839602528529 / 36028797018963968)"
    by blast+
  from all [OF k3] e3 have a3: "\<not> (\<exists>q\<in>set post. post_index q = 3)"
    by blast
  from f a7 a3 m7 have "\<exists>post. fail_posteriors ex_scv ex_draws ex_fault ex_priors = Inr post
        \<and> (\<exists>q\<in>set post. post_index q = 7)
        \<and> \<not> (\<exists>q\<in>set post. post_index q = 3)
        \<and> (\<forall>q\<in>set post. post_index q = 7 \<longrightarrow>
              post_mu q = Fin (4803839602528529 / 36028797018963968))"
    by blast
  with ex_phi_priors ex_search_df ex_mu_iter once show ?thesis
    by (intro conjI)
qed

text \<open>
  Claim C8, amended.  The posterior table has one row for each retained iteration label
  and no other row; a row has the columns \<open>txx\<close>, \<open>tyy\<close>, \<open>txy\<close>, \<open>mu\<close>,
  \<open>phi\<close>, \<open>likelihood\<close> (the fields of \<open>posterior\<close>, next to the index label).
  The label of a row is the label of exactly one iteration of the prior table; the
  \<open>txx\<close>, \<open>tyy\<close>, \<open>txy\<close> and \<open>phi\<close> of the row are the means, computed in double
  precision, of \<open>n_points\<close> copies of the prior sample value of that iteration (the
  rounded sum divided by \<open>n_points\<close>, which need not be the value itself), and its
  \<open>likelihood\<close> is the likelihood of the iteration in the prior table.
\<close>

theorem posterior_row_per_retained_iteration:
  assumes p: "phi_priors draws (map p_index df) = Inr phis"
    and s: "search_df phis fault_df df = Inr rows"
    and f: "fail_posteriors m draws fault_df df = Inr post"
  shows "map (\<lambda>q. (post_index q, post_mu q)) post = mu_real (mu_iter m fault_df rows)
     \<and> distinct (map post_index post)
     \<and> (\<forall>q\<in>set post. \<exists>i<length df.
           post_index q = p_index (df ! i)
         \<and> (\<forall>j<length df. p_index (df ! j) = p_index (df ! i) \<longrightarrow> j = i)
         \<and> post_txx q = pd_mean (replicate (length fault_df) (Fin (p_txx (df ! i))))
         \<and> post_tyy q = pd_mean (replicate (length fault_df) (Fin (p_tyy (df ! i))))
         \<and> post_txy q = pd_mean (replicate (length fault_df) (Fin (p_txy (df ! i))))
         \<and> phi_draw draws (p_index (df ! i)) = Inr (phis ! i)
         \<and> post_phi q = pd_mean (replicate (length fault_df) (Fin (phis ! i)))
         \<and> post_likelihood q = p_likelihood (df ! i))"
proof -
  let ?mu = "mu_real (mu_iter m fault_df rows)"
  from f have cc: "concat_columns rows df ?mu = Inr post"
    by (simp add: fail_posteriors_unfold [OF p s])
  note post = concat_columns_Inr [OF cc]
  note idx = posterior_index_mu [OF p s f]
  have keys: "map post_index post = map fst ?mu"
    unfolding post by (simp add: o_def split_def)
  have dist: "distinct (map post_index post)"
    unfolding keys by (rule distinct_keys_mu_real)
  have rows: "\<forall>q\<in>set post. \<exists>i<length df.
           post_index q = p_index (df ! i)
         \<and> (\<forall>j<length df. p_index (df ! j) = p_index (df ! i) \<longrightarrow> j = i)
         \<and> post_txx q = pd_mean (replicate (length fault_df) (Fin (p_txx (df ! i))))
         \<and> post_tyy q = pd_mean (replicate (length fault_df) (Fin (p_tyy (df ! i))))
         \<and> post_txy q = pd_mean (replicate (length fault_df) (Fin (p_txy (df ! i))))
         \<and> phi_draw draws (p_index (df ! i)) = Inr (phis ! i)
         \<and> post_phi q = pd_mean (replicate (length fault_df) (Fin (phis ! i)))
         \<and> post_likelihood q = p_likelihood (df ! i)"
  proof
    fix q assume q: "q \<in> set post"
    then obtain k v where kv: "(k, v) \<in> set ?mu" and q_eq: "q = \<lparr> post_index = k,
                 post_txx = group_mean (\<lambda>r. Fin (txx r)) rows k,
                 post_tyy = group_mean (\<lambda>r. Fin (tyy r)) rows k,
                 post_txy = group_mean (\<lambda>r. Fin (txy r)) rows k,
                 post_mu = v,
                 post_phi = group_mean (\<lambda>r. Fin (phi r)) rows k,
                 post_likelihood = hd (loc_likelihood df k) \<rparr>"
      unfolding post by auto
    from concat_columns_single [OF cc] kv obtain l where l: "loc_likelihood df k = [l]"
      by fastforce
    then obtain y where y: "filter (\<lambda>r. p_index r = k) df = [y]" and ly: "l = p_likelihood y"
      unfolding loc_likelihood_def by auto
    from filter_singleton_index [OF y] obtain i where i: "i < length df" and yi: "df ! i = y"
      and only: "\<forall>j<length df. p_index (df ! j) = k \<longrightarrow> j = i"
      by blast
    have "y \<in> set (filter (\<lambda>r. p_index r = k) df)"
      unfolding y by simp
    then have k: "k = p_index (df ! i)"
      unfolding yi by simp
    from only have u: "\<forall>j<length df. p_index (df ! j) = p_index (df ! i) \<longrightarrow> j = i"
      unfolding k .
    have cxx: "group_mean (\<lambda>r. Fin (txx r)) rows (p_index (df ! i)) =
        pd_mean (replicate (length fault_df) (Fin (p_txx (df ! i))))"
      by (rule group_mean_prior_column [OF s i u])
         (simp add: block_row_def fill_row_def scale_units_def)
    have cyy: "group_mean (\<lambda>r. Fin (tyy r)) rows (p_index (df ! i)) =
        pd_mean (replicate (length fault_df) (Fin (p_tyy (df ! i))))"
      by (rule group_mean_prior_column [OF s i u])
         (simp add: block_row_def fill_row_def scale_units_def)
    have cxy: "group_mean (\<lambda>r. Fin (txy r)) rows (p_index (df ! i)) =
        pd_mean (replicate (length fault_df) (Fin (p_txy (df ! i))))"
      by (rule group_mean_prior_column [OF s i u])
         (simp add: block_row_def fill_row_def scale_units_def)
    have cphi: "group_mean (\<lambda>r. Fin (phi r)) rows (p_index (df ! i)) =
        pd_mean (replicate (length fault_df) (Fin (phis ! i)))"
      by (rule group_mean_prior_column [OF s i u])
         (simp add: block_row_def fill_row_def scale_units_def)
    have dr: "phi_draw draws (p_index (df ! i)) = Inr (phis ! i)"
      using phi_priors_Inr [OF p] i by simp
    have lik: "hd (loc_likelihood df (p_index (df ! i))) = p_likelihood (df ! i)"
      using l ly yi by (simp add: k)
    show "\<exists>i<length df.
           post_index q = p_index (df ! i)
         \<and> (\<forall>j<length df. p_index (df ! j) = p_index (df ! i) \<longrightarrow> j = i)
         \<and> post_txx q = pd_mean (replicate (length fault_df) (Fin (p_txx (df ! i))))
         \<and> post_tyy q = pd_mean (replicate (length fault_df) (Fin (p_tyy (df ! i))))
         \<and> post_txy q = pd_mean (replicate (length fault_df) (Fin (p_txy (df ! i))))
         \<and> phi_draw draws (p_index (df ! i)) = Inr (phis ! i)
         \<and> post_phi q = pd_mean (replicate (length fault_df) (Fin (phis ! i)))
         \<and> post_likelihood q = p_likelihood (df ! i)"
      using i u cxx cyy cxy cphi dr lik unfolding q_eq k by (intro exI [of _ i]) simp
  qed
  from idx dist rows show ?thesis
    by (intro conjI)
qed

theorem posterior_row_per_retained_iteration_witness:
  "phi_priors ex_draws (map p_index ex_priors) = Inr ex_phis
   \<and> search_df ex_phis ex_fault ex_priors = Inr ex_rows
   \<and> map p_index ex_priors = [7, 3]
   \<and> (\<exists>q. fail_posteriors ex_scv ex_draws ex_fault ex_priors = Inr [q]
        \<and> post_index q = 7
        \<and> post_mu q = Fin (4803839602528529 / 36028797018963968)
        \<and> post_txx q = Fin 2 \<and> post_tyy q = Fin 1 \<and> post_txy q = Fin 0
        \<and> post_likelihood q = 1 / 2)"
proof -
  have d: "distinct (map p_index ex_priors)"
    by (simp add: ex_defs)
  have l: "map p_index ex_priors = [7, 3]"
    by (simp add: ex_defs)
  from fail_posteriors_succeeds [OF ex_phi_priors ex_search_df d, of ex_scv]
  obtain post where f: "fail_posteriors ex_scv ex_draws ex_fault ex_priors = Inr post" ..
  note th = posterior_row_per_retained_iteration [OF ex_phi_priors ex_search_df f]
  from th have idx: "map (\<lambda>q. (post_index q, post_mu q)) post =
      [(7, Fin (4803839602528529 / 36028797018963968))]"
    unfolding ex_mu_real by blast
  then obtain q where post: "post = [q]"
    by (cases post) auto
  from idx have q7: "post_index q = 7" and qm: "post_mu q = Fin (4803839602528529 / 36028797018963968)"
    unfolding post by simp_all
  from th obtain i where i: "i < length ex_priors"
    and k: "post_index q = p_index (ex_priors ! i)"
    and cxx: "post_txx q = pd_mean (replicate (length ex_fault) (Fin (p_txx (ex_priors ! i))))"
    and cyy: "post_tyy q = pd_mean (replicate (length ex_fault) (Fin (p_tyy (ex_priors ! i))))"
    and cxy: "post_txy q = pd_mean (replicate (length ex_fault) (Fin (p_txy (ex_priors ! i))))"
    and lik: "post_likelihood q = p_likelihood (ex_priors ! i)"
    unfolding post by auto
  from i k q7 have i0: "i = 0"
    by (auto simp: ex_priors_def less_Suc_eq numeral_2_eq_2)
  have vals: "post_txx q = Fin 2" "post_tyy q = Fin 1" "post_txy q = Fin 0"
      "post_likelihood q = 1 / 2"
    using cxx cyy cxy lik unfolding i0
    by (simp_all add: ex_priors_def ex_fault_def pd_mean_def numeral_2_eq_2)
  from f q7 qm vals have "\<exists>q. fail_posteriors ex_scv ex_draws ex_fault ex_priors = Inr [q]
        \<and> post_index q = 7
        \<and> post_mu q = Fin (4803839602528529 / 36028797018963968)
        \<and> post_txx q = Fin 2 \<and> post_tyy q = Fin 1 \<and> post_txy q = Fin 0
        \<and> post_likelihood q = 1 / 2"
    unfolding post by blast
  with ex_phi_priors ex_search_df l show ?thesis
    by (intro conjI)
qed

text \<open>
  Claim C8 as stated fails for a fault model of three points and a prior sample value
  \<open>txx\<close> of one tenth (the double \<open>0.1\<close>): the column \<open>txx\<close> is constant in the
  three rows of the iteration, its sum is rounded to \<open>0.30000000000000004\<close>, and the
  posterior row gets the mean \<open>0.10000000000000002\<close>, which is not the prior value.
\<close>

theorem posterior_mean_rounding_counterexample:
  "phi_priors ex_draws (map p_index ex_priors_tenth) = Inr [0, 1 / 10000]
   \<and> search_df [0, 1 / 10000] ex_fault_three ex_priors_tenth = Inr ex_rows_tenth
   \<and> map p_index ex_priors_tenth = [0, 1]
   \<and> map p_txx ex_priors_tenth = [3602879701896397 / 36028797018963968, 2]
   \<and> map txx ex_rows_tenth =
       [3602879701896397 / 36028797018963968, 3602879701896397 / 36028797018963968,
        3602879701896397 / 36028797018963968, 2, 2, 2]
   \<and> \<not> isl (fail_posteriors ex_scv_unit ex_draws ex_fault_three ex_priors_tenth)
   \<and> map post_index (projr (fail_posteriors ex_scv_unit ex_draws ex_fault_three ex_priors_tenth))
       = [0, 1]
   \<and> map post_txx (projr (fail_posteriors ex_scv_unit ex_draws ex_fault_three ex_priors_tenth))
       = [Fin (7205759403792795 / 72057594037927936), Fin 2]
   \<and> (7205759403792795 / 72057594037927936 :: real) \<noteq> 3602879701896397 / 36028797018963968"
proof -
  have l: "map p_index ex_priors_tenth = [0, 1]"
    by (simp add: ex_priors_tenth_def)
  have x: "map p_txx ex_priors_tenth = [3602879701896397 / 36028797018963968, 2]"
    by (simp add: ex_priors_tenth_def)
  have p: "phi_priors ex_draws (map p_index ex_priors_tenth) = Inr [0, 1 / 10000]"
    by (simp add: ex_priors_tenth_def ex_draws_def phi_draw_def n_draws_def)
  have s: "search_df [0, 1 / 10000] ex_fault_three ex_priors_tenth = Inr ex_rows_tenth"
    unfolding ex_rows_tenth_def by (simp add: ex_priors_tenth_def ex_fault_three_def fail_defs)
  have rows: "ex_rows_tenth =
     [block_row [0, 1 / 10000] ex_fault_three ex_priors_tenth 0 0,
      block_row [0, 1 / 10000] ex_fault_three ex_priors_tenth 0 1,
      block_row [0, 1 / 10000] ex_fault_three ex_priors_tenth 0 2,
      block_row [0, 1 / 10000] ex_fault_three ex_priors_tenth 1 0,
      block_row [0, 1 / 10000] ex_fault_three ex_priors_tenth 1 1,
      block_row [0, 1 / 10000] ex_fault_three ex_priors_tenth 1 2]"
    unfolding ex_rows_tenth_def
    by (simp add: ex_priors_tenth_def ex_fault_three_def fail_defs block_row_def)
  have c: "map txx ex_rows_tenth =
       [3602879701896397 / 36028797018963968, 3602879701896397 / 36028797018963968,
        3602879701896397 / 36028797018963968, 2, 2, 2]"
    by (simp add: rows block_row_def fill_row_def scale_units_def ex_priors_tenth_def)
  have mu: "mu_iter ex_scv_unit ex_fault_three ex_rows_tenth = [(0, Fin (5 / 8)), (1, Fin (5 / 8))]"
    by (simp add: rows block_row_def ex_priors_tenth_def ex_fault_three_def ex_scv_unit_def
        fail_defs sqrt_25)
  have f: "fail_posteriors ex_scv_unit ex_draws ex_fault_three ex_priors_tenth =
      Inr [\<lparr> post_index = 0,
             post_txx = group_mean (\<lambda>r. Fin (txx r)) ex_rows_tenth 0,
             post_tyy = group_mean (\<lambda>r. Fin (tyy r)) ex_rows_tenth 0,
             post_txy = group_mean (\<lambda>r. Fin (txy r)) ex_rows_tenth 0,
             post_mu = Fin (5 / 8),
             post_phi = group_mean (\<lambda>r. Fin (phi r)) ex_rows_tenth 0,
             post_likelihood = 1 / 2 \<rparr>,
           \<lparr> post_index = 1,
             post_txx = group_mean (\<lambda>r. Fin (txx r)) ex_rows_tenth 1,
             post_tyy = group_mean (\<lambda>r. Fin (tyy r)) ex_rows_tenth 1,
             post_txy = group_mean (\<lambda>r. Fin (txy r)) ex_rows_tenth 1,
             post_mu = Fin (5 / 8),
             post_phi = group_mean (\<lambda>r. Fin (phi r)) ex_rows_tenth 1,
             post_likelihood = 1 / 4 \<rparr>]"
    unfolding fail_posteriors_unfold [OF p s] mu
    by (simp add: mu_real_def loc_likelihood_def ex_priors_tenth_def)
  have g0: "group_mean (\<lambda>r. Fin (txx r)) ex_rows_tenth 0 =
      Fin (7205759403792795 / 72057594037927936)"
    by (simp add: group_mean_def group_rows_def pd_mean_def rows block_row_def fill_row_def
        scale_units_def ex_priors_tenth_def)
  have g1: "group_mean (\<lambda>r. Fin (txx r)) ex_rows_tenth 1 = Fin 2"
    by (simp add: group_mean_def group_rows_def pd_mean_def rows block_row_def fill_row_def
        scale_units_def ex_priors_tenth_def)
  have r1: "\<not> isl (fail_posteriors ex_scv_unit ex_draws ex_fault_three ex_priors_tenth)"
    unfolding f by simp
  have r2: "map post_index
      (projr (fail_posteriors ex_scv_unit ex_draws ex_fault_three ex_priors_tenth)) = [0, 1]"
    unfolding f by simp
  have r3: "map post_txx
      (projr (fail_posteriors ex_scv_unit ex_draws ex_fault_three ex_priors_tenth)) =
      [Fin (7205759403792795 / 72057594037927936), Fin 2]"
    unfolding f by (simp add: g0 g1)
  have ne: "(7205759403792795 / 72057594037927936 :: real) \<noteq> 3602879701896397 / 36028797018963968"
    by simp
  from p s l x c r1 r2 r3 ne show ?thesis
    by (intro conjI)
qed

text \<open>
  Claim C7, amended.  When the effective normal stress is negative at every fault point
  of every iteration and no slip is negative, the failure filter retains no iteration
  with a friction coefficient other than zero: the retained iterations are exactly those
  whose \<open>mu\<close>, as computed, is zero.
\<close>

theorem negative_normal_stress_retains_zero_mu:
  assumes p: "phi_priors draws (map p_index df) = Inr phis"
    and s: "search_df phis fault_df df = Inr rows"
    and f: "fail_posteriors m draws fault_df df = Inr post"
    and neg: "\<forall>r\<in>set rows. sig_n_eff m r < 0"
    and slips: "\<forall>f\<in>set fault_df. 0 \<le> f_slip_m f"
  shows "(\<forall>q\<in>set post. post_mu q = Fin 0)
     \<and> (\<forall>k v. (k, v) \<in> set (mu_iter m fault_df rows) \<longrightarrow>
           ((\<exists>q\<in>set post. post_index q = k) \<longleftrightarrow> v = Fin 0))"
proof (intro conjI ballI allI impI)
  fix q assume "q \<in> set post"
  then have "(post_index q, post_mu q) \<in> set (map (\<lambda>q. (post_index q, post_mu q)) post)"
    by auto
  then have "(post_index q, post_mu q) \<in> set (mu_real (mu_iter m fault_df rows))"
    by (simp only: posterior_index_mu [OF p s f])
  then have "(post_index q, post_mu q) \<in> set (mu_iter m fault_df rows)"
    and "fle (Fin 0) (post_mu q)" and "fle (post_mu q) (Fin 1)"
    by (auto simp: mu_real_def)
  then show "post_mu q = Fin 0"
    by (rule mu_retained_zero [OF s neg slips])
next
  fix k v assume kv: "(k, v) \<in> set (mu_iter m fault_df rows)"
  have "fle (Fin 0) v \<and> fle v (Fin 1) \<longleftrightarrow> v = Fin 0"
    using mu_retained_zero [OF s neg slips kv] by auto
  with posterior_keys(1) [OF p s f kv]
  show "(\<exists>q\<in>set post. post_index q = k) \<longleftrightarrow> v = Fin 0"
    by simp
qed

theorem negative_normal_stress_retains_zero_mu_witness:
  "phi_priors ex_draws (map p_index ex_priors) = Inr ex_phis
   \<and> search_df ex_phis ex_fault ex_priors = Inr ex_rows
   \<and> map (sig_n_eff ex_scv_txy_neg) ex_rows = [- 1, - 1, - 1, - 1]
   \<and> map f_slip_m ex_fault = [1, 3]
   \<and> mu_iter ex_scv_txy_neg ex_fault ex_rows = [(3, Fin (- 30)), (7, Fin 0)]
   \<and> (\<exists>post. fail_posteriors ex_scv_txy_neg ex_draws ex_fault ex_priors = Inr post
        \<and> (\<exists>q\<in>set post. post_index q = 7 \<and> post_mu q = Fin 0)
        \<and> \<not> (\<exists>q\<in>set post. post_index q = 3))"
proof -
  have d: "distinct (map p_index ex_priors)"
    by (simp add: ex_defs)
  from fail_posteriors_succeeds [OF ex_phi_priors ex_search_df d, of ex_scv_txy_neg]
  obtain post where f: "fail_posteriors ex_scv_txy_neg ex_draws ex_fault ex_priors = Inr post" ..
  have v1: "map (sig_n_eff ex_scv_txy_neg) ex_rows = [- 1, - 1, - 1, - 1]"
    by (simp add: ex_rows_eq sig_n_eff_def ex_scv_txy_neg_def)
  have v2: "map f_slip_m ex_fault = [1, 3]"
    by (simp add: ex_fault_def)
  have neg: "\<forall>r\<in>set ex_rows. sig_n_eff ex_scv_txy_neg r < 0"
    by (simp add: sig_n_eff_def ex_scv_txy_neg_def)
  have slips: "\<forall>f\<in>set ex_fault. 0 \<le> f_slip_m f"
    by (simp add: ex_fault_def)
  have mu: "mu_iter ex_scv_txy_neg ex_fault ex_rows = [(3, Fin (- 30)), (7, Fin 0)]"
    by (simp add: ex_rows_eq block_row_def ex_defs fail_defs sqrt_900)
  note th = negative_normal_stress_retains_zero_mu [OF ex_phi_priors ex_search_df f neg slips]
  have k7: "(7, Fin 0) \<in> set (mu_iter ex_scv_txy_neg ex_fault ex_rows)"
    and k3: "(3, Fin (- 30)) \<in> set (mu_iter ex_scv_txy_neg ex_fault ex_rows)"
    by (simp_all add: mu)
  from th k7 obtain q where q: "q \<in> set post" "post_index q = 7"
    by blast
  with th have "post_mu q = Fin 0"
    by blast
  with q have a7: "\<exists>q\<in>set post. post_index q = 7 \<and> post_mu q = Fin 0"
    by blast
  from th k3 have a3: "\<not> (\<exists>q\<in>set post. post_index q = 3)"
    by auto
  from f a7 a3 have "\<exists>post. fail_posteriors ex_scv_txy_neg ex_draws ex_fault ex_priors = Inr post
        \<and> (\<exists>q\<in>set post. post_index q = 7 \<and> post_mu q = Fin 0)
        \<and> \<not> (\<exists>q\<in>set post. post_index q = 3)"
    by blast
  with ex_phi_priors ex_search_df v1 v2 mu show ?thesis
    by (intro conjI)
qed

text \<open>
  Claim C7 as stated fails: with no shear stress at any fault point and an effective
  normal stress of \<open>-1\<close> at every fault point of every iteration, the friction
  coefficient of each iteration is \<open>0\<close>, which the filter \<open>0 \<le> mu \<le> 1\<close> retains.
  It also fails when a slip is negative: with the slips \<open>-1\<close> and \<open>3\<close>, a shear
  stress of 10 at the first fault point only and an effective normal stress of \<open>-8\<close>
  everywhere, the mean weighted misfit is \<open>-5\<close> and the friction coefficient
  \<open>5/8\<close> of each iteration is retained.
\<close>

theorem negative_normal_stress_counterexample:
  "phi_priors ex_draws (map p_index ex_priors) = Inr ex_phis
   \<and> search_df ex_phis ex_fault ex_priors = Inr ex_rows
   \<and> map (sig_n_eff ex_scv_neg) ex_rows = [- 1, - 1, - 1, - 1]
   \<and> mu_iter ex_scv_neg ex_fault ex_rows = [(3, Fin 0), (7, Fin 0)]
   \<and> \<not> isl (fail_posteriors ex_scv_neg ex_draws ex_fault ex_priors)
   \<and> map post_index (projr (fail_posteriors ex_scv_neg ex_draws ex_fault ex_priors)) = [3, 7]
   \<and> map post_mu (projr (fail_posteriors ex_scv_neg ex_draws ex_fault ex_priors)) = [Fin 0, Fin 0]
   \<and> search_df ex_phis ex_fault_back ex_priors = Inr ex_rows_back
   \<and> map f_slip_m ex_fault_back = [- 1, 3]
   \<and> map (sig_n_eff ex_scv_strike_neg) ex_rows_back = [- 8, - 8, - 8, - 8]
   \<and> map (tau_mag ex_scv_strike_neg) ex_rows_back = [Fin 10, Fin 0, Fin 10, Fin 0]
   \<and> mu_iter ex_scv_strike_neg ex_fault_back ex_rows_back = [(3, Fin (5 / 8)), (7, Fin (5 / 8))]
   \<and> \<not> isl (fail_posteriors ex_scv_strike_neg ex_draws ex_fault_back ex_priors)
   \<and> map post_index (projr (fail_posteriors ex_scv_strike_neg ex_draws ex_fault_back ex_priors))
       = [3, 7]
   \<and> map post_mu (projr (fail_posteriors ex_scv_strike_neg ex_draws ex_fault_back ex_priors))
       = [Fin (5 / 8), Fin (5 / 8)]"
proof -
  have d: "distinct (map p_index ex_priors)"
    by (simp add: ex_defs)
  have sg: "map (sig_n_eff ex_scv_neg) ex_rows = [- 1, - 1, - 1, - 1]"
    by (simp add: ex_rows_eq sig_n_eff_def ex_scv_neg_def)
  have mu: "mu_iter ex_scv_neg ex_fault ex_rows = [(3, Fin 0), (7, Fin 0)]"
    by (simp add: ex_rows_eq block_row_def ex_defs fail_defs)
  from fail_posteriors_succeeds [OF ex_phi_priors ex_search_df d, of ex_scv_neg]
  obtain post where f: "fail_posteriors ex_scv_neg ex_draws ex_fault ex_priors = Inr post" ..
  from posterior_index_mu [OF ex_phi_priors ex_search_df f]
  have idx: "map (\<lambda>q. (post_index q, post_mu q)) post = [(3, Fin 0), (7, Fin 0)]"
    unfolding mu by (simp add: mu_real_def)
  have "map post_index post = map fst (map (\<lambda>q. (post_index q, post_mu q)) post)"
    and "map post_mu post = map snd (map (\<lambda>q. (post_index q, post_mu q)) post)"
    by (simp_all add: o_def)
  then have r: "map post_index post = [3, 7]" "map post_mu post = [Fin 0, Fin 0]"
    unfolding idx by simp_all
  have first: "\<not> isl (fail_posteriors ex_scv_neg ex_draws ex_fault ex_priors)"
    "map post_index (projr (fail_posteriors ex_scv_neg ex_draws ex_fault ex_priors)) = [3, 7]"
    "map post_mu (projr (fail_posteriors ex_scv_neg ex_draws ex_fault ex_priors)) = [Fin 0, Fin 0]"
    unfolding f using r by simp_all
  have s': "search_df ex_phis ex_fault_back ex_priors = Inr ex_rows_back"
    unfolding ex_rows_back_def by (simp add: ex_fault_back_def ex_defs fail_defs)
  have rows: "ex_rows_back =
     [block_row ex_phis ex_fault_back ex_priors 0 0, block_row ex_phis ex_fault_back ex_priors 0 1,
      block_row ex_phis ex_fault_back ex_priors 1 0, block_row ex_phis ex_fault_back ex_priors 1 1]"
    unfolding ex_rows_back_def by (simp add: ex_fault_back_def ex_defs fail_defs block_row_def)
  have sl: "map f_slip_m ex_fault_back = [- 1, 3]"
    by (simp add: ex_fault_back_def)
  have sg': "map (sig_n_eff ex_scv_strike_neg) ex_rows_back = [- 8, - 8, - 8, - 8]"
    by (simp add: rows sig_n_eff_def ex_scv_strike_neg_def)
  have tm: "map (tau_mag ex_scv_strike_neg) ex_rows_back = [Fin 10, Fin 0, Fin 10, Fin 0]"
    by (simp add: rows block_row_def fill_row_def scale_units_def tau_mag_def tau_s_def tau_d_def
        args_of_def ex_scv_strike_neg_def ex_fault_back_def sqrt_100)
  have mu': "mu_iter ex_scv_strike_neg ex_fault_back ex_rows_back =
      [(3, Fin (5 / 8)), (7, Fin (5 / 8))]"
    by (simp add: rows block_row_def ex_fault_back_def ex_scv_strike_neg_def ex_defs fail_defs
        sqrt_100)
  from fail_posteriors_succeeds [OF ex_phi_priors s' d, of ex_scv_strike_neg]
  obtain post' where
    f': "fail_posteriors ex_scv_strike_neg ex_draws ex_fault_back ex_priors = Inr post'" ..
  from posterior_index_mu [OF ex_phi_priors s' f']
  have idx': "map (\<lambda>q. (post_index q, post_mu q)) post' = [(3, Fin (5 / 8)), (7, Fin (5 / 8))]"
    unfolding mu' by (simp add: mu_real_def)
  have "map post_index post' = map fst (map (\<lambda>q. (post_index q, post_mu q)) post')"
    and "map post_mu post' = map snd (map (\<lambda>q. (post_index q, post_mu q)) post')"
    by (simp_all add: o_def)
  then have r': "map post_index post' = [3, 7]" "map post_mu post' = [Fin (5 / 8), Fin (5 / 8)]"
    unfolding idx' by simp_all
  have second: "\<not> isl (fail_posteriors ex_scv_strike_neg ex_draws ex_fault_back ex_priors)"
    "map post_index (projr (fail_posteriors ex_scv_strike_neg ex_draws ex_fault_back ex_priors))
       = [3, 7]"
    "map post_mu (projr (fail_posteriors ex_scv_strike_neg ex_draws ex_fault_back ex_priors))
       = [Fin (5 / 8), Fin (5 / 8)]"
    unfolding f' using r' by simp_all
  from ex_phi_priors ex_search_df sg mu first s' sl sg' tm mu' second show ?thesis
    by (intro conjI)
qed

text \<open>
  Claim C10, amended.  The pore-pressure-ratio priors are 10000 draws read at the index
  labels of the prior table.  The read is defined exactly when every label is an integer
  in \<open>[-10000, 10000)\<close>: a label \<open>i\<close> selects draw \<open>i mod 10000\<close>, so that a negative
  label counts from the end of the array.  A prior table with a label at or above 10000
  (or below \<open>-10000\<close>) makes the notebook fail with IndexError, whatever the fault model
  and the stress functions are.
\<close>

theorem phi_priors_index_range:
  "((\<exists>phis. phi_priors draws (map p_index df) = Inr phis)
       \<longleftrightarrow> (\<forall>r\<in>set df. - 10000 \<le> p_index r \<and> p_index r < 10000))
   \<and> (\<forall>phis. phi_priors draws (map p_index df) = Inr phis \<longrightarrow>
         length phis = length df
         \<and> (\<forall>j<length df. phis ! j = draws (nat (p_index (df ! j) mod 10000))))
   \<and> ((\<exists>r\<in>set df. p_index r < - 10000 \<or> 10000 \<le> p_index r) \<longrightarrow>
         fail_posteriors m draws fault_df df = Inl IndexError)"
proof (intro conjI allI impI)
  show "(\<exists>phis. phi_priors draws (map p_index df) = Inr phis)
       \<longleftrightarrow> (\<forall>r\<in>set df. - 10000 \<le> p_index r \<and> p_index r < 10000)"
    by (simp add: phi_priors_defined_iff)
next
  fix phis assume p: "phi_priors draws (map p_index df) = Inr phis"
  from phi_priors_Inr [OF p] show "length phis = length df"
    by simp
next
  fix phis j assume p: "phi_priors draws (map p_index df) = Inr phis" and j: "j < length df"
  from p have "\<forall>r\<in>set df. - 10000 \<le> p_index r \<and> p_index r < 10000"
    using phi_priors_defined_iff [of draws "map p_index df"] by auto
  with j have "- 10000 \<le> p_index (df ! j)" and "p_index (df ! j) < 10000"
    by simp_all
  then have "phi_draw draws (p_index (df ! j)) = Inr (draws (nat (p_index (df ! j) mod 10000)))"
    by (rule phi_draw_in_range)
  moreover from phi_priors_Inr [OF p] j
  have "phi_draw draws (p_index (df ! j)) = Inr (phis ! j)"
    by simp
  ultimately show "phis ! j = draws (nat (p_index (df ! j) mod 10000))"
    by simp
next
  assume "\<exists>r\<in>set df. p_index r < - 10000 \<or> 10000 \<le> p_index r"
  then have "\<not> (\<forall>i\<in>set (map p_index df). - 10000 \<le> i \<and> i < 10000)"
    by fastforce
  then have "\<not> (\<exists>phis. phi_priors draws (map p_index df) = Inr phis)"
    using phi_priors_defined_iff [of draws "map p_index df"] by blast
  then obtain e where e: "phi_priors draws (map p_index df) = Inl e"
    by (cases "phi_priors draws (map p_index df)") auto
  from phi_priors_Inl [OF e] e show "fail_posteriors m draws fault_df df = Inl IndexError"
    by (simp add: fail_posteriors_def)
qed

theorem phi_priors_index_range_witness:
  "phi_priors ex_draws (map p_index ex_priors_last) = Inr [9999 / 10000, 3 / 10000]
   \<and> map p_index ex_priors_last = [- 1, 3]
   \<and> map p_index ex_priors_beyond = [3, 10000]
   \<and> fail_posteriors ex_scv ex_draws ex_fault ex_priors_beyond = Inl IndexError"
proof -
  have i1: "map p_index ex_priors_last = [- 1, 3]"
    by (simp add: ex_priors_last_def)
  have i2: "map p_index ex_priors_beyond = [3, 10000]"
    by (simp add: ex_priors_beyond_def)
  note t1 = phi_priors_index_range [of ex_draws ex_priors_last ex_scv ex_fault]
  note t2 = phi_priors_index_range [of ex_draws ex_priors_beyond ex_scv ex_fault]
  have "\<forall>r\<in>set ex_priors_last. - 10000 \<le> p_index r \<and> p_index r < 10000"
    by (simp add: ex_priors_last_def)
  with t1 obtain phis where p: "phi_priors ex_draws (map p_index ex_priors_last) = Inr phis"
    by blast
  with t1 have len: "length phis = length ex_priors_last"
    and all: "\<forall>j<length ex_priors_last. phis ! j = ex_draws (nat (p_index (ex_priors_last ! j) mod 10000))"
    by blast+
  have n: "length ex_priors_last = 2"
    by (simp add: ex_priors_last_def)
  from all have "phis ! 0 = 9999 / 10000" and "phis ! 1 = 3 / 10000"
    unfolding n by (simp_all add: ex_priors_last_def ex_draws_def)
  with len n have "phis = [9999 / 10000, 3 / 10000]"
    by (cases phis; cases "tl phis") auto
  with p have a: "phi_priors ex_draws (map p_index ex_priors_last) = Inr [9999 / 10000, 3 / 10000]"
    by simp
  have "\<exists>r\<in>set ex_priors_beyond. p_index r < - 10000 \<or> 10000 \<le> p_index r"
    by (simp add: ex_priors_beyond_def)
  with t2 have b: "fail_posteriors ex_scv ex_draws ex_fault ex_priors_beyond = Inl IndexError"
    by blast
  from a i1 i2 b show ?thesis
    by (intro conjI)
qed

text \<open>
  Claim C10 as stated fails at the index label \<open>-1\<close>, which is outside \<open>[0, 10000)\<close>:
  with the labels \<open>-1\<close> and \<open>3\<close> the notebook runs, the rows of the first iteration
  get the last of the 10000 draws, and that iteration is in the posterior table.
\<close>

theorem negative_index_counterexample:
  "map p_index ex_priors_last = [- 1, 3]
   \<and> phi_priors ex_draws (map p_index ex_priors_last) = Inr [9999 / 10000, 3 / 10000]
   \<and> search_df [9999 / 10000, 3 / 10000] ex_fault ex_priors_last = Inr ex_rows_last
   \<and> map iter ex_rows_last = [- 1, - 1, 3, 3]
   \<and> map phi ex_rows_last = [9999 / 10000, 9999 / 10000, 3 / 10000, 3 / 10000]
   \<and> \<not> isl (fail_posteriors ex_scv ex_draws ex_fault ex_priors_last)
   \<and> map post_index (projr (fail_posteriors ex_scv ex_draws ex_fault ex_priors_last)) = [- 1]"
proof -
  have l: "map p_index ex_priors_last = [- 1, 3]"
    by (simp add: ex_priors_last_def)
  have d: "distinct (map p_index ex_priors_last)"
    by (simp add: ex_priors_last_def)
  have p: "phi_priors ex_draws (map p_index ex_priors_last) = Inr [9999 / 10000, 3 / 10000]"
    by (simp add: ex_priors_last_def ex_draws_def phi_draw_def n_draws_def)
  have s: "search_df [9999 / 10000, 3 / 10000] ex_fault ex_priors_last = Inr ex_rows_last"
    unfolding ex_rows_last_def by (simp add: ex_priors_last_def ex_fault_def fail_defs)
  have rows: "ex_rows_last =
     [block_row [9999 / 10000, 3 / 10000] ex_fault ex_priors_last 0 0,
      block_row [9999 / 10000, 3 / 10000] ex_fault ex_priors_last 0 1,
      block_row [9999 / 10000, 3 / 10000] ex_fault ex_priors_last 1 0,
      block_row [9999 / 10000, 3 / 10000] ex_fault ex_priors_last 1 1]"
    unfolding ex_rows_last_def
    by (simp add: ex_priors_last_def ex_fault_def fail_defs block_row_def)
  have it: "map iter ex_rows_last = [- 1, - 1, 3, 3]"
    by (simp add: rows ex_priors_last_def)
  have ph: "map phi ex_rows_last = [9999 / 10000, 9999 / 10000, 3 / 10000, 3 / 10000]"
    by (simp add: rows block_row_def fill_row_def scale_units_def)
  have mu: "mu_iter ex_scv ex_fault ex_rows_last =
      [(- 1, Fin (4803839602528529 / 36028797018963968)), (3, Fin (6004799503160661 / 2251799813685248))]"
    by (simp add: rows block_row_def ex_priors_last_def ex_defs fail_defs sqrt_100 sqrt_40000)
  from fail_posteriors_succeeds [OF p s d, of ex_scv]
  obtain post where f: "fail_posteriors ex_scv ex_draws ex_fault ex_priors_last = Inr post" ..
  from posterior_index_mu [OF p s f]
  have idx: "map (\<lambda>q. (post_index q, post_mu q)) post = [(- 1, Fin (4803839602528529 / 36028797018963968))]"
    unfolding mu by (simp add: mu_real_def)
  have "map post_index post = map fst (map (\<lambda>q. (post_index q, post_mu q)) post)"
    by (simp add: o_def)
  then have r: "map post_index post = [- 1]"
    unfolding idx by simp
  from l p s it ph r show ?thesis
    unfolding f by simp
qed

section \<open>Properties of the stress field\<close>

subsection \<open>Set-up, arrays and loops\<close>


lemma py_int_of_int [simp]: "py_int (real_of_int n) = n"
  by (simp add: py_int_def)

lemma z_len_27 [simp]: "z_len z_min = 27"
proof -
  have "real_of_int (z_max z_min - z_min) / real_of_int z_res + 1 = real_of_int 27"
    by (simp add: z_max_def z_res_def)
  then show ?thesis
    unfolding z_len_def by (simp only: py_int_of_int)
qed

lemma z_vec_step: "z_vec z_min k = real_of_int z_min + 1000 * real k"
  by (simp add: z_vec_def z_max_def)

lemma kernel_len_pos:
  assumes "0 < study_res"
  shows "kernel_len study_res = 300000 div study_res + 1"
proof -
  have nn: "0 \<le> 300000 / real_of_int study_res + 1"
    using assms by simp
  have "kernel_len study_res = py_int (300000 / real_of_int study_res + 1)"
    by (simp add: kernel_len_def kernel_rad_def)
  also have "\<dots> = \<lfloor>300000 / real_of_int study_res + 1\<rfloor>"
    using nn by (simp only: py_int_def if_True)
  also have "\<dots> = \<lfloor>real_of_int 300000 / real_of_int study_res\<rfloor> + 1"
    by simp
  also have "\<lfloor>real_of_int 300000 / real_of_int study_res\<rfloor> = 300000 div study_res"
    by (rule floor_divide_of_int_eq)
  finally show ?thesis .
qed

lemma kernel_len_ge_1: "0 < study_res \<Longrightarrow> 1 \<le> kernel_len study_res"
  by (simp add: kernel_len_pos pos_imp_zdiv_nonneg_iff)

lemma py_slice_inside:
  assumes "0 \<le> start" and "0 \<le> len" and "start + len \<le> int n"
  shows "py_slice n start (start + len) = (nat start, nat len)"
  using assms by (simp add: py_slice_def py_slice_bound_def Let_def min_def)

lemma centered_inside:
  assumes p: "0 \<le> p" "p \<le> int (nrow a)" and q: "0 \<le> q" "q \<le> int (ncol a)"
  shows "centered a (p, q) =
           \<lparr> nrow = nat p, ncol = nat q,
             at2 = (\<lambda>i j. at2 a (i + nat ((int (nrow a) - p) div 2))
                                 (j + nat ((int (ncol a) - q) div 2))) \<rparr>"
proof -
  have s0: "py_slice (nrow a) ((int (nrow a) - p) div 2) ((int (nrow a) - p) div 2 + p)
      = (nat ((int (nrow a) - p) div 2), nat p)"
    using p by (intro py_slice_inside) auto
  have s1: "py_slice (ncol a) ((int (ncol a) - q) div 2) ((int (ncol a) - q) div 2 + q)
      = (nat ((int (ncol a) - q) div 2), nat q)"
    using q by (intro py_slice_inside) auto
  show ?thesis
    unfolding centered_def by (simp add: s0 s1 Let_def)
qed

lemma fill_slices_Inr:
  "fill_slices sl ks a = Inr a' \<Longrightarrow>
     dim0 a' = dim0 a \<and> dim1 a' = dim1 a \<and> dim2 a' = dim2 a
     \<and> (\<forall>i j k. at3 a' i j k =
           (if k \<in> set ks then at2 (sl k) (bc_ix (nrow (sl k)) i) (bc_ix (ncol (sl k)) j)
            else at3 a i j k))"
proof (induction ks arbitrary: a)
  case Nil
  then show ?case by simp
next
  case (Cons k ks)
  from Cons.prems obtain b where b: "set_slice3 a k (sl k) = Inr b"
    and rest: "fill_slices sl ks b = Inr a'"
    by (auto split: sum.splits)
  from b have bd: "dim0 b = dim0 a" "dim1 b = dim1 a" "dim2 b = dim2 a"
    and bv: "\<And>i j k'. at3 b i j k' =
        (if k' = k then at2 (sl k) (bc_ix (nrow (sl k)) i) (bc_ix (ncol (sl k)) j)
         else at3 a i j k')"
    by (auto simp: set_slice3_def split: if_splits)
  from Cons.IH [OF rest] bd bv show ?case
    by auto
qed

lemma fill_slices_succeeds:
  assumes "\<forall>k\<in>set ks. k < dim2 a \<and> nrow (sl k) = dim0 a \<and> ncol (sl k) = dim1 a"
  shows "\<exists>a'. fill_slices sl ks a = Inr a'"
  using assms
proof (induction ks arbitrary: a)
  case Nil
  then show ?case by simp
next
  case (Cons k ks)
  then have ok: "k < dim2 a" "nrow (sl k) = dim0 a" "ncol (sl k) = dim1 a"
    by simp_all
  then obtain b where b: "set_slice3 a k (sl k) = Inr b"
    by (simp add: set_slice3_def)
  then have "dim0 b = dim0 a" "dim1 b = dim1 a" "dim2 b = dim2 a"
    by (auto simp: set_slice3_def split: if_splits)
  with Cons.prems have "\<forall>k\<in>set ks. k < dim2 b \<and> nrow (sl k) = dim0 b \<and> ncol (sl k) = dim1 b"
    by simp
  from Cons.IH [OF this] b show ?case
    by simp
qed

lemma for_comps_Inr:
  "for_comps body cs = Inr vs \<Longrightarrow>
     map fst vs = cs \<and> (\<forall>c\<in>set cs. \<exists>v. body c = Inr v \<and> map_of vs c = Some v)"
proof (induction cs arbitrary: vs)
  case Nil
  then show ?case by simp
next
  case (Cons c cs)
  from Cons.prems obtain v ws where v: "body c = Inr v"
    and ws: "for_comps body cs = Inr ws" and vs: "vs = (c, v) # ws"
    by (auto split: sum.splits)
  from Cons.IH [OF ws] v show ?case
    unfolding vs by auto
qed

lemma for_comps_succeeds:
  "(\<forall>c\<in>set cs. \<exists>v. body c = Inr v) \<Longrightarrow> \<exists>vs. for_comps body cs = Inr vs"
proof (induction cs)
  case Nil
  then show ?case by simp
next
  case (Cons c cs)
  then obtain v vs where "body c = Inr v" "for_comps body cs = Inr vs"
    by auto
  then show ?case by simp
qed

lemma set_comp_list: "c \<in> set comp_list"
  by (cases c) (simp_all add: comp_list_def)

lemma bc_ix_inside: "i < n \<Longrightarrow> bc_ix n i = i"
  by (auto simp: bc_ix_def)

lemma np_binop2_same_shape:
  assumes "nrow a = nrow b" and "ncol a = ncol b"
  shows "\<exists>r. np_binop2 f a b = Inr r \<and> nrow r = nrow a \<and> ncol r = ncol a
     \<and> (\<forall>i<nrow a. \<forall>j<ncol a. at2 r i j = f (at2 a i j) (at2 b i j))"
  using assms by (simp add: np_binop2_def bc_dim_def bc_ix_inside)

lemma np_binop3_same_shape:
  assumes "dim0 a = dim0 b" and "dim1 a = dim1 b" and "dim2 a = dim2 b"
  shows "\<exists>r. np_binop3 f a b = Inr r \<and> dim0 r = dim0 a \<and> dim1 r = dim1 a \<and> dim2 r = dim2 a
     \<and> (\<forall>i<dim0 a. \<forall>j<dim1 a. \<forall>k<dim2 a. at3 r i j k = f (at3 a i j k) (at3 b i j k))"
  using assms by (simp add: np_binop3_def bc_dim_def bc_ix_inside)

subsection \<open>The datasets and the loading functions\<close>


lemma conv_result_valid:
  "conv_result kl load Valid vals =
     \<lparr> nrow = nat (int (nrow load) - kl + 1), ncol = nat (int (ncol load) - kl + 1), at2 = vals \<rparr>"
  by (simp add: conv_result_def size_output_def)

lemma conv_result_same:
  "conv_result kl load Same vals = \<lparr> nrow = nrow load, ncol = ncol load, at2 = vals \<rparr>"
  by (simp add: conv_result_def size_output_def)

lemma b_dataset_char:
  assumes e: "np_empty J (int (nrow topo) - kernel_len res + 1)
                (int (ncol topo) - kernel_len res + 1) (z_len res) = Inr b_stress"
  shows "\<exists>b. b_dataset hs res topo b_stress c = Inr b
     \<and> dim0 b = nat (int (nrow topo) - kernel_len res + 1)
     \<and> dim1 b = nat (int (ncol topo) - kernel_len res + 1)
     \<and> dim2 b = 27
     \<and> (\<forall>i<dim0 b. \<forall>j<dim1 b. \<forall>k<27.
           at3 b i j k = b_conv hs c (z_vec res k) Fv topo i j * (1 / 1000000))"
proof -
  let ?sl = "\<lambda>i. do_b_convo hs (kernel_len res) c (z_vec res i) Fv topo Valid"
  from e have d: "dim0 b_stress = nat (int (nrow topo) - kernel_len res + 1)"
      "dim1 b_stress = nat (int (ncol topo) - kernel_len res + 1)" "dim2 b_stress = 27"
    by (auto simp: np_empty_def split: if_splits)
  have sh: "\<And>k. nrow (?sl k) = dim0 b_stress \<and> ncol (?sl k) = dim1 b_stress"
    by (simp add: do_b_convo_def conv_result_valid d)
  have "\<forall>k\<in>set [0..<nat (z_len res)]. k < dim2 b_stress
        \<and> nrow (?sl k) = dim0 b_stress \<and> ncol (?sl k) = dim1 b_stress"
    using sh d by simp
  from fill_slices_succeeds [OF this] obtain a
    where a: "fill_slices ?sl [0..<nat (z_len res)] b_stress = Inr a" ..
  note fa = fill_slices_Inr [OF a]
  have b: "b_dataset hs res topo b_stress c = Inr (np_scale3 a (1 / 1000000))"
    using a by (simp add: b_dataset_def)
  have vals: "\<forall>i<dim0 a. \<forall>j<dim1 a. \<forall>k<27.
      at3 (np_scale3 a (1 / 1000000)) i j k = b_conv hs c (z_vec res k) Fv topo i j * (1 / 1000000)"
  proof (intro allI impI)
    fix i j k :: nat assume i: "i < dim0 a" and j: "j < dim1 a" and k: "k < 27"
    from fa k have "at3 a i j k = at2 (?sl k) (bc_ix (nrow (?sl k)) i) (bc_ix (ncol (?sl k)) j)"
      by simp
    also have "\<dots> = at2 (?sl k) i j"
      using i j fa sh by (simp add: bc_ix_inside)
    finally show "at3 (np_scale3 a (1 / 1000000)) i j k
        = b_conv hs c (z_vec res k) Fv topo i j * (1 / 1000000)"
      by (simp add: np_scale3_def do_b_convo_def conv_result_valid)
  qed
  from b fa d vals show ?thesis
    by (simp add: np_scale3_def)
qed

lemma cerr_dataset_char:
  assumes "nrow load = p" and "ncol load = q"
  shows "\<exists>a. cerr_dataset hs res load (np_zeros p q (nat (z_len res))) dir c = Inr a
     \<and> dim0 a = p \<and> dim1 a = q \<and> dim2 a = 27
     \<and> (\<forall>i<p. \<forall>j<q. \<forall>k<27.
           at3 a i j k = c_conv hs c dir (z_vec res k) load i j * (1 / 1000000))"
proof -
  let ?sl = "\<lambda>i. np_scale2 (do_c_convo hs (kernel_len res) c dir (z_vec res i) load Same)
                      (1 / 1000000)"
  let ?c0 = "np_zeros p q (nat (z_len res))"
  have d: "dim0 ?c0 = p" "dim1 ?c0 = q" "dim2 ?c0 = 27"
    by (simp_all add: np_zeros_def)
  have sh: "\<And>k. nrow (?sl k) = p \<and> ncol (?sl k) = q"
    using assms by (simp add: np_scale2_def do_c_convo_def conv_result_same)
  have "\<forall>k\<in>set [0..<nat (z_len res)]. k < dim2 ?c0
        \<and> nrow (?sl k) = dim0 ?c0 \<and> ncol (?sl k) = dim1 ?c0"
    using sh d by simp
  from fill_slices_succeeds [OF this] obtain a
    where a: "fill_slices ?sl [0..<nat (z_len res)] ?c0 = Inr a" ..
  note fa = fill_slices_Inr [OF a]
  have vals: "\<forall>i<p. \<forall>j<q. \<forall>k<27.
      at3 a i j k = c_conv hs c dir (z_vec res k) load i j * (1 / 1000000)"
  proof (intro allI impI)
    fix i j k :: nat assume i: "i < p" and j: "j < q" and k: "k < 27"
    from fa k have "at3 a i j k = at2 (?sl k) (bc_ix (nrow (?sl k)) i) (bc_ix (ncol (?sl k)) j)"
      by simp
    also have "\<dots> = at2 (?sl k) i j"
      using i j sh by (simp add: bc_ix_inside)
    finally show "at3 a i j k = c_conv hs c dir (z_vec res k) load i j * (1 / 1000000)"
      by (simp add: np_scale2_def do_c_convo_def conv_result_same)
  qed
  from a fa d vals show ?thesis
    by (simp add: cerr_dataset_def)
qed

lemma Fh_char:
  assumes "nrow topo = p" "ncol topo = q" "nrow d1 = p" "ncol d1 = q" "nrow b1 = p" "ncol b1 = q"
    "nrow b12 = p" "ncol b12 = q" "nrow d2 = p" "ncol d2 = q"
  shows "\<exists>r. Fh topo d1 b1 b12 d2 = Inr r \<and> nrow r = p \<and> ncol r = q
     \<and> (\<forall>i<p. \<forall>j<q. at2 r i j =
           at2 topo i j * Fv * at2 d1 i j + (at2 b1 i j * at2 d1 i j + at2 b12 i j * at2 d2 i j))"
proof -
  have "nrow (np_scale2 topo Fv) = nrow d1" "ncol (np_scale2 topo Fv) = ncol d1"
    using assms by (simp_all add: np_scale2_def)
  from np_binop2_same_shape [OF this, of "(*)"] obtain fht
    where fht: "np_binop2 (*) (np_scale2 topo Fv) d1 = Inr fht" "nrow fht = p" "ncol fht = q"
      "\<forall>i<p. \<forall>j<q. at2 fht i j = at2 topo i j * Fv * at2 d1 i j"
    using assms by (auto simp: np_scale2_def)
  have "nrow b1 = nrow d1" "ncol b1 = ncol d1"
    using assms by simp_all
  from np_binop2_same_shape [OF this, of "(*)"] obtain u
    where u: "np_binop2 (*) b1 d1 = Inr u" "nrow u = p" "ncol u = q"
      "\<forall>i<p. \<forall>j<q. at2 u i j = at2 b1 i j * at2 d1 i j"
    using assms by auto
  have "nrow b12 = nrow d2" "ncol b12 = ncol d2"
    using assms by simp_all
  from np_binop2_same_shape [OF this, of "(*)"] obtain v
    where v: "np_binop2 (*) b12 d2 = Inr v" "nrow v = p" "ncol v = q"
      "\<forall>i<p. \<forall>j<q. at2 v i j = at2 b12 i j * at2 d2 i j"
    using assms by auto
  have "nrow u = nrow v" "ncol u = ncol v"
    using u v by simp_all
  from np_binop2_same_shape [OF this, of "(+)"] obtain fhb
    where fhb: "np_binop2 (+) u v = Inr fhb" "nrow fhb = p" "ncol fhb = q"
      "\<forall>i<p. \<forall>j<q. at2 fhb i j = at2 u i j + at2 v i j"
    using u by auto
  have "nrow fht = nrow fhb" "ncol fht = ncol fhb"
    using fht fhb by simp_all
  from np_binop2_same_shape [OF this, of "(+)"] obtain r
    where r: "np_binop2 (+) fht fhb = Inr r" "nrow r = p" "ncol r = q"
      "\<forall>i<p. \<forall>j<q. at2 r i j = at2 fht i j + at2 fhb i j"
    using fht by auto
  have "Fh topo d1 b1 b12 d2 = Inr r"
    by (simp add: Fh_def fht(1) u(1) v(1) fhb(1) r(1))
  moreover have "\<forall>i<p. \<forall>j<q. at2 r i j =
           at2 topo i j * Fv * at2 d1 i j + (at2 b1 i j * at2 d1 i j + at2 b12 i j * at2 d2 i j)"
    using r(4) fht(4) fhb(4) u(4) v(4) by simp
  ultimately show ?thesis
    using r by blast
qed

lemma b_top_char:
  assumes "map_of bdb c = Some b" and "0 < dim2 b"
  shows "b_top bdb c =
           Inr \<lparr> nrow = dim0 b, ncol = dim1 b, at2 = (\<lambda>i j. at3 b i j 0 * 1000000) \<rparr>"
  using assms by (simp add: b_top_def dataset_def slice3_def np_scale2_def)

lemma loads_setup_char:
  assumes xx: "map_of bdb XX = Some bxx" "dim0 bxx = p" "dim1 bxx = q" "0 < dim2 bxx"
    and xy: "map_of bdb XY = Some bxy" "0 < dim2 bxy"
    and yy: "map_of bdb YY = Some byy" "0 < dim2 byy"
    and big: "2 \<le> p" "2 \<le> q" "p \<le> nrow topo" "q \<le> ncol topo"
  shows "loads_setup bdb topo res =
     Inr \<lparr> b_xx_top = \<lparr> nrow = dim0 bxx, ncol = dim1 bxx, at2 = (\<lambda>i j. at3 bxx i j 0 * 1000000) \<rparr>,
           b_xy_top = \<lparr> nrow = dim0 bxy, ncol = dim1 bxy, at2 = (\<lambda>i j. at3 bxy i j 0 * 1000000) \<rparr>,
           b_yy_top = \<lparr> nrow = dim0 byy, ncol = dim1 byy, at2 = (\<lambda>i j. at3 byy i j 0 * 1000000) \<rparr>,
           topo_c = centered topo (int p, int q),
           topo_dy = (centered topo (int p, int q))
              \<lparr> at2 := (\<lambda>i j. gradient1 (\<lambda>k. at2 (centered topo (int p, int q)) k j) p
                                 (real_of_int res) i) \<rparr>,
           topo_dx = (centered topo (int p, int q))
              \<lparr> at2 := (\<lambda>i j. gradient1 (\<lambda>k. at2 (centered topo (int p, int q)) i k) q
                                 (real_of_int res) j) \<rparr> \<rparr>"
proof -
  have c: "nrow (centered topo (int p, int q)) = p" "ncol (centered topo (int p, int q)) = q"
    using big by (simp_all add: centered_inside)
  show ?thesis
    unfolding loads_setup_def
    using big c
    by (simp add: b_top_char [OF xx(1) xx(4)] b_top_char [OF xy] b_top_char [OF yy]
        xx(2,3) np_gradient_def Let_def)
qed

lemma loads_setup_small:
  assumes xx: "map_of bdb XX = Some bxx" "dim0 bxx = p" "dim1 bxx = q" "0 < dim2 bxx"
    and xy: "map_of bdb XY = Some bxy" "0 < dim2 bxy"
    and yy: "map_of bdb YY = Some byy" "0 < dim2 byy"
    and big: "p < 2 \<or> q < 2" "p \<le> nrow topo" "q \<le> ncol topo"
  shows "loads_setup bdb topo res = Inl ValueError"
proof -
  have c: "nrow (centered topo (int p, int q)) = p" "ncol (centered topo (int p, int q)) = q"
    using big by (simp_all add: centered_inside)
  show ?thesis
    unfolding loads_setup_def
    using big c
    by (simp add: b_top_char [OF xx(1) xx(4)] b_top_char [OF xy] b_top_char [OF yy]
        xx(2,3) np_gradient_def Let_def)
qed

subsection \<open>The notebook as a whole\<close>


lemma map_of_t_db:
  "map_of res c = Some r \<Longrightarrow> map_of (t_db (write_files bdb res)) c = Some (total r)"
  by (induction res) (auto simp: write_files_def)

lemma map_of_c_db:
  "map_of res c = Some r \<Longrightarrow>
     map_of (c_db (write_files bdb res)) (c, Dir_x) = Some (cerr_x r)
     \<and> map_of (c_db (write_files bdb res)) (c, Dir_y) = Some (cerr_y r)"
  by (induction res) (auto simp: write_files_def)

lemma stress_field_unfold:
  assumes "stress_field hs dem res = Inr S"
  shows "res \<noteq> 0 \<and> (\<exists>b_stress bdb l fx fy rs.
      np_empty (junk hs) (int (nrow dem) - kernel_len res + 1)
        (int (ncol dem) - kernel_len res + 1) (z_len res) = Inr b_stress
      \<and> for_comps (b_dataset hs res (np_scale2 dem (- 1)) b_stress) comp_list = Inr bdb
      \<and> loads_setup bdb (np_scale2 dem (- 1)) res = Inr l
      \<and> Fh_x l = Inr fx \<and> Fh_y l = Inr fy
      \<and> for_comps (c_body hs res bdb fx fy
            (np_zeros (nrow (topo_c l)) (ncol (topo_c l)) (nat (z_len res)))) comp_list = Inr rs
      \<and> S = write_files bdb rs)"
  using assms
  by (auto simp: stress_field_def Let_def size_output_def np_scale2_def
      split: if_splits sum.splits)

lemma c_body_char:
  assumes b: "map_of bdb c = Some b" "dim0 b = p" "dim1 b = q" "dim2 b = 27"
    and fx: "nrow fx = p" "ncol fx = q" and fy: "nrow fy = p" "ncol fy = q"
  shows "\<exists>r. c_body hs res bdb fx fy (np_zeros p q (nat (z_len res))) c = Inr r
     \<and> dim0 (cerr_x r) = p \<and> dim1 (cerr_x r) = q \<and> dim2 (cerr_x r) = 27
     \<and> dim0 (cerr_y r) = p \<and> dim1 (cerr_y r) = q \<and> dim2 (cerr_y r) = 27
     \<and> dim0 (total r) = p \<and> dim1 (total r) = q \<and> dim2 (total r) = 27
     \<and> (\<forall>i<p. \<forall>j<q. \<forall>k<27.
           at3 (cerr_x r) i j k = c_conv hs c Dir_x (z_vec res k) fx i j * (1 / 1000000)
         \<and> at3 (cerr_y r) i j k = c_conv hs c Dir_y (z_vec res k) fy i j * (1 / 1000000)
         \<and> at3 (total r) i j k = at3 b i j k + at3 (cerr_x r) i j k + at3 (cerr_y r) i j k)"
proof -
  from cerr_dataset_char [OF fx, of hs res Dir_x c] obtain cx
    where cx: "cerr_dataset hs res fx (np_zeros p q (nat (z_len res))) Dir_x c = Inr cx"
      "dim0 cx = p" "dim1 cx = q" "dim2 cx = 27"
      "\<forall>i<p. \<forall>j<q. \<forall>k<27. at3 cx i j k = c_conv hs c Dir_x (z_vec res k) fx i j * (1 / 1000000)"
    by blast
  from cerr_dataset_char [OF fy, of hs res Dir_y c] obtain cy
    where cy: "cerr_dataset hs res fy (np_zeros p q (nat (z_len res))) Dir_y c = Inr cy"
      "dim0 cy = p" "dim1 cy = q" "dim2 cy = 27"
      "\<forall>i<p. \<forall>j<q. \<forall>k<27. at3 cy i j k = c_conv hs c Dir_y (z_vec res k) fy i j * (1 / 1000000)"
    by blast
  have "dim0 b = dim0 cx" "dim1 b = dim1 cx" "dim2 b = dim2 cx"
    using b cx by simp_all
  from np_binop3_same_shape [OF this, of "(+)"] obtain s
    where s: "np_binop3 (+) b cx = Inr s" "dim0 s = p" "dim1 s = q" "dim2 s = 27"
      "\<forall>i<p. \<forall>j<q. \<forall>k<27. at3 s i j k = at3 b i j k + at3 cx i j k"
    using b by auto
  have "dim0 s = dim0 cy" "dim1 s = dim1 cy" "dim2 s = dim2 cy"
    using s cy by simp_all
  from np_binop3_same_shape [OF this, of "(+)"] obtain t
    where t: "np_binop3 (+) s cy = Inr t" "dim0 t = p" "dim1 t = q" "dim2 t = 27"
      "\<forall>i<p. \<forall>j<q. \<forall>k<27. at3 t i j k = at3 s i j k + at3 cy i j k"
    using s by auto
  have "c_body hs res bdb fx fy (np_zeros p q (nat (z_len res))) c
      = Inr \<lparr> cerr_x = cx, cerr_y = cy, total = t \<rparr>"
    using cx(1) cy(1) by (simp add: c_body_def dataset_def b(1) s(1) t(1))
  moreover have "\<forall>i<p. \<forall>j<q. \<forall>k<27. at3 t i j k = at3 b i j k + at3 cx i j k + at3 cy i j k"
    using s(5) t(5) by simp
  ultimately show ?thesis
    using cx cy t by simp
qed

lemma stress_field_char:
  assumes S: "stress_field hs dem res = Inr S" and res: "0 < res"
  shows "\<exists>p q l fx fy.
      int p = int (nrow dem) - kernel_len res + 1 \<and> int q = int (ncol dem) - kernel_len res + 1
    \<and> 2 \<le> p \<and> 2 \<le> q
    \<and> loads_setup (b_db S) (np_scale2 dem (- 1)) res = Inr l
    \<and> nrow (topo_c l) = p \<and> ncol (topo_c l) = q
    \<and> Fh_x l = Inr fx \<and> Fh_y l = Inr fy
    \<and> nrow fx = p \<and> ncol fx = q \<and> nrow fy = p \<and> ncol fy = q
    \<and> (\<forall>c. \<exists>b cx cy t.
          map_of (b_db S) c = Some b \<and> map_of (c_db S) (c, Dir_x) = Some cx
        \<and> map_of (c_db S) (c, Dir_y) = Some cy \<and> map_of (t_db S) c = Some t
        \<and> dim0 b = p \<and> dim1 b = q \<and> dim2 b = 27
        \<and> dim0 cx = p \<and> dim1 cx = q \<and> dim2 cx = 27
        \<and> dim0 cy = p \<and> dim1 cy = q \<and> dim2 cy = 27
        \<and> dim0 t = p \<and> dim1 t = q \<and> dim2 t = 27
        \<and> (\<forall>i<p. \<forall>j<q. \<forall>k<27.
              at3 b i j k = b_conv hs c (z_vec res k) Fv (np_scale2 dem (- 1)) i j * (1 / 1000000)
            \<and> at3 cx i j k = c_conv hs c Dir_x (z_vec res k) fx i j * (1 / 1000000)
            \<and> at3 cy i j k = c_conv hs c Dir_y (z_vec res k) fy i j * (1 / 1000000)
            \<and> at3 t i j k = at3 b i j k + at3 cx i j k + at3 cy i j k))"
proof -
  let ?topo = "np_scale2 dem (- 1)"
  let ?bx = "int (nrow dem) - kernel_len res + 1"
  let ?by = "int (ncol dem) - kernel_len res + 1"
  from stress_field_unfold [OF S] obtain b_stress bdb l fx fy rs where
    e: "np_empty (junk hs) ?bx ?by (z_len res) = Inr b_stress"
    and bd: "for_comps (b_dataset hs res ?topo b_stress) comp_list = Inr bdb"
    and l: "loads_setup bdb ?topo res = Inr l"
    and fx: "Fh_x l = Inr fx" and fy: "Fh_y l = Inr fy"
    and rs: "for_comps (c_body hs res bdb fx fy
            (np_zeros (nrow (topo_c l)) (ncol (topo_c l)) (nat (z_len res)))) comp_list = Inr rs"
    and Seq: "S = write_files bdb rs"
    by blast
  have tshape: "nrow ?topo = nrow dem" "ncol ?topo = ncol dem"
    by (simp_all add: np_scale2_def)
  from e have nn: "0 \<le> ?bx" "0 \<le> ?by"
    by (auto simp: np_empty_def split: if_splits)
  define p where "p = nat ?bx"
  define q where "q = nat ?by"
  from nn have pq: "int p = ?bx" "int q = ?by"
    by (simp_all add: p_def q_def)
  from kernel_len_ge_1 [OF res] pq have le: "p \<le> nrow ?topo" "q \<le> ncol ?topo"
    unfolding tshape by linarith+
  have e': "np_empty (junk hs) (int (nrow ?topo) - kernel_len res + 1)
      (int (ncol ?topo) - kernel_len res + 1) (z_len res) = Inr b_stress"
    using e by (simp only: tshape)
  have bc: "\<And>c. \<exists>b. map_of bdb c = Some b \<and> dim0 b = p \<and> dim1 b = q \<and> dim2 b = 27
      \<and> (\<forall>i<p. \<forall>j<q. \<forall>k<27.
            at3 b i j k = b_conv hs c (z_vec res k) Fv ?topo i j * (1 / 1000000))"
  proof -
    fix c
    from for_comps_Inr [OF bd] set_comp_list [of c] obtain b
      where b: "b_dataset hs res ?topo b_stress c = Inr b" "map_of bdb c = Some b"
      by blast
    from b_dataset_char [OF e', of hs c] b(1) have
      "dim0 b = p \<and> dim1 b = q \<and> dim2 b = 27
      \<and> (\<forall>i<p. \<forall>j<q. \<forall>k<27.
            at3 b i j k = b_conv hs c (z_vec res k) Fv ?topo i j * (1 / 1000000))"
      unfolding tshape p_def q_def by auto
    with b(2) show "\<exists>b. map_of bdb c = Some b \<and> dim0 b = p \<and> dim1 b = q \<and> dim2 b = 27
      \<and> (\<forall>i<p. \<forall>j<q. \<forall>k<27.
            at3 b i j k = b_conv hs c (z_vec res k) Fv ?topo i j * (1 / 1000000))"
      by blast
  qed
  from bc [of XX] obtain bxx where bxx: "map_of bdb XX = Some bxx" "dim0 bxx = p" "dim1 bxx = q"
      "dim2 bxx = 27" by blast
  from bc [of XY] obtain bxy where bxy: "map_of bdb XY = Some bxy" "dim0 bxy = p" "dim1 bxy = q"
      "dim2 bxy = 27" by blast
  from bc [of YY] obtain byy where byy: "map_of bdb YY = Some byy" "dim0 byy = p" "dim1 byy = q"
      "dim2 byy = 27" by blast
  have big: "2 \<le> p \<and> 2 \<le> q"
  proof (rule ccontr)
    assume "\<not> (2 \<le> p \<and> 2 \<le> q)"
    then have "p < 2 \<or> q < 2" by auto
    from loads_setup_small [OF bxx(1,2,3) _ bxy(1) _ byy(1) _ this le] bxx(4) bxy(4) byy(4) l
    show False by simp
  qed
  then have p2: "2 \<le> p" and q2: "2 \<le> q"
    by simp_all
  have pos: "0 < dim2 bxx" "0 < dim2 bxy" "0 < dim2 byy"
    using bxx(4) bxy(4) byy(4) by simp_all
  note lc = loads_setup_char [OF bxx(1,2,3) pos(1) bxy(1) pos(2) byy(1) pos(3) p2 q2 le, of res]
  have cs: "nrow (centered ?topo (int p, int q)) = p" "ncol (centered ?topo (int p, int q)) = q"
    using le by (simp_all add: centered_inside)
  from l lc have lsh: "nrow (topo_c l) = p" "ncol (topo_c l) = q"
      "nrow (topo_dx l) = p" "ncol (topo_dx l) = q" "nrow (topo_dy l) = p" "ncol (topo_dy l) = q"
      "nrow (b_xx_top l) = p" "ncol (b_xx_top l) = q" "nrow (b_xy_top l) = p" "ncol (b_xy_top l) = q"
      "nrow (b_yy_top l) = p" "ncol (b_yy_top l) = q"
    using cs bxx bxy byy by auto
  from Fh_char [OF lsh(1,2) lsh(3,4) lsh(7,8) lsh(9,10) lsh(5,6)] fx
  have fxs: "nrow fx = p" "ncol fx = q"
    by (auto simp: Fh_x_def)
  from Fh_char [OF lsh(1,2) lsh(5,6) lsh(11,12) lsh(9,10) lsh(3,4)] fy
  have fys: "nrow fy = p" "ncol fy = q"
    by (auto simp: Fh_y_def)
  have per: "\<forall>c. \<exists>b cx cy t.
          map_of (b_db S) c = Some b \<and> map_of (c_db S) (c, Dir_x) = Some cx
        \<and> map_of (c_db S) (c, Dir_y) = Some cy \<and> map_of (t_db S) c = Some t
        \<and> dim0 b = p \<and> dim1 b = q \<and> dim2 b = 27
        \<and> dim0 cx = p \<and> dim1 cx = q \<and> dim2 cx = 27
        \<and> dim0 cy = p \<and> dim1 cy = q \<and> dim2 cy = 27
        \<and> dim0 t = p \<and> dim1 t = q \<and> dim2 t = 27
        \<and> (\<forall>i<p. \<forall>j<q. \<forall>k<27.
              at3 b i j k = b_conv hs c (z_vec res k) Fv ?topo i j * (1 / 1000000)
            \<and> at3 cx i j k = c_conv hs c Dir_x (z_vec res k) fx i j * (1 / 1000000)
            \<and> at3 cy i j k = c_conv hs c Dir_y (z_vec res k) fy i j * (1 / 1000000)
            \<and> at3 t i j k = at3 b i j k + at3 cx i j k + at3 cy i j k)"
  proof
    fix c
    from bc [of c] obtain b where b: "map_of bdb c = Some b" "dim0 b = p" "dim1 b = q" "dim2 b = 27"
      and bv: "\<forall>i<p. \<forall>j<q. \<forall>k<27.
            at3 b i j k = b_conv hs c (z_vec res k) Fv ?topo i j * (1 / 1000000)"
      by blast
    from for_comps_Inr [OF rs] set_comp_list [of c] obtain r
      where r: "c_body hs res bdb fx fy
            (np_zeros (nrow (topo_c l)) (ncol (topo_c l)) (nat (z_len res))) c = Inr r"
        "map_of rs c = Some r"
      by blast
    from c_body_char [OF b fxs fys, of hs res] r(1) have rv:
      "dim0 (cerr_x r) = p \<and> dim1 (cerr_x r) = q \<and> dim2 (cerr_x r) = 27
     \<and> dim0 (cerr_y r) = p \<and> dim1 (cerr_y r) = q \<and> dim2 (cerr_y r) = 27
     \<and> dim0 (total r) = p \<and> dim1 (total r) = q \<and> dim2 (total r) = 27
     \<and> (\<forall>i<p. \<forall>j<q. \<forall>k<27.
           at3 (cerr_x r) i j k = c_conv hs c Dir_x (z_vec res k) fx i j * (1 / 1000000)
         \<and> at3 (cerr_y r) i j k = c_conv hs c Dir_y (z_vec res k) fy i j * (1 / 1000000)
         \<and> at3 (total r) i j k = at3 b i j k + at3 (cerr_x r) i j k + at3 (cerr_y r) i j k)"
      unfolding lsh(1,2) by auto
    have files: "map_of (b_db S) c = Some b" "map_of (c_db S) (c, Dir_x) = Some (cerr_x r)"
        "map_of (c_db S) (c, Dir_y) = Some (cerr_y r)" "map_of (t_db S) c = Some (total r)"
      unfolding Seq using b(1) map_of_c_db [OF r(2)] map_of_t_db [OF r(2)]
      by (simp_all add: write_files_def)
    from files b bv rv show "\<exists>b cx cy t.
          map_of (b_db S) c = Some b \<and> map_of (c_db S) (c, Dir_x) = Some cx
        \<and> map_of (c_db S) (c, Dir_y) = Some cy \<and> map_of (t_db S) c = Some t
        \<and> dim0 b = p \<and> dim1 b = q \<and> dim2 b = 27
        \<and> dim0 cx = p \<and> dim1 cx = q \<and> dim2 cx = 27
        \<and> dim0 cy = p \<and> dim1 cy = q \<and> dim2 cy = 27
        \<and> dim0 t = p \<and> dim1 t = q \<and> dim2 t = 27
        \<and> (\<forall>i<p. \<forall>j<q. \<forall>k<27.
              at3 b i j k = b_conv hs c (z_vec res k) Fv ?topo i j * (1 / 1000000)
            \<and> at3 cx i j k = c_conv hs c Dir_x (z_vec res k) fx i j * (1 / 1000000)
            \<and> at3 cy i j k = c_conv hs c Dir_y (z_vec res k) fy i j * (1 / 1000000)
            \<and> at3 t i j k = at3 b i j k + at3 cx i j k + at3 cy i j k)"
      by (intro exI [of _ b] exI [of _ "cerr_x r"] exI [of _ "cerr_y r"] exI [of _ "total r"]) simp
  qed
  have lS: "loads_setup (b_db S) ?topo res = Inr l"
    unfolding Seq using l by (simp add: write_files_def)
  from pq p2 q2 lS lsh(1,2) fx fy fxs fys per show ?thesis
    by blast
qed


lemma stress_field_succeeds:
  assumes res: "0 < res"
    and p: "2 \<le> int (nrow dem) - kernel_len res + 1"
    and q: "2 \<le> int (ncol dem) - kernel_len res + 1"
  shows "\<exists>S. stress_field hs dem res = Inr S"
proof -
  let ?topo = "np_scale2 dem (- 1)"
  let ?bx = "int (nrow dem) - kernel_len res + 1"
  let ?by = "int (ncol dem) - kernel_len res + 1"
  have tshape: "nrow ?topo = nrow dem" "ncol ?topo = ncol dem"
    by (simp_all add: np_scale2_def)
  define b_stress where
    "b_stress = \<lparr> dim0 = nat ?bx, dim1 = nat ?by, dim2 = nat (z_len res), at3 = junk hs \<rparr>"
  have e: "np_empty (junk hs) ?bx ?by (z_len res) = Inr b_stress"
    using p q by (simp add: np_empty_def b_stress_def)
  have e': "np_empty (junk hs) (int (nrow ?topo) - kernel_len res + 1)
      (int (ncol ?topo) - kernel_len res + 1) (z_len res) = Inr b_stress"
    using e by (simp only: tshape)
  define pp where "pp = nat ?bx"
  define qq where "qq = nat ?by"
  have big: "2 \<le> pp" "2 \<le> qq"
    using p q by (simp_all add: pp_def qq_def)
  from kernel_len_ge_1 [OF res] p q have le: "pp \<le> nrow ?topo" "qq \<le> ncol ?topo"
    unfolding tshape pp_def qq_def by linarith+
  have "\<forall>c\<in>set comp_list. \<exists>b. b_dataset hs res ?topo b_stress c = Inr b"
    using b_dataset_char [OF e', of hs] by blast
  from for_comps_succeeds [OF this] obtain bdb
    where bd: "for_comps (b_dataset hs res ?topo b_stress) comp_list = Inr bdb" ..
  have bc: "\<And>c. \<exists>b. map_of bdb c = Some b \<and> dim0 b = pp \<and> dim1 b = qq \<and> dim2 b = 27"
  proof -
    fix c
    from for_comps_Inr [OF bd] set_comp_list [of c] obtain b
      where b: "b_dataset hs res ?topo b_stress c = Inr b" "map_of bdb c = Some b"
      by blast
    from b_dataset_char [OF e', of hs c] b(1)
    have "dim0 b = pp \<and> dim1 b = qq \<and> dim2 b = 27"
      unfolding tshape pp_def qq_def by auto
    with b(2) show "\<exists>b. map_of bdb c = Some b \<and> dim0 b = pp \<and> dim1 b = qq \<and> dim2 b = 27"
      by blast
  qed
  from bc [of XX] obtain bxx where bxx: "map_of bdb XX = Some bxx" "dim0 bxx = pp" "dim1 bxx = qq"
      "dim2 bxx = 27" by blast
  from bc [of XY] obtain bxy where bxy: "map_of bdb XY = Some bxy" "dim0 bxy = pp" "dim1 bxy = qq"
      "dim2 bxy = 27" by blast
  from bc [of YY] obtain byy where byy: "map_of bdb YY = Some byy" "dim0 byy = pp" "dim1 byy = qq"
      "dim2 byy = 27" by blast
  have pos: "0 < dim2 bxx" "0 < dim2 bxy" "0 < dim2 byy"
    using bxx(4) bxy(4) byy(4) by simp_all
  note lc = loads_setup_char [OF bxx(1,2,3) pos(1) bxy(1) pos(2) byy(1) pos(3) big le, of res]
  then obtain l where l: "loads_setup bdb ?topo res = Inr l"
    by blast
  have cs: "nrow (centered ?topo (int pp, int qq)) = pp" "ncol (centered ?topo (int pp, int qq)) = qq"
    using le by (simp_all add: centered_inside)
  from l lc have lsh: "nrow (topo_c l) = pp" "ncol (topo_c l) = qq"
      "nrow (topo_dx l) = pp" "ncol (topo_dx l) = qq" "nrow (topo_dy l) = pp" "ncol (topo_dy l) = qq"
      "nrow (b_xx_top l) = pp" "ncol (b_xx_top l) = qq" "nrow (b_xy_top l) = pp" "ncol (b_xy_top l) = qq"
      "nrow (b_yy_top l) = pp" "ncol (b_yy_top l) = qq"
    using cs bxx bxy byy by auto
  from Fh_char [OF lsh(1,2) lsh(3,4) lsh(7,8) lsh(9,10) lsh(5,6)] obtain fx
    where fx: "Fh_x l = Inr fx" "nrow fx = pp" "ncol fx = qq"
    by (auto simp: Fh_x_def)
  from Fh_char [OF lsh(1,2) lsh(5,6) lsh(11,12) lsh(9,10) lsh(3,4)] obtain fy
    where fy: "Fh_y l = Inr fy" "nrow fy = pp" "ncol fy = qq"
    by (auto simp: Fh_y_def)
  have "\<forall>c\<in>set comp_list. \<exists>r. c_body hs res bdb fx fy (np_zeros pp qq (nat (z_len res))) c = Inr r"
  proof
    fix c
    from bc [of c] obtain b where b: "map_of bdb c = Some b" "dim0 b = pp" "dim1 b = qq" "dim2 b = 27"
      by blast
    from c_body_char [OF b fx(2,3) fy(2,3), of hs res]
    show "\<exists>r. c_body hs res bdb fx fy (np_zeros pp qq (nat (z_len res))) c = Inr r"
      by blast
  qed
  from for_comps_succeeds [OF this] obtain rs
    where rs: "for_comps (c_body hs res bdb fx fy (np_zeros pp qq (nat (z_len res)))) comp_list = Inr rs" ..
  have "stress_field hs dem res = Inr (write_files bdb rs)"
    unfolding stress_field_def Let_def size_output_def
    using res e bd l fx(1) fy(1) rs lsh(1,2) tshape by simp
  then show ?thesis ..
qed


lemma np_binop3_defined_iff:
  "(\<exists>r. np_binop3 f x y = Inr r) \<longleftrightarrow>
     (dim0 x = dim0 y \<or> dim0 x = 1 \<or> dim0 y = 1)
   \<and> (dim1 x = dim1 y \<or> dim1 x = 1 \<or> dim1 y = 1)
   \<and> (dim2 x = dim2 y \<or> dim2 x = 1 \<or> dim2 y = 1)"
  by (auto simp: np_binop3_def bc_dim_def split: option.splits if_splits)

text \<open>Two arrays without an axis of length 1 and of different shapes do not add.\<close>

lemma np_binop3_mismatch:
  assumes "2 \<le> dim0 x" "2 \<le> dim1 x" "2 \<le> dim2 x"
    and "2 \<le> dim0 y" "2 \<le> dim1 y" "2 \<le> dim2 y"
    and "(dim0 x, dim1 x, dim2 x) \<noteq> (dim0 y, dim1 y, dim2 y)"
  shows "np_binop3 f x y = Inl ValueError"
  using assms by (auto simp: np_binop3_def bc_dim_def split: option.splits)

subsection \<open>The horizontal loading functions\<close>

lemma stress_field_loads_explicit:
  assumes S: "stress_field hs dem res = Inr S" and res: "0 < res"
  shows "loads_setup (b_db S) (np_scale2 dem (- 1)) res =
     Inr \<lparr> b_xx_top = \<lparr> nrow = nat (int (nrow dem) - kernel_len res + 1),
                         ncol = nat (int (ncol dem) - kernel_len res + 1),
                         at2 = (\<lambda>i j. at3 (the (map_of (b_db S) XX)) i j 0 * 1000000) \<rparr>,
           b_xy_top = \<lparr> nrow = nat (int (nrow dem) - kernel_len res + 1),
                         ncol = nat (int (ncol dem) - kernel_len res + 1),
                         at2 = (\<lambda>i j. at3 (the (map_of (b_db S) XY)) i j 0 * 1000000) \<rparr>,
           b_yy_top = \<lparr> nrow = nat (int (nrow dem) - kernel_len res + 1),
                         ncol = nat (int (ncol dem) - kernel_len res + 1),
                         at2 = (\<lambda>i j. at3 (the (map_of (b_db S) YY)) i j 0 * 1000000) \<rparr>,
           topo_c = centered (np_scale2 dem (- 1))
                      (int (nrow dem) - kernel_len res + 1, int (ncol dem) - kernel_len res + 1),
           topo_dy = (centered (np_scale2 dem (- 1))
                      (int (nrow dem) - kernel_len res + 1, int (ncol dem) - kernel_len res + 1))
              \<lparr> at2 := (\<lambda>i j. gradient1 (\<lambda>k. at2 (centered (np_scale2 dem (- 1))
                      (int (nrow dem) - kernel_len res + 1, int (ncol dem) - kernel_len res + 1)) k j)
                      (nat (int (nrow dem) - kernel_len res + 1)) (real_of_int res) i) \<rparr>,
           topo_dx = (centered (np_scale2 dem (- 1))
                      (int (nrow dem) - kernel_len res + 1, int (ncol dem) - kernel_len res + 1))
              \<lparr> at2 := (\<lambda>i j. gradient1 (\<lambda>k. at2 (centered (np_scale2 dem (- 1))
                      (int (nrow dem) - kernel_len res + 1, int (ncol dem) - kernel_len res + 1)) i k)
                      (nat (int (ncol dem) - kernel_len res + 1)) (real_of_int res) j) \<rparr> \<rparr>"
proof -
  let ?topo = "np_scale2 dem (- 1)"
  from stress_field_char [OF S res] obtain p q l fx fy where
    pq: "int p = int (nrow dem) - kernel_len res + 1" "int q = int (ncol dem) - kernel_len res + 1"
    and big: "2 \<le> p" "2 \<le> q"
    and l: "loads_setup (b_db S) ?topo res = Inr l"
    and lsh0: "nrow (topo_c l) = p" "ncol (topo_c l) = q"
    and fx: "Fh_x l = Inr fx" and fy: "Fh_y l = Inr fy"
    and fsh: "nrow fx = p" "ncol fx = q" "nrow fy = p" "ncol fy = q"
    and per0: "\<forall>c. \<exists>b cx cy t.
          map_of (b_db S) c = Some b \<and> map_of (c_db S) (c, Dir_x) = Some cx
        \<and> map_of (c_db S) (c, Dir_y) = Some cy \<and> map_of (t_db S) c = Some t
        \<and> dim0 b = p \<and> dim1 b = q \<and> dim2 b = 27
        \<and> dim0 cx = p \<and> dim1 cx = q \<and> dim2 cx = 27
        \<and> dim0 cy = p \<and> dim1 cy = q \<and> dim2 cy = 27
        \<and> dim0 t = p \<and> dim1 t = q \<and> dim2 t = 27
        \<and> (\<forall>i<p. \<forall>j<q. \<forall>k<27.
              at3 b i j k = b_conv hs c (z_vec res k) Fv (np_scale2 dem (- 1)) i j * (1 / 1000000)
            \<and> at3 cx i j k = c_conv hs c Dir_x (z_vec res k) fx i j * (1 / 1000000)
            \<and> at3 cy i j k = c_conv hs c Dir_y (z_vec res k) fy i j * (1 / 1000000)
            \<and> at3 t i j k = at3 b i j k + at3 cx i j k + at3 cy i j k)"
    by (elim exE conjE)
  have per: "\<exists>b. map_of (b_db S) c = Some b \<and> dim0 b = p \<and> dim1 b = q \<and> dim2 b = 27" for c
  proof -
    from per0 obtain b cx cy t where "map_of (b_db S) c = Some b \<and> map_of (c_db S) (c, Dir_x) = Some cx
        \<and> map_of (c_db S) (c, Dir_y) = Some cy \<and> map_of (t_db S) c = Some t
        \<and> dim0 b = p \<and> dim1 b = q \<and> dim2 b = 27
        \<and> dim0 cx = p \<and> dim1 cx = q \<and> dim2 cx = 27
        \<and> dim0 cy = p \<and> dim1 cy = q \<and> dim2 cy = 27
        \<and> dim0 t = p \<and> dim1 t = q \<and> dim2 t = 27
        \<and> (\<forall>i<p. \<forall>j<q. \<forall>k<27.
              at3 b i j k = b_conv hs c (z_vec res k) Fv (np_scale2 dem (- 1)) i j * (1 / 1000000)
            \<and> at3 cx i j k = c_conv hs c Dir_x (z_vec res k) fx i j * (1 / 1000000)
            \<and> at3 cy i j k = c_conv hs c Dir_y (z_vec res k) fy i j * (1 / 1000000)
            \<and> at3 t i j k = at3 b i j k + at3 cx i j k + at3 cy i j k)"
      by (elim allE [of _ c] exE)
    then show ?thesis by simp
  qed
  from per [of XX] obtain bxx where bxx: "map_of (b_db S) XX = Some bxx" "dim0 bxx = p"
      "dim1 bxx = q" "dim2 bxx = 27" by blast
  from per [of XY] obtain bxy where bxy: "map_of (b_db S) XY = Some bxy" "dim0 bxy = p"
      "dim1 bxy = q" "dim2 bxy = 27" by blast
  from per [of YY] obtain byy where byy: "map_of (b_db S) YY = Some byy" "dim0 byy = p"
      "dim1 byy = q" "dim2 byy = 27" by blast
  have pos: "0 < dim2 bxx" "0 < dim2 bxy" "0 < dim2 byy"
    using bxx(4) bxy(4) byy(4) by simp_all
  have tshape: "nrow ?topo = nrow dem" "ncol ?topo = ncol dem"
    by (simp_all add: np_scale2_def)
  from kernel_len_ge_1 [OF res] pq have le: "p \<le> nrow ?topo" "q \<le> ncol ?topo"
    unfolding tshape by linarith+
  have pn: "nat (int (nrow dem) - kernel_len res + 1) = p" "nat (int (ncol dem) - kernel_len res + 1) = q"
    using pq by linarith+
  show ?thesis
    unfolding loads_setup_char [OF bxx(1,2,3) pos(1) bxy(1) pos(2) byy(1) pos(3) big le, of res]
      pn pq [symmetric]
    by (simp add: bxx bxy byy)
qed

subsection \<open>The example DEM, evaluated\<close>

lemma ex_kernel_len: "kernel_len 150000 = 3"
  by (simp add: kernel_len_pos)

lemma ex_stress_field: "stress_field ex_hs ex_dem 150000 = Inr ex_files"
proof -
  have "\<exists>S. stress_field ex_hs ex_dem 150000 = Inr S"
    by (rule stress_field_succeeds) (simp_all add: ex_kernel_len ex_dem_def)
  then show ?thesis
    unfolding ex_files_def by auto
qed

lemma ex_dem_shape: "nrow ex_dem = 5" "ncol ex_dem = 5"
  by (simp_all add: ex_dem_def)

lemma ex_centered:
  "centered (np_scale2 ex_dem (- 1)) (3, 3) =
     \<lparr> nrow = 3, ncol = 3, at2 = (\<lambda>i j. at2 (np_scale2 ex_dem (- 1)) (i + 1) (j + 1)) \<rparr>"
proof -
  have n: "nrow (np_scale2 ex_dem (- 1)) = 5" "ncol (np_scale2 ex_dem (- 1)) = 5"
    by (simp_all add: np_scale2_def ex_dem_shape)
  have "centered (np_scale2 ex_dem (- 1)) (3, 3) =
      \<lparr> nrow = nat 3, ncol = nat 3,
        at2 = (\<lambda>i j. at2 (np_scale2 ex_dem (- 1))
                 (i + nat ((int (nrow (np_scale2 ex_dem (- 1))) - 3) div 2))
                 (j + nat ((int (ncol (np_scale2 ex_dem (- 1))) - 3) div 2))) \<rparr>"
    by (rule centered_inside) (simp_all add: n)
  then show ?thesis
    by (simp add: n)
qed

lemma ex_topo_at: "at2 (np_scale2 ex_dem (- 1)) i j = - real (j * j)"
  by (simp add: np_scale2_def ex_dem_def)

lemma ex_loads_setup:
  "loads_setup (b_db ex_files) (np_scale2 ex_dem (- 1)) 150000 = Inr ex_loads"
  unfolding ex_loads_def
  by (simp add: stress_field_loads_explicit [OF ex_stress_field])

lemma ex_topo_c:
  "topo_c ex_loads = centered (np_scale2 ex_dem (- 1)) (3, 3)"
  unfolding ex_loads_def
  by (simp add: stress_field_loads_explicit [OF ex_stress_field] ex_kernel_len ex_dem_shape)

lemma ex_topo_dx:
  "at2 (topo_dx ex_loads) i j =
     gradient1 (\<lambda>k. at2 (centered (np_scale2 ex_dem (- 1)) (3, 3)) i k) 3 150000 j"
  unfolding ex_loads_def
  by (simp add: stress_field_loads_explicit [OF ex_stress_field] ex_kernel_len ex_dem_shape)

lemma ex_topo_dx_border: "at2 (topo_dx ex_loads) 0 0 = - 1 / 50000"
  by (simp add: ex_topo_dx gradient1_def ex_centered ex_topo_at)


lemma ex_dataset_dims:
  "dim0 (the (map_of (b_db ex_files) c)) = 3 \<and> dim1 (the (map_of (b_db ex_files) c)) = 3
   \<and> dim2 (the (map_of (b_db ex_files) c)) = 27
   \<and> dim0 (the (map_of (t_db ex_files) c)) = 3 \<and> dim1 (the (map_of (t_db ex_files) c)) = 3
   \<and> dim2 (the (map_of (t_db ex_files) c)) = 27"
proof -
  have r: "(0::int) < 150000" by simp
  from stress_field_char [OF ex_stress_field r] obtain p q l fx fy where
    pq: "int p = int (nrow ex_dem) - kernel_len 150000 + 1" "int q = int (ncol ex_dem) - kernel_len 150000 + 1"
    and big: "2 \<le> p" "2 \<le> q"
    and l: "loads_setup (b_db ex_files) (np_scale2 ex_dem (- 1)) 150000 = Inr l"
    and lsh: "nrow (topo_c l) = p" "ncol (topo_c l) = q"
    and fx: "Fh_x l = Inr fx" and fy: "Fh_y l = Inr fy"
    and fsh: "nrow fx = p" "ncol fx = q" "nrow fy = p" "ncol fy = q"
    and per0: "\<forall>c. \<exists>b cx cy t.
          map_of (b_db ex_files) c = Some b \<and> map_of (c_db ex_files) (c, Dir_x) = Some cx
        \<and> map_of (c_db ex_files) (c, Dir_y) = Some cy \<and> map_of (t_db ex_files) c = Some t
        \<and> dim0 b = p \<and> dim1 b = q \<and> dim2 b = 27
        \<and> dim0 cx = p \<and> dim1 cx = q \<and> dim2 cx = 27
        \<and> dim0 cy = p \<and> dim1 cy = q \<and> dim2 cy = 27
        \<and> dim0 t = p \<and> dim1 t = q \<and> dim2 t = 27
        \<and> (\<forall>i<p. \<forall>j<q. \<forall>k<27.
              at3 b i j k = b_conv ex_hs c (z_vec 150000 k) Fv (np_scale2 ex_dem (- 1)) i j * (1 / 1000000)
            \<and> at3 cx i j k = c_conv ex_hs c Dir_x (z_vec 150000 k) fx i j * (1 / 1000000)
            \<and> at3 cy i j k = c_conv ex_hs c Dir_y (z_vec 150000 k) fy i j * (1 / 1000000)
            \<and> at3 t i j k = at3 b i j k + at3 cx i j k + at3 cy i j k)"
    by (elim exE conjE)
  from per0 obtain b cx cy t where
    m: "map_of (b_db ex_files) c = Some b" "map_of (c_db ex_files) (c, Dir_x) = Some cx"
      "map_of (c_db ex_files) (c, Dir_y) = Some cy" "map_of (t_db ex_files) c = Some t"
    and d: "dim0 b = p" "dim1 b = q" "dim2 b = 27" "dim0 cx = p" "dim1 cx = q" "dim2 cx = 27"
      "dim0 cy = p" "dim1 cy = q" "dim2 cy = 27" "dim0 t = p" "dim1 t = q" "dim2 t = 27"
    and v: "\<forall>i<p. \<forall>j<q. \<forall>k<27.
              at3 b i j k = b_conv ex_hs c (z_vec 150000 k) Fv (np_scale2 ex_dem (- 1)) i j * (1 / 1000000)
            \<and> at3 cx i j k = c_conv ex_hs c Dir_x (z_vec 150000 k) fx i j * (1 / 1000000)
            \<and> at3 cy i j k = c_conv ex_hs c Dir_y (z_vec 150000 k) fy i j * (1 / 1000000)
            \<and> at3 t i j k = at3 b i j k + at3 cx i j k + at3 cy i j k"
    by (elim allE [of _ c] exE conjE)
  from pq have "p = 3" "q = 3"
    by (simp_all add: ex_kernel_len ex_dem_shape)
  with m d show ?thesis
    by simp
qed


subsection \<open>The arguments of the stress functions\<close>

lemma args_of_block_row:
  "args_of (block_row phis fault_df df i pt) =
     \<lparr> a_strike = f_strike (fault_df ! pt), a_dip = f_dip (fault_df ! pt),
       a_rho = 2700, a_g = 981 / 100,
       a_mxx = f_xx_stress (fault_df ! pt) * 1000000,
       a_myy = f_yy_stress (fault_df ! pt) * 1000000,
       a_mxy = f_xy_stress (fault_df ! pt) * 1000000,
       a_mzz = f_zz_stress (fault_df ! pt) * 1000000,
       a_mxz = f_xz_stress (fault_df ! pt) * 1000000,
       a_myz = f_yz_stress (fault_df ! pt) * 1000000,
       a_txx = p_txx (df ! i), a_tyy = p_tyy (df ! i), a_txy = p_txy (df ! i),
       a_depth = f_z (fault_df ! pt) * 1000 \<rparr>"
  by (simp add: args_of_def block_row_def fill_row_def scale_units_def rho_def g_def)

section \<open>The claims on the stress field\<close>

text \<open>
  Claim C3, amended.  Before the Cerruti stage, the horizontal loading functions computed
  from the re-centered topography and the top depth slice of the Boussinesq \<open>xx\<close>,
  \<open>xy\<close>, \<open>yy\<close> datasets (times \<open>1e6\<close>, from MPa back to Pa) satisfy
  \<open>Fh_x = topo * Fv * topo_dx + b_xx * topo_dx + b_xy * topo_dy\<close> and
  \<open>Fh_y = topo * Fv * topo_dy + b_yy * topo_dy + b_xy * topo_dx\<close> at every grid point,
  where a partial derivative of the re-centered topography is the central difference
  over two grid steps at an interior point, and the one-sided difference over one grid
  step, inside the re-centered grid, at a point of a border row or column.
\<close>

theorem horizontal_loading_functions:
  assumes S: "stress_field hs dem res = Inr S" and res: "0 < res"
  shows "\<exists>l fx fy bxx bxy byy.
      loads_setup (b_db S) (np_scale2 dem (- 1)) res = Inr l
    \<and> Fh_x l = Inr fx \<and> Fh_y l = Inr fy
    \<and> map_of (b_db S) XX = Some bxx \<and> map_of (b_db S) XY = Some bxy
    \<and> map_of (b_db S) YY = Some byy
    \<and> topo_c l = centered (np_scale2 dem (- 1)) (int (dim0 bxx), int (dim1 bxx))
    \<and> int (nrow (topo_c l)) = int (nrow dem) - kernel_len res + 1
    \<and> int (ncol (topo_c l)) = int (ncol dem) - kernel_len res + 1
    \<and> 2 \<le> nrow (topo_c l) \<and> 2 \<le> ncol (topo_c l)
    \<and> nrow fx = nrow (topo_c l) \<and> ncol fx = ncol (topo_c l)
    \<and> nrow fy = nrow (topo_c l) \<and> ncol fy = ncol (topo_c l)
    \<and> (\<forall>i<nrow (topo_c l). \<forall>j<ncol (topo_c l).
          at2 (b_xx_top l) i j = at3 bxx i j 0 * 1000000
        \<and> at2 (b_xy_top l) i j = at3 bxy i j 0 * 1000000
        \<and> at2 (b_yy_top l) i j = at3 byy i j 0 * 1000000
        \<and> at2 (topo_dx l) i j =
            (if j = 0 then (at2 (topo_c l) i 1 - at2 (topo_c l) i 0) / real_of_int res
             else if j = ncol (topo_c l) - 1
             then (at2 (topo_c l) i (ncol (topo_c l) - 1)
                    - at2 (topo_c l) i (ncol (topo_c l) - 2)) / real_of_int res
             else (at2 (topo_c l) i (j + 1) - at2 (topo_c l) i (j - 1)) / (2 * real_of_int res))
        \<and> at2 (topo_dy l) i j =
            (if i = 0 then (at2 (topo_c l) 1 j - at2 (topo_c l) 0 j) / real_of_int res
             else if i = nrow (topo_c l) - 1
             then (at2 (topo_c l) (nrow (topo_c l) - 1) j
                    - at2 (topo_c l) (nrow (topo_c l) - 2) j) / real_of_int res
             else (at2 (topo_c l) (i + 1) j - at2 (topo_c l) (i - 1) j) / (2 * real_of_int res))
        \<and> at2 fx i j =
            at2 (topo_c l) i j * Fv * at2 (topo_dx l) i j
            + (at2 (b_xx_top l) i j * at2 (topo_dx l) i j
               + at2 (b_xy_top l) i j * at2 (topo_dy l) i j)
        \<and> at2 fy i j =
            at2 (topo_c l) i j * Fv * at2 (topo_dy l) i j
            + (at2 (b_yy_top l) i j * at2 (topo_dy l) i j
               + at2 (b_xy_top l) i j * at2 (topo_dx l) i j))"
proof -
  let ?topo = "np_scale2 dem (- 1)"
  from stress_field_char [OF S res] obtain p q l fx fy where
    pq: "int p = int (nrow dem) - kernel_len res + 1" "int q = int (ncol dem) - kernel_len res + 1"
    and big: "2 \<le> p" "2 \<le> q"
    and l: "loads_setup (b_db S) ?topo res = Inr l"
    and lsh0: "nrow (topo_c l) = p" "ncol (topo_c l) = q"
    and fx: "Fh_x l = Inr fx" and fy: "Fh_y l = Inr fy"
    and fsh: "nrow fx = p" "ncol fx = q" "nrow fy = p" "ncol fy = q"
    and per0: "\<forall>c. \<exists>b cx cy t.
          map_of (b_db S) c = Some b \<and> map_of (c_db S) (c, Dir_x) = Some cx
        \<and> map_of (c_db S) (c, Dir_y) = Some cy \<and> map_of (t_db S) c = Some t
        \<and> dim0 b = p \<and> dim1 b = q \<and> dim2 b = 27
        \<and> dim0 cx = p \<and> dim1 cx = q \<and> dim2 cx = 27
        \<and> dim0 cy = p \<and> dim1 cy = q \<and> dim2 cy = 27
        \<and> dim0 t = p \<and> dim1 t = q \<and> dim2 t = 27
        \<and> (\<forall>i<p. \<forall>j<q. \<forall>k<27.
              at3 b i j k = b_conv hs c (z_vec res k) Fv (np_scale2 dem (- 1)) i j * (1 / 1000000)
            \<and> at3 cx i j k = c_conv hs c Dir_x (z_vec res k) fx i j * (1 / 1000000)
            \<and> at3 cy i j k = c_conv hs c Dir_y (z_vec res k) fy i j * (1 / 1000000)
            \<and> at3 t i j k = at3 b i j k + at3 cx i j k + at3 cy i j k)"
    by (elim exE conjE)
  have per: "\<exists>b. map_of (b_db S) c = Some b \<and> dim0 b = p \<and> dim1 b = q \<and> dim2 b = 27" for c
  proof -
    from per0 obtain b cx cy t where "map_of (b_db S) c = Some b \<and> map_of (c_db S) (c, Dir_x) = Some cx
        \<and> map_of (c_db S) (c, Dir_y) = Some cy \<and> map_of (t_db S) c = Some t
        \<and> dim0 b = p \<and> dim1 b = q \<and> dim2 b = 27
        \<and> dim0 cx = p \<and> dim1 cx = q \<and> dim2 cx = 27
        \<and> dim0 cy = p \<and> dim1 cy = q \<and> dim2 cy = 27
        \<and> dim0 t = p \<and> dim1 t = q \<and> dim2 t = 27
        \<and> (\<forall>i<p. \<forall>j<q. \<forall>k<27.
              at3 b i j k = b_conv hs c (z_vec res k) Fv (np_scale2 dem (- 1)) i j * (1 / 1000000)
            \<and> at3 cx i j k = c_conv hs c Dir_x (z_vec res k) fx i j * (1 / 1000000)
            \<and> at3 cy i j k = c_conv hs c Dir_y (z_vec res k) fy i j * (1 / 1000000)
            \<and> at3 t i j k = at3 b i j k + at3 cx i j k + at3 cy i j k)"
      by (elim allE [of _ c] exE)
    then show ?thesis by simp
  qed
  from per [of XX] obtain bxx where bxx: "map_of (b_db S) XX = Some bxx" "dim0 bxx = p"
      "dim1 bxx = q" "dim2 bxx = 27" by blast
  from per [of XY] obtain bxy where bxy: "map_of (b_db S) XY = Some bxy" "dim0 bxy = p"
      "dim1 bxy = q" "dim2 bxy = 27" by blast
  from per [of YY] obtain byy where byy: "map_of (b_db S) YY = Some byy" "dim0 byy = p"
      "dim1 byy = q" "dim2 byy = 27" by blast
  have pos: "0 < dim2 bxx" "0 < dim2 bxy" "0 < dim2 byy"
    using bxx(4) bxy(4) byy(4) by simp_all
  have tshape: "nrow ?topo = nrow dem" "ncol ?topo = ncol dem"
    by (simp_all add: np_scale2_def)
  from kernel_len_ge_1 [OF res] pq have le: "p \<le> nrow ?topo" "q \<le> ncol ?topo"
    unfolding tshape by linarith+
  note lc = loads_setup_char [OF bxx(1,2,3) pos(1) bxy(1) pos(2) byy(1) pos(3) big le, of res]
  have cs: "nrow (centered ?topo (int p, int q)) = p" "ncol (centered ?topo (int p, int q)) = q"
    using le by (simp_all add: centered_inside)
  from l lc have tc: "topo_c l = centered ?topo (int p, int q)"
    by auto
  from l lc have bt: "at2 (b_xx_top l) = (\<lambda>i j. at3 bxx i j 0 * 1000000)"
      "at2 (b_xy_top l) = (\<lambda>i j. at3 bxy i j 0 * 1000000)"
      "at2 (b_yy_top l) = (\<lambda>i j. at3 byy i j 0 * 1000000)"
    by auto
  from l lc have dx: "at2 (topo_dx l) = (\<lambda>i j. gradient1 (\<lambda>k. at2 (topo_c l) i k) q (real_of_int res) j)"
    and dy: "at2 (topo_dy l) = (\<lambda>i j. gradient1 (\<lambda>k. at2 (topo_c l) k j) p (real_of_int res) i)"
    by auto
  from l lc have lsh: "nrow (topo_c l) = p" "ncol (topo_c l) = q"
      "nrow (topo_dx l) = p" "ncol (topo_dx l) = q" "nrow (topo_dy l) = p" "ncol (topo_dy l) = q"
      "nrow (b_xx_top l) = p" "ncol (b_xx_top l) = q" "nrow (b_xy_top l) = p" "ncol (b_xy_top l) = q"
      "nrow (b_yy_top l) = p" "ncol (b_yy_top l) = q"
    using cs bxx bxy byy by auto
  from Fh_char [OF lsh(1,2) lsh(3,4) lsh(7,8) lsh(9,10) lsh(5,6)] fx
  have fxv: "nrow fx = p" "ncol fx = q"
    "\<forall>i<p. \<forall>j<q. at2 fx i j =
            at2 (topo_c l) i j * Fv * at2 (topo_dx l) i j
            + (at2 (b_xx_top l) i j * at2 (topo_dx l) i j
               + at2 (b_xy_top l) i j * at2 (topo_dy l) i j)"
    by (auto simp: Fh_x_def)
  from Fh_char [OF lsh(1,2) lsh(5,6) lsh(11,12) lsh(9,10) lsh(3,4)] fy
  have fyv: "nrow fy = p" "ncol fy = q"
    "\<forall>i<p. \<forall>j<q. at2 fy i j =
            at2 (topo_c l) i j * Fv * at2 (topo_dy l) i j
            + (at2 (b_yy_top l) i j * at2 (topo_dy l) i j
               + at2 (b_xy_top l) i j * at2 (topo_dx l) i j)"
    by (auto simp: Fh_y_def)
  have grid: "\<forall>i<nrow (topo_c l). \<forall>j<ncol (topo_c l).
          at2 (b_xx_top l) i j = at3 bxx i j 0 * 1000000
        \<and> at2 (b_xy_top l) i j = at3 bxy i j 0 * 1000000
        \<and> at2 (b_yy_top l) i j = at3 byy i j 0 * 1000000
        \<and> at2 (topo_dx l) i j =
            (if j = 0 then (at2 (topo_c l) i 1 - at2 (topo_c l) i 0) / real_of_int res
             else if j = ncol (topo_c l) - 1
             then (at2 (topo_c l) i (ncol (topo_c l) - 1)
                    - at2 (topo_c l) i (ncol (topo_c l) - 2)) / real_of_int res
             else (at2 (topo_c l) i (j + 1) - at2 (topo_c l) i (j - 1)) / (2 * real_of_int res))
        \<and> at2 (topo_dy l) i j =
            (if i = 0 then (at2 (topo_c l) 1 j - at2 (topo_c l) 0 j) / real_of_int res
             else if i = nrow (topo_c l) - 1
             then (at2 (topo_c l) (nrow (topo_c l) - 1) j
                    - at2 (topo_c l) (nrow (topo_c l) - 2) j) / real_of_int res
             else (at2 (topo_c l) (i + 1) j - at2 (topo_c l) (i - 1) j) / (2 * real_of_int res))
        \<and> at2 fx i j =
            at2 (topo_c l) i j * Fv * at2 (topo_dx l) i j
            + (at2 (b_xx_top l) i j * at2 (topo_dx l) i j
               + at2 (b_xy_top l) i j * at2 (topo_dy l) i j)
        \<and> at2 fy i j =
            at2 (topo_c l) i j * Fv * at2 (topo_dy l) i j
            + (at2 (b_yy_top l) i j * at2 (topo_dy l) i j
               + at2 (b_xy_top l) i j * at2 (topo_dx l) i j)"
    unfolding lsh(1,2) using fxv(3) fyv(3)
    by (simp add: bt dx dy gradient1_def)
  have tc': "topo_c l = centered ?topo (int (dim0 bxx), int (dim1 bxx))"
    using tc bxx by simp
  have big': "2 \<le> nrow (topo_c l)" "2 \<le> ncol (topo_c l)"
    using big lsh(1,2) by simp_all
  have pq': "int (nrow (topo_c l)) = int (nrow dem) - kernel_len res + 1"
      "int (ncol (topo_c l)) = int (ncol dem) - kernel_len res + 1"
    using pq lsh(1,2) by simp_all
  have fsh': "nrow fx = nrow (topo_c l)" "ncol fx = ncol (topo_c l)"
      "nrow fy = nrow (topo_c l)" "ncol fy = ncol (topo_c l)"
    using fxv(1,2) fyv(1,2) lsh(1,2) by simp_all
  show ?thesis
    by (intro exI conjI)
       (rule l fx fy bxx(1) bxy(1) byy(1) tc' pq' big' fsh' grid)+
qed


theorem horizontal_loading_functions_witness:
  "stress_field ex_hs ex_dem 150000 = Inr ex_files
   \<and> (0::int) < 150000
   \<and> loads_setup (b_db ex_files) (np_scale2 ex_dem (- 1)) 150000 = Inr ex_loads
   \<and> nrow (topo_c ex_loads) = 3 \<and> ncol (topo_c ex_loads) = 3
   \<and> at2 (topo_dx ex_loads) 1 0 = - 1 / 50000
   \<and> at2 (topo_dx ex_loads) 1 1 = - 1 / 37500
   \<and> at2 (topo_dx ex_loads) 1 2 = - 1 / 30000
   \<and> at2 (topo_dy ex_loads) 1 1 = 0
   \<and> (\<exists>fx. Fh_x ex_loads = Inr fx
        \<and> at2 fx 1 1 =
            at2 (topo_c ex_loads) 1 1 * Fv * at2 (topo_dx ex_loads) 1 1
            + (at2 (b_xx_top ex_loads) 1 1 * at2 (topo_dx ex_loads) 1 1
               + at2 (b_xy_top ex_loads) 1 1 * at2 (topo_dy ex_loads) 1 1))"
proof -
  have r: "(0::int) < 150000" by simp
  from horizontal_loading_functions [OF ex_stress_field r]
  obtain l fx fy bxx bxy byy where
    l: "loads_setup (b_db ex_files) (np_scale2 ex_dem (- 1)) 150000 = Inr l"
    and fx: "Fh_x l = Inr fx" and fy: "Fh_y l = Inr fy"
    and b: "map_of (b_db ex_files) XX = Some bxx" "map_of (b_db ex_files) XY = Some bxy"
      "map_of (b_db ex_files) YY = Some byy"
    and tc: "topo_c l = centered (np_scale2 ex_dem (- 1)) (int (dim0 bxx), int (dim1 bxx))"
    and sh: "int (nrow (topo_c l)) = int (nrow ex_dem) - kernel_len 150000 + 1"
      "int (ncol (topo_c l)) = int (ncol ex_dem) - kernel_len 150000 + 1"
    and big: "2 \<le> nrow (topo_c l)" "2 \<le> ncol (topo_c l)"
    and fsh: "nrow fx = nrow (topo_c l)" "ncol fx = ncol (topo_c l)"
      "nrow fy = nrow (topo_c l)" "ncol fy = ncol (topo_c l)"
    and grid: "\<forall>i<nrow (topo_c l). \<forall>j<ncol (topo_c l).
          at2 (b_xx_top l) i j = at3 bxx i j 0 * 1000000
        \<and> at2 (b_xy_top l) i j = at3 bxy i j 0 * 1000000
        \<and> at2 (b_yy_top l) i j = at3 byy i j 0 * 1000000
        \<and> at2 (topo_dx l) i j =
            (if j = 0 then (at2 (topo_c l) i 1 - at2 (topo_c l) i 0) / real_of_int 150000
             else if j = ncol (topo_c l) - 1
             then (at2 (topo_c l) i (ncol (topo_c l) - 1)
                    - at2 (topo_c l) i (ncol (topo_c l) - 2)) / real_of_int 150000
             else (at2 (topo_c l) i (j + 1) - at2 (topo_c l) i (j - 1)) / (2 * real_of_int 150000))
        \<and> at2 (topo_dy l) i j =
            (if i = 0 then (at2 (topo_c l) 1 j - at2 (topo_c l) 0 j) / real_of_int 150000
             else if i = nrow (topo_c l) - 1
             then (at2 (topo_c l) (nrow (topo_c l) - 1) j
                    - at2 (topo_c l) (nrow (topo_c l) - 2) j) / real_of_int 150000
             else (at2 (topo_c l) (i + 1) j - at2 (topo_c l) (i - 1) j) / (2 * real_of_int 150000))
        \<and> at2 fx i j =
            at2 (topo_c l) i j * Fv * at2 (topo_dx l) i j
            + (at2 (b_xx_top l) i j * at2 (topo_dx l) i j
               + at2 (b_xy_top l) i j * at2 (topo_dy l) i j)
        \<and> at2 fy i j =
            at2 (topo_c l) i j * Fv * at2 (topo_dy l) i j
            + (at2 (b_yy_top l) i j * at2 (topo_dy l) i j
               + at2 (b_xy_top l) i j * at2 (topo_dx l) i j)"
    by (elim exE conjE)
  from l have le: "l = ex_loads"
    by (simp add: ex_loads_setup)
  from sh have n: "nrow (topo_c ex_loads) = 3" "ncol (topo_c ex_loads) = 3"
    unfolding le by (simp_all add: ex_kernel_len ex_dem_shape)
  have T: "\<And>i j. at2 (topo_c ex_loads) i j = - real ((j + 1) * (j + 1))"
    by (simp add: ex_topo_c ex_centered ex_topo_at)
  have g10: "(1::nat) < nrow (topo_c ex_loads)" "(0::nat) < ncol (topo_c ex_loads)"
    and g11: "(1::nat) < ncol (topo_c ex_loads)" and g12: "(2::nat) < ncol (topo_c ex_loads)"
    by (simp_all add: n)
  from grid [unfolded le, rule_format, OF g10(1) g10(2)]
  have v10: "at2 (topo_dx ex_loads) 1 0 = - 1 / 50000"
    by (simp add: T)
  from grid [unfolded le, rule_format, OF g10(1) g11]
  have v11: "at2 (topo_dx ex_loads) 1 1 = - 1 / 37500"
    and w11: "at2 (topo_dy ex_loads) 1 1 = 0"
    and f11: "at2 fx 1 1 =
            at2 (topo_c ex_loads) 1 1 * Fv * at2 (topo_dx ex_loads) 1 1
            + (at2 (b_xx_top ex_loads) 1 1 * at2 (topo_dx ex_loads) 1 1
               + at2 (b_xy_top ex_loads) 1 1 * at2 (topo_dy ex_loads) 1 1)"
    by (simp_all add: T n)
  from grid [unfolded le, rule_format, OF g10(1) g12]
  have v12: "at2 (topo_dx ex_loads) 1 2 = - 1 / 30000"
    by (simp add: T n)
  from fx f11 have ex: "\<exists>fx. Fh_x ex_loads = Inr fx
        \<and> at2 fx 1 1 =
            at2 (topo_c ex_loads) 1 1 * Fv * at2 (topo_dx ex_loads) 1 1
            + (at2 (b_xx_top ex_loads) 1 1 * at2 (topo_dx ex_loads) 1 1
               + at2 (b_xy_top ex_loads) 1 1 * at2 (topo_dy ex_loads) 1 1)"
    unfolding le by blast
  from ex_stress_field r ex_loads_setup n v10 v11 v12 w11 ex show ?thesis
    by (intro conjI)
qed

text \<open>
  Claim C3 as stated fails at a border column.  The grid point \<open>(0, 0)\<close> of the
  re-centered topography is the point \<open>(1, 1)\<close> of the topography, whose two
  neighbours along the row are in the DEM; the derivative computed there is the
  one-sided difference \<open>-1/50000\<close>, not the centered difference \<open>-1/75000\<close>.
\<close>

theorem border_gradient_counterexample:
  "at2 (topo_c ex_loads) 0 0 = at2 (np_scale2 ex_dem (- 1)) 1 1
   \<and> at2 (topo_dx ex_loads) 0 0 = - 1 / 50000
   \<and> spec_centered_dx (np_scale2 ex_dem (- 1)) 150000 1 1 = - 1 / 75000"
  by (simp add: ex_topo_dx_border ex_topo_c ex_centered spec_centered_dx_def ex_topo_at)

text \<open>
  Claim C4.  For every stress component and every depth index, the combined dataset is
  the elementwise sum of the persisted Boussinesq dataset and the two Cerruti datasets
  of the component: the four arrays have the same shape, and an element of the sum is
  the sum of the three elements at the same index, with no other operation.
\<close>

theorem combined_field_is_sum:
  assumes S: "stress_field hs dem res = Inr S" and res: "0 < res"
  shows "\<exists>b cx cy t.
      map_of (b_db S) c = Some b \<and> map_of (c_db S) (c, Dir_x) = Some cx
    \<and> map_of (c_db S) (c, Dir_y) = Some cy \<and> map_of (t_db S) c = Some t
    \<and> dim0 b = dim0 t \<and> dim1 b = dim1 t \<and> dim2 b = dim2 t
    \<and> dim0 cx = dim0 t \<and> dim1 cx = dim1 t \<and> dim2 cx = dim2 t
    \<and> dim0 cy = dim0 t \<and> dim1 cy = dim1 t \<and> dim2 cy = dim2 t
    \<and> dim2 t = 27
    \<and> (\<forall>i<dim0 t. \<forall>j<dim1 t. \<forall>k<dim2 t.
          at3 t i j k = at3 b i j k + at3 cx i j k + at3 cy i j k)"
proof -
  from stress_field_char [OF S res] obtain p q l fx fy where
    pq: "int p = int (nrow dem) - kernel_len res + 1" "int q = int (ncol dem) - kernel_len res + 1"
    and big: "2 \<le> p" "2 \<le> q"
    and l: "loads_setup (b_db S) (np_scale2 dem (- 1)) res = Inr l"
    and lsh: "nrow (topo_c l) = p" "ncol (topo_c l) = q"
    and fx: "Fh_x l = Inr fx" and fy: "Fh_y l = Inr fy"
    and fsh: "nrow fx = p" "ncol fx = q" "nrow fy = p" "ncol fy = q"
    and per0: "\<forall>c. \<exists>b cx cy t.
          map_of (b_db S) c = Some b \<and> map_of (c_db S) (c, Dir_x) = Some cx
        \<and> map_of (c_db S) (c, Dir_y) = Some cy \<and> map_of (t_db S) c = Some t
        \<and> dim0 b = p \<and> dim1 b = q \<and> dim2 b = 27
        \<and> dim0 cx = p \<and> dim1 cx = q \<and> dim2 cx = 27
        \<and> dim0 cy = p \<and> dim1 cy = q \<and> dim2 cy = 27
        \<and> dim0 t = p \<and> dim1 t = q \<and> dim2 t = 27
        \<and> (\<forall>i<p. \<forall>j<q. \<forall>k<27.
              at3 b i j k = b_conv hs c (z_vec res k) Fv (np_scale2 dem (- 1)) i j * (1 / 1000000)
            \<and> at3 cx i j k = c_conv hs c Dir_x (z_vec res k) fx i j * (1 / 1000000)
            \<and> at3 cy i j k = c_conv hs c Dir_y (z_vec res k) fy i j * (1 / 1000000)
            \<and> at3 t i j k = at3 b i j k + at3 cx i j k + at3 cy i j k)"
    by (elim exE conjE)
  from per0 obtain b cx cy t where
    m: "map_of (b_db S) c = Some b" "map_of (c_db S) (c, Dir_x) = Some cx"
      "map_of (c_db S) (c, Dir_y) = Some cy" "map_of (t_db S) c = Some t"
    and d: "dim0 b = p" "dim1 b = q" "dim2 b = 27" "dim0 cx = p" "dim1 cx = q" "dim2 cx = 27"
      "dim0 cy = p" "dim1 cy = q" "dim2 cy = 27" "dim0 t = p" "dim1 t = q" "dim2 t = 27"
    and v: "\<forall>i<p. \<forall>j<q. \<forall>k<27.
              at3 b i j k = b_conv hs c (z_vec res k) Fv (np_scale2 dem (- 1)) i j * (1 / 1000000)
            \<and> at3 cx i j k = c_conv hs c Dir_x (z_vec res k) fx i j * (1 / 1000000)
            \<and> at3 cy i j k = c_conv hs c Dir_y (z_vec res k) fy i j * (1 / 1000000)
            \<and> at3 t i j k = at3 b i j k + at3 cx i j k + at3 cy i j k"
    by (elim allE [of _ c] exE conjE)
  have sum: "\<forall>i<dim0 t. \<forall>j<dim1 t. \<forall>k<dim2 t.
          at3 t i j k = at3 b i j k + at3 cx i j k + at3 cy i j k"
    using v unfolding d by blast
  have e: "dim0 b = dim0 t" "dim1 b = dim1 t" "dim2 b = dim2 t"
      "dim0 cx = dim0 t" "dim1 cx = dim1 t" "dim2 cx = dim2 t"
      "dim0 cy = dim0 t" "dim1 cy = dim1 t" "dim2 cy = dim2 t"
    using d by simp_all
  show ?thesis
    by (intro exI conjI) (rule m e d(12) sum)+
qed

theorem combined_field_is_sum_witness:
  "stress_field ex_hs ex_dem 150000 = Inr ex_files
   \<and> (0::int) < 150000
   \<and> dim0 (the (map_of (t_db ex_files) XX)) = 3
   \<and> dim1 (the (map_of (t_db ex_files) XX)) = 3
   \<and> dim2 (the (map_of (t_db ex_files) XX)) = 27
   \<and> at3 (the (map_of (t_db ex_files) XX)) 1 2 26 =
       at3 (the (map_of (b_db ex_files) XX)) 1 2 26
       + at3 (the (map_of (c_db ex_files) (XX, Dir_x))) 1 2 26
       + at3 (the (map_of (c_db ex_files) (XX, Dir_y))) 1 2 26"
proof -
  have r: "(0::int) < 150000" by simp
  from combined_field_is_sum [OF ex_stress_field r, of XX] obtain b cx cy t where
    m: "map_of (b_db ex_files) XX = Some b" "map_of (c_db ex_files) (XX, Dir_x) = Some cx"
      "map_of (c_db ex_files) (XX, Dir_y) = Some cy" "map_of (t_db ex_files) XX = Some t"
    and sum: "\<forall>i<dim0 t. \<forall>j<dim1 t. \<forall>k<dim2 t.
          at3 t i j k = at3 b i j k + at3 cx i j k + at3 cy i j k"
    by (elim exE conjE)
  from ex_dataset_dims [of XX] m have dt: "dim0 t = 3" "dim1 t = 3" "dim2 t = 27"
    by simp_all
  have "(1::nat) < dim0 t" "(2::nat) < dim1 t" "(26::nat) < dim2 t"
    by (simp_all add: dt)
  from sum [rule_format, OF this] have "at3 t 1 2 26 = at3 b 1 2 26 + at3 cx 1 2 26 + at3 cy 1 2 26" .
  with m dt ex_stress_field r show ?thesis
    by simp
qed

text \<open>
  Claim C5.  At the Combined stage the three summed contributions have the same shape for
  every component.  The topography is re-centered to the shape of the Boussinesq
  \<open>valid\<close> convolution, \<open>input - kernel + 1\<close> on each axis, before the gradients
  and the horizontal loads are computed at that shape; the crop is symmetric: it drops
  \<open>(kernel_len - 1) div 2\<close> rows and columns at the leading borders and as many at the
  trailing borders, one more there when \<open>kernel_len - 1\<close> is odd.  The Cerruti arrays
  are allocated at that shape with the 27 depths, and the \<open>same\<close> convolution keeps
  it, so that the sum is elementwise.  Every axis of the summed arrays has at least two
  entries, and the sum of two such arrays of different shapes fails with ValueError: no
  axis is broadcast.
\<close>

theorem contributions_share_shape:
  assumes S: "stress_field hs dem res = Inr S" and res: "0 < res"
  shows "\<exists>p q l fx fy.
      int p = int (nrow dem) - kernel_len res + 1 \<and> int q = int (ncol dem) - kernel_len res + 1
    \<and> 2 \<le> p \<and> 2 \<le> q
    \<and> centered (np_scale2 dem (- 1)) (int p, int q) =
         \<lparr> nrow = p, ncol = q,
           at2 = (\<lambda>i j. at2 (np_scale2 dem (- 1)) (i + nat ((kernel_len res - 1) div 2))
                                                   (j + nat ((kernel_len res - 1) div 2))) \<rparr>
    \<and> int (nrow dem) - (int p + (kernel_len res - 1) div 2) - (kernel_len res - 1) div 2
          = (kernel_len res - 1) mod 2
    \<and> int (ncol dem) - (int q + (kernel_len res - 1) div 2) - (kernel_len res - 1) div 2
          = (kernel_len res - 1) mod 2
    \<and> loads_setup (b_db S) (np_scale2 dem (- 1)) res = Inr l
    \<and> topo_c l = centered (np_scale2 dem (- 1)) (int p, int q)
    \<and> nrow (topo_dx l) = p \<and> ncol (topo_dx l) = q
    \<and> nrow (topo_dy l) = p \<and> ncol (topo_dy l) = q
    \<and> Fh_x l = Inr fx \<and> Fh_y l = Inr fy
    \<and> nrow fx = p \<and> ncol fx = q \<and> nrow fy = p \<and> ncol fy = q
    \<and> (\<forall>c. \<exists>b cx cy t.
          map_of (b_db S) c = Some b \<and> map_of (c_db S) (c, Dir_x) = Some cx
        \<and> map_of (c_db S) (c, Dir_y) = Some cy \<and> map_of (t_db S) c = Some t
        \<and> dim0 b = p \<and> dim1 b = q \<and> dim2 b = 27
        \<and> dim0 cx = p \<and> dim1 cx = q \<and> dim2 cx = 27
        \<and> dim0 cy = p \<and> dim1 cy = q \<and> dim2 cy = 27
        \<and> dim0 t = p \<and> dim1 t = q \<and> dim2 t = 27)
    \<and> (2 \<le> dim0 x \<and> 2 \<le> dim1 x \<and> 2 \<le> dim2 x
         \<and> 2 \<le> dim0 y \<and> 2 \<le> dim1 y \<and> 2 \<le> dim2 y
         \<and> (dim0 x, dim1 x, dim2 x) \<noteq> (dim0 y, dim1 y, dim2 y)
       \<longrightarrow> np_binop3 (+) x y = Inl ValueError)"
proof -
  from stress_field_char [OF S res] obtain p q l fx fy where
    pq: "int p = int (nrow dem) - kernel_len res + 1" "int q = int (ncol dem) - kernel_len res + 1"
    and big: "2 \<le> p" "2 \<le> q"
    and l: "loads_setup (b_db S) (np_scale2 dem (- 1)) res = Inr l"
    and lsh: "nrow (topo_c l) = p" "ncol (topo_c l) = q"
    and fx: "Fh_x l = Inr fx" and fy: "Fh_y l = Inr fy"
    and fsh: "nrow fx = p" "ncol fx = q" "nrow fy = p" "ncol fy = q"
    and per0: "\<forall>c. \<exists>b cx cy t.
          map_of (b_db S) c = Some b \<and> map_of (c_db S) (c, Dir_x) = Some cx
        \<and> map_of (c_db S) (c, Dir_y) = Some cy \<and> map_of (t_db S) c = Some t
        \<and> dim0 b = p \<and> dim1 b = q \<and> dim2 b = 27
        \<and> dim0 cx = p \<and> dim1 cx = q \<and> dim2 cx = 27
        \<and> dim0 cy = p \<and> dim1 cy = q \<and> dim2 cy = 27
        \<and> dim0 t = p \<and> dim1 t = q \<and> dim2 t = 27
        \<and> (\<forall>i<p. \<forall>j<q. \<forall>k<27.
              at3 b i j k = b_conv hs c (z_vec res k) Fv (np_scale2 dem (- 1)) i j * (1 / 1000000)
            \<and> at3 cx i j k = c_conv hs c Dir_x (z_vec res k) fx i j * (1 / 1000000)
            \<and> at3 cy i j k = c_conv hs c Dir_y (z_vec res k) fy i j * (1 / 1000000)
            \<and> at3 t i j k = at3 b i j k + at3 cx i j k + at3 cy i j k)"
    by (elim exE conjE)
  have tshape: "nrow (np_scale2 dem (- 1)) = nrow dem" "ncol (np_scale2 dem (- 1)) = ncol dem"
    by (simp_all add: np_scale2_def)
  from kernel_len_ge_1 [OF res] pq
  have le: "int p \<le> int (nrow (np_scale2 dem (- 1)))" "int q \<le> int (ncol (np_scale2 dem (- 1)))"
    unfolding tshape by linarith+
  have off: "(int (nrow (np_scale2 dem (- 1))) - int p) div 2 = (kernel_len res - 1) div 2"
      "(int (ncol (np_scale2 dem (- 1))) - int q) div 2 = (kernel_len res - 1) div 2"
    unfolding tshape pq by simp_all
  have "centered (np_scale2 dem (- 1)) (int p, int q) =
      \<lparr> nrow = nat (int p), ncol = nat (int q),
        at2 = (\<lambda>i j. at2 (np_scale2 dem (- 1))
                 (i + nat ((int (nrow (np_scale2 dem (- 1))) - int p) div 2))
                 (j + nat ((int (ncol (np_scale2 dem (- 1))) - int q) div 2))) \<rparr>"
    using le by (intro centered_inside) simp_all
  then have cen: "centered (np_scale2 dem (- 1)) (int p, int q) =
         \<lparr> nrow = p, ncol = q,
           at2 = (\<lambda>i j. at2 (np_scale2 dem (- 1)) (i + nat ((kernel_len res - 1) div 2))
                                                   (j + nat ((kernel_len res - 1) div 2))) \<rparr>"
    unfolding off by simp
  note ex = stress_field_loads_explicit [OF S res]
  from l ex have tc: "topo_c l = centered (np_scale2 dem (- 1)) (int p, int q)"
    unfolding pq by auto
  from l ex have gs: "nrow (topo_dx l) = nrow (topo_c l)" "ncol (topo_dx l) = ncol (topo_c l)"
      "nrow (topo_dy l) = nrow (topo_c l)" "ncol (topo_dy l) = ncol (topo_c l)"
    by auto
  have gsh: "nrow (topo_dx l) = p" "ncol (topo_dx l) = q" "nrow (topo_dy l) = p" "ncol (topo_dy l) = q"
    using gs lsh by simp_all
  have per: "\<forall>c. \<exists>b cx cy t.
          map_of (b_db S) c = Some b \<and> map_of (c_db S) (c, Dir_x) = Some cx
        \<and> map_of (c_db S) (c, Dir_y) = Some cy \<and> map_of (t_db S) c = Some t
        \<and> dim0 b = p \<and> dim1 b = q \<and> dim2 b = 27
        \<and> dim0 cx = p \<and> dim1 cx = q \<and> dim2 cx = 27
        \<and> dim0 cy = p \<and> dim1 cy = q \<and> dim2 cy = 27
        \<and> dim0 t = p \<and> dim1 t = q \<and> dim2 t = 27"
  proof
    fix c
    from per0 obtain b cx cy t where
      m: "map_of (b_db S) c = Some b" "map_of (c_db S) (c, Dir_x) = Some cx"
        "map_of (c_db S) (c, Dir_y) = Some cy" "map_of (t_db S) c = Some t"
      and d: "dim0 b = p" "dim1 b = q" "dim2 b = 27" "dim0 cx = p" "dim1 cx = q" "dim2 cx = 27"
        "dim0 cy = p" "dim1 cy = q" "dim2 cy = 27" "dim0 t = p" "dim1 t = q" "dim2 t = 27"
      and v: "\<forall>i<p. \<forall>j<q. \<forall>k<27.
                at3 b i j k = b_conv hs c (z_vec res k) Fv (np_scale2 dem (- 1)) i j * (1 / 1000000)
              \<and> at3 cx i j k = c_conv hs c Dir_x (z_vec res k) fx i j * (1 / 1000000)
              \<and> at3 cy i j k = c_conv hs c Dir_y (z_vec res k) fy i j * (1 / 1000000)
              \<and> at3 t i j k = at3 b i j k + at3 cx i j k + at3 cy i j k"
      by (elim allE [of _ c] exE conjE)
    show "\<exists>b cx cy t.
          map_of (b_db S) c = Some b \<and> map_of (c_db S) (c, Dir_x) = Some cx
        \<and> map_of (c_db S) (c, Dir_y) = Some cy \<and> map_of (t_db S) c = Some t
        \<and> dim0 b = p \<and> dim1 b = q \<and> dim2 b = 27
        \<and> dim0 cx = p \<and> dim1 cx = q \<and> dim2 cx = 27
        \<and> dim0 cy = p \<and> dim1 cy = q \<and> dim2 cy = 27
        \<and> dim0 t = p \<and> dim1 t = q \<and> dim2 t = 27"
      by (intro exI conjI) (rule m d)+
  qed
  have mr: "int (nrow dem) - (int p + (kernel_len res - 1) div 2) - (kernel_len res - 1) div 2
          = (kernel_len res - 1) mod 2"
    and mc: "int (ncol dem) - (int q + (kernel_len res - 1) div 2) - (kernel_len res - 1) div 2
          = (kernel_len res - 1) mod 2"
    unfolding pq by (simp_all add: algebra_simps)
  have bc: "2 \<le> dim0 x \<and> 2 \<le> dim1 x \<and> 2 \<le> dim2 x
         \<and> 2 \<le> dim0 y \<and> 2 \<le> dim1 y \<and> 2 \<le> dim2 y
         \<and> (dim0 x, dim1 x, dim2 x) \<noteq> (dim0 y, dim1 y, dim2 y)
       \<longrightarrow> np_binop3 (+) x y = Inl ValueError"
    by (intro impI np_binop3_mismatch) simp_all
  show ?thesis
    by (intro exI conjI) (rule pq big cen mr mc l tc gsh fx fy fsh per bc)+
qed


theorem contributions_share_shape_witness:
  "stress_field ex_hs ex_dem 150000 = Inr ex_files
   \<and> (0::int) < 150000
   \<and> kernel_len 150000 = 3
   \<and> nrow ex_dem = 5 \<and> ncol ex_dem = 5
   \<and> nrow (topo_c ex_loads) = 3 \<and> ncol (topo_c ex_loads) = 3
   \<and> at2 (topo_c ex_loads) 0 0 = at2 (np_scale2 ex_dem (- 1)) 1 1
   \<and> dim0 (the (map_of (b_db ex_files) ZZ)) = 3
   \<and> dim0 (the (map_of (c_db ex_files) (ZZ, Dir_x))) = 3
   \<and> dim0 (the (map_of (c_db ex_files) (ZZ, Dir_y))) = 3
   \<and> dim2 (the (map_of (c_db ex_files) (ZZ, Dir_y))) = 27
   \<and> (dim0 ex_a3, dim1 ex_a3, dim2 ex_a3) = (2, 2, 2)
   \<and> (dim0 ex_b3, dim1 ex_b3, dim2 ex_b3) = (3, 2, 2)
   \<and> np_binop3 (+) ex_a3 ex_b3 = Inl ValueError"
proof -
  have r: "(0::int) < 150000" by simp
  from contributions_share_shape [OF ex_stress_field r, of ex_a3 ex_b3]
  obtain p q l fx fy where
    pq: "int p = int (nrow ex_dem) - kernel_len 150000 + 1"
      "int q = int (ncol ex_dem) - kernel_len 150000 + 1"
    and big: "2 \<le> p" "2 \<le> q"
    and cen: "centered (np_scale2 ex_dem (- 1)) (int p, int q) =
         \<lparr> nrow = p, ncol = q,
           at2 = (\<lambda>i j. at2 (np_scale2 ex_dem (- 1)) (i + nat ((kernel_len 150000 - 1) div 2))
                                                   (j + nat ((kernel_len 150000 - 1) div 2))) \<rparr>"
    and mr: "int (nrow ex_dem) - (int p + (kernel_len 150000 - 1) div 2) - (kernel_len 150000 - 1) div 2
          = (kernel_len 150000 - 1) mod 2"
    and mc: "int (ncol ex_dem) - (int q + (kernel_len 150000 - 1) div 2) - (kernel_len 150000 - 1) div 2
          = (kernel_len 150000 - 1) mod 2"
    and l: "loads_setup (b_db ex_files) (np_scale2 ex_dem (- 1)) 150000 = Inr l"
    and tc: "topo_c l = centered (np_scale2 ex_dem (- 1)) (int p, int q)"
    and gsh: "nrow (topo_dx l) = p" "ncol (topo_dx l) = q" "nrow (topo_dy l) = p" "ncol (topo_dy l) = q"
    and fx: "Fh_x l = Inr fx" and fy: "Fh_y l = Inr fy"
    and fsh: "nrow fx = p" "ncol fx = q" "nrow fy = p" "ncol fy = q"
    and per: "\<forall>c. \<exists>b cx cy t.
          map_of (b_db ex_files) c = Some b \<and> map_of (c_db ex_files) (c, Dir_x) = Some cx
        \<and> map_of (c_db ex_files) (c, Dir_y) = Some cy \<and> map_of (t_db ex_files) c = Some t
        \<and> dim0 b = p \<and> dim1 b = q \<and> dim2 b = 27
        \<and> dim0 cx = p \<and> dim1 cx = q \<and> dim2 cx = 27
        \<and> dim0 cy = p \<and> dim1 cy = q \<and> dim2 cy = 27
        \<and> dim0 t = p \<and> dim1 t = q \<and> dim2 t = 27"
    and bc: "2 \<le> dim0 ex_a3 \<and> 2 \<le> dim1 ex_a3 \<and> 2 \<le> dim2 ex_a3
         \<and> 2 \<le> dim0 ex_b3 \<and> 2 \<le> dim1 ex_b3 \<and> 2 \<le> dim2 ex_b3
         \<and> (dim0 ex_a3, dim1 ex_a3, dim2 ex_a3) \<noteq> (dim0 ex_b3, dim1 ex_b3, dim2 ex_b3)
       \<longrightarrow> np_binop3 (+) ex_a3 ex_b3 = Inl ValueError"
    by (elim exE conjE)
  from pq have p3: "p = 3" "q = 3"
    by (simp_all add: ex_kernel_len ex_dem_shape)
  from l have le: "l = ex_loads"
    by (simp add: ex_loads_setup)
  from tc cen have n: "nrow (topo_c ex_loads) = 3" "ncol (topo_c ex_loads) = 3"
    and t00: "at2 (topo_c ex_loads) 0 0 = at2 (np_scale2 ex_dem (- 1)) 1 1"
    unfolding le p3 by (simp_all add: ex_kernel_len)
  from per obtain b cx cy t where
    m: "map_of (b_db ex_files) ZZ = Some b" "map_of (c_db ex_files) (ZZ, Dir_x) = Some cx"
      "map_of (c_db ex_files) (ZZ, Dir_y) = Some cy" "map_of (t_db ex_files) ZZ = Some t"
    and d: "dim0 b = p" "dim1 b = q" "dim2 b = 27" "dim0 cx = p" "dim1 cx = q" "dim2 cx = 27"
      "dim0 cy = p" "dim1 cy = q" "dim2 cy = 27" "dim0 t = p" "dim1 t = q" "dim2 t = 27"
    by (elim allE [of _ ZZ] exE conjE)
  have dz: "dim0 (the (map_of (b_db ex_files) ZZ)) = 3"
    "dim0 (the (map_of (c_db ex_files) (ZZ, Dir_x))) = 3"
    "dim0 (the (map_of (c_db ex_files) (ZZ, Dir_y))) = 3"
    "dim2 (the (map_of (c_db ex_files) (ZZ, Dir_y))) = 27"
    using m d p3 by simp_all
  have sa: "(dim0 ex_a3, dim1 ex_a3, dim2 ex_a3) = (2, 2, 2)"
    and sb: "(dim0 ex_b3, dim1 ex_b3, dim2 ex_b3) = (3, 2, 2)"
    by (simp_all add: ex_a3_def ex_b3_def)
  from bc have br: "np_binop3 (+) ex_a3 ex_b3 = Inl ValueError"
    by (simp add: ex_a3_def ex_b3_def)
  have sh: "nrow ex_dem = 5" "ncol ex_dem = 5"
    by (simp_all add: ex_dem_shape)
  from ex_stress_field r ex_kernel_len sh n t00 dz sa sb br show ?thesis
    by (intro conjI)
qed

text \<open>
  Claim C6.  Each unit conversion is applied once.  In the failure analysis, the keyword
  arguments that the three stress functions receive for a row of the table are the
  columns of its fault point with the depth times 1000 (km to m) and the six stresses
  times \<open>1e6\<close> (MPa to Pa), next to the tectonic stresses of its iteration, the density
  and the gravity; nothing else rescales them.  In the stress-field notebook, an element
  of a persisted Boussinesq or Cerruti dataset is the value of the convolution times
  \<open>1e-6\<close> (Pa to MPa).
\<close>

theorem unit_conversions_once:
  assumes s: "search_df phis fault_df df = Inr rows" and r: "r < length rows"
    and S: "stress_field hs dem res = Inr S" and res: "0 < res"
  shows "args_of (rows ! r) =
         \<lparr> a_strike = f_strike (fault_df ! (r mod length fault_df)),
           a_dip = f_dip (fault_df ! (r mod length fault_df)),
           a_rho = 2700, a_g = 981 / 100,
           a_mxx = f_xx_stress (fault_df ! (r mod length fault_df)) * 1000000,
           a_myy = f_yy_stress (fault_df ! (r mod length fault_df)) * 1000000,
           a_mxy = f_xy_stress (fault_df ! (r mod length fault_df)) * 1000000,
           a_mzz = f_zz_stress (fault_df ! (r mod length fault_df)) * 1000000,
           a_mxz = f_xz_stress (fault_df ! (r mod length fault_df)) * 1000000,
           a_myz = f_yz_stress (fault_df ! (r mod length fault_df)) * 1000000,
           a_txx = p_txx (df ! (r div length fault_df)),
           a_tyy = p_tyy (df ! (r div length fault_df)),
           a_txy = p_txy (df ! (r div length fault_df)),
           a_depth = f_z (fault_df ! (r mod length fault_df)) * 1000 \<rparr>
    \<and> tau_s m (rows ! r) = strike_shear m (args_of (rows ! r))
    \<and> tau_d m (rows ! r) = dip_shear m (args_of (rows ! r))
    \<and> sig_n_eff m (rows ! r) = eff_normal_stress m (args_of (rows ! r)) (phi (rows ! r))
    \<and> (\<exists>p q l fx fy.
          int p = int (nrow dem) - kernel_len res + 1 \<and> int q = int (ncol dem) - kernel_len res + 1
        \<and> loads_setup (b_db S) (np_scale2 dem (- 1)) res = Inr l
        \<and> Fh_x l = Inr fx \<and> Fh_y l = Inr fy
        \<and> (\<forall>c. \<exists>b cx cy.
          map_of (b_db S) c = Some b \<and> map_of (c_db S) (c, Dir_x) = Some cx
        \<and> map_of (c_db S) (c, Dir_y) = Some cy
        \<and> dim0 b = p \<and> dim1 b = q \<and> dim2 b = 27
        \<and> dim0 cx = p \<and> dim1 cx = q \<and> dim2 cx = 27
        \<and> dim0 cy = p \<and> dim1 cy = q \<and> dim2 cy = 27
        \<and> (\<forall>i<p. \<forall>j<q. \<forall>k<27.
              at3 b i j k = b_conv hs c (z_vec res k) Fv (np_scale2 dem (- 1)) i j * (1 / 1000000)
            \<and> at3 cx i j k = c_conv hs c Dir_x (z_vec res k) fx i j * (1 / 1000000)
            \<and> at3 cy i j k = c_conv hs c Dir_y (z_vec res k) fy i j * (1 / 1000000))))"
proof -
  have a: "args_of (rows ! r) =
         \<lparr> a_strike = f_strike (fault_df ! (r mod length fault_df)),
           a_dip = f_dip (fault_df ! (r mod length fault_df)),
           a_rho = 2700, a_g = 981 / 100,
           a_mxx = f_xx_stress (fault_df ! (r mod length fault_df)) * 1000000,
           a_myy = f_yy_stress (fault_df ! (r mod length fault_df)) * 1000000,
           a_mxy = f_xy_stress (fault_df ! (r mod length fault_df)) * 1000000,
           a_mzz = f_zz_stress (fault_df ! (r mod length fault_df)) * 1000000,
           a_mxz = f_xz_stress (fault_df ! (r mod length fault_df)) * 1000000,
           a_myz = f_yz_stress (fault_df ! (r mod length fault_df)) * 1000000,
           a_txx = p_txx (df ! (r div length fault_df)),
           a_tyy = p_tyy (df ! (r div length fault_df)),
           a_txy = p_txy (df ! (r div length fault_df)),
           a_depth = f_z (fault_df ! (r mod length fault_df)) * 1000 \<rparr>"
    using r by (simp only: search_df_nth [OF s] args_of_block_row)
  have t: "tau_s m (rows ! r) = strike_shear m (args_of (rows ! r))"
      "tau_d m (rows ! r) = dip_shear m (args_of (rows ! r))"
      "sig_n_eff m (rows ! r) = eff_normal_stress m (args_of (rows ! r)) (phi (rows ! r))"
    by (simp_all add: tau_s_def tau_d_def sig_n_eff_def)
  from stress_field_char [OF S res] obtain p q l fx fy where
    pq: "int p = int (nrow dem) - kernel_len res + 1" "int q = int (ncol dem) - kernel_len res + 1"
    and big: "2 \<le> p" "2 \<le> q"
    and l: "loads_setup (b_db S) (np_scale2 dem (- 1)) res = Inr l"
    and lsh: "nrow (topo_c l) = p" "ncol (topo_c l) = q"
    and fx: "Fh_x l = Inr fx" and fy: "Fh_y l = Inr fy"
    and fsh: "nrow fx = p" "ncol fx = q" "nrow fy = p" "ncol fy = q"
    and per0: "\<forall>c. \<exists>b cx cy t.
          map_of (b_db S) c = Some b \<and> map_of (c_db S) (c, Dir_x) = Some cx
        \<and> map_of (c_db S) (c, Dir_y) = Some cy \<and> map_of (t_db S) c = Some t
        \<and> dim0 b = p \<and> dim1 b = q \<and> dim2 b = 27
        \<and> dim0 cx = p \<and> dim1 cx = q \<and> dim2 cx = 27
        \<and> dim0 cy = p \<and> dim1 cy = q \<and> dim2 cy = 27
        \<and> dim0 t = p \<and> dim1 t = q \<and> dim2 t = 27
        \<and> (\<forall>i<p. \<forall>j<q. \<forall>k<27.
              at3 b i j k = b_conv hs c (z_vec res k) Fv (np_scale2 dem (- 1)) i j * (1 / 1000000)
            \<and> at3 cx i j k = c_conv hs c Dir_x (z_vec res k) fx i j * (1 / 1000000)
            \<and> at3 cy i j k = c_conv hs c Dir_y (z_vec res k) fy i j * (1 / 1000000)
            \<and> at3 t i j k = at3 b i j k + at3 cx i j k + at3 cy i j k)"
    by (elim exE conjE)
  have per: "\<forall>c. \<exists>b cx cy.
          map_of (b_db S) c = Some b \<and> map_of (c_db S) (c, Dir_x) = Some cx
        \<and> map_of (c_db S) (c, Dir_y) = Some cy
        \<and> dim0 b = p \<and> dim1 b = q \<and> dim2 b = 27
        \<and> dim0 cx = p \<and> dim1 cx = q \<and> dim2 cx = 27
        \<and> dim0 cy = p \<and> dim1 cy = q \<and> dim2 cy = 27
        \<and> (\<forall>i<p. \<forall>j<q. \<forall>k<27.
              at3 b i j k = b_conv hs c (z_vec res k) Fv (np_scale2 dem (- 1)) i j * (1 / 1000000)
            \<and> at3 cx i j k = c_conv hs c Dir_x (z_vec res k) fx i j * (1 / 1000000)
            \<and> at3 cy i j k = c_conv hs c Dir_y (z_vec res k) fy i j * (1 / 1000000))"
  proof
    fix c
    from per0 obtain b cx cy t where
      m: "map_of (b_db S) c = Some b" "map_of (c_db S) (c, Dir_x) = Some cx"
        "map_of (c_db S) (c, Dir_y) = Some cy" "map_of (t_db S) c = Some t"
      and d: "dim0 b = p" "dim1 b = q" "dim2 b = 27" "dim0 cx = p" "dim1 cx = q" "dim2 cx = 27"
        "dim0 cy = p" "dim1 cy = q" "dim2 cy = 27" "dim0 t = p" "dim1 t = q" "dim2 t = 27"
      and v: "\<forall>i<p. \<forall>j<q. \<forall>k<27.
                at3 b i j k = b_conv hs c (z_vec res k) Fv (np_scale2 dem (- 1)) i j * (1 / 1000000)
              \<and> at3 cx i j k = c_conv hs c Dir_x (z_vec res k) fx i j * (1 / 1000000)
              \<and> at3 cy i j k = c_conv hs c Dir_y (z_vec res k) fy i j * (1 / 1000000)
              \<and> at3 t i j k = at3 b i j k + at3 cx i j k + at3 cy i j k"
      by (elim allE [of _ c] exE conjE)
    from v have v': "\<forall>i<p. \<forall>j<q. \<forall>k<27.
              at3 b i j k = b_conv hs c (z_vec res k) Fv (np_scale2 dem (- 1)) i j * (1 / 1000000)
            \<and> at3 cx i j k = c_conv hs c Dir_x (z_vec res k) fx i j * (1 / 1000000)
            \<and> at3 cy i j k = c_conv hs c Dir_y (z_vec res k) fy i j * (1 / 1000000)"
      by blast
    show "\<exists>b cx cy.
          map_of (b_db S) c = Some b \<and> map_of (c_db S) (c, Dir_x) = Some cx
        \<and> map_of (c_db S) (c, Dir_y) = Some cy
        \<and> dim0 b = p \<and> dim1 b = q \<and> dim2 b = 27
        \<and> dim0 cx = p \<and> dim1 cx = q \<and> dim2 cx = 27
        \<and> dim0 cy = p \<and> dim1 cy = q \<and> dim2 cy = 27
        \<and> (\<forall>i<p. \<forall>j<q. \<forall>k<27.
              at3 b i j k = b_conv hs c (z_vec res k) Fv (np_scale2 dem (- 1)) i j * (1 / 1000000)
            \<and> at3 cx i j k = c_conv hs c Dir_x (z_vec res k) fx i j * (1 / 1000000)
            \<and> at3 cy i j k = c_conv hs c Dir_y (z_vec res k) fy i j * (1 / 1000000))"
      by (intro exI conjI) (rule m d v')+
  qed
  have st: "\<exists>p q l fx fy.
          int p = int (nrow dem) - kernel_len res + 1 \<and> int q = int (ncol dem) - kernel_len res + 1
        \<and> loads_setup (b_db S) (np_scale2 dem (- 1)) res = Inr l
        \<and> Fh_x l = Inr fx \<and> Fh_y l = Inr fy
        \<and> (\<forall>c. \<exists>b cx cy.
          map_of (b_db S) c = Some b \<and> map_of (c_db S) (c, Dir_x) = Some cx
        \<and> map_of (c_db S) (c, Dir_y) = Some cy
        \<and> dim0 b = p \<and> dim1 b = q \<and> dim2 b = 27
        \<and> dim0 cx = p \<and> dim1 cx = q \<and> dim2 cx = 27
        \<and> dim0 cy = p \<and> dim1 cy = q \<and> dim2 cy = 27
        \<and> (\<forall>i<p. \<forall>j<q. \<forall>k<27.
              at3 b i j k = b_conv hs c (z_vec res k) Fv (np_scale2 dem (- 1)) i j * (1 / 1000000)
            \<and> at3 cx i j k = c_conv hs c Dir_x (z_vec res k) fx i j * (1 / 1000000)
            \<and> at3 cy i j k = c_conv hs c Dir_y (z_vec res k) fy i j * (1 / 1000000)))"
    by (intro exI conjI) (rule pq l fx fy per)+
  from a t st show ?thesis
    by (intro conjI)
qed

theorem unit_conversions_once_witness:
  "search_df ex_phis ex_fault ex_priors = Inr ex_rows \<and> (3::nat) < length ex_rows
   \<and> stress_field ex_hs ex_dem 150000 = Inr ex_files \<and> (0::int) < 150000
   \<and> args_of (ex_rows ! 3) =
       \<lparr> a_strike = 40, a_dip = 70, a_rho = 2700, a_g = 981 / 100,
         a_mxx = 7000000, a_myy = 8000000, a_mxy = 9000000, a_mzz = 10000000,
         a_mxz = 11000000, a_myz = 12000000,
         a_txx = 40, a_tyy = 5, a_txy = 6, a_depth = 10000 \<rparr>
   \<and> at3 (the (map_of (b_db ex_files) XX)) 1 2 26 = - 198 / 125"
proof -
  have r3: "(3::nat) < length ex_rows"
    by (simp add: ex_rows_eq)
  have r: "(0::int) < 150000" by simp
  note th = unit_conversions_once [OF ex_search_df r3 ex_stress_field r, of ex_scv]
  have n: "length ex_fault = 2"
    by (simp add: ex_fault_def)
  have dm: "(3::nat) mod 2 = 1" "(3::nat) div 2 = 1"
    by simp_all
  from th have a: "args_of (ex_rows ! 3) =
       \<lparr> a_strike = 40, a_dip = 70, a_rho = 2700, a_g = 981 / 100,
         a_mxx = 7000000, a_myy = 8000000, a_mxy = 9000000, a_mzz = 10000000,
         a_mxz = 11000000, a_myz = 12000000,
         a_txx = 40, a_tyy = 5, a_txy = 6, a_depth = 10000 \<rparr>"
    unfolding n dm by (simp add: ex_fault_def ex_priors_def)
  from th obtain p q l fx fy where
    pq: "int p = int (nrow ex_dem) - kernel_len 150000 + 1"
      "int q = int (ncol ex_dem) - kernel_len 150000 + 1"
    and l: "loads_setup (b_db ex_files) (np_scale2 ex_dem (- 1)) 150000 = Inr l"
    and fx: "Fh_x l = Inr fx" and fy: "Fh_y l = Inr fy"
    and per: "\<forall>c. \<exists>b cx cy.
          map_of (b_db ex_files) c = Some b \<and> map_of (c_db ex_files) (c, Dir_x) = Some cx
        \<and> map_of (c_db ex_files) (c, Dir_y) = Some cy
        \<and> dim0 b = p \<and> dim1 b = q \<and> dim2 b = 27
        \<and> dim0 cx = p \<and> dim1 cx = q \<and> dim2 cx = 27
        \<and> dim0 cy = p \<and> dim1 cy = q \<and> dim2 cy = 27
        \<and> (\<forall>i<p. \<forall>j<q. \<forall>k<27.
              at3 b i j k = b_conv ex_hs c (z_vec 150000 k) Fv (np_scale2 ex_dem (- 1)) i j * (1 / 1000000)
            \<and> at3 cx i j k = c_conv ex_hs c Dir_x (z_vec 150000 k) fx i j * (1 / 1000000)
            \<and> at3 cy i j k = c_conv ex_hs c Dir_y (z_vec 150000 k) fy i j * (1 / 1000000))"
    by (elim exE conjE)
  from pq have p3: "p = 3" "q = 3"
    by (simp_all add: ex_kernel_len ex_dem_shape)
  from per obtain b cx cy where
    m: "map_of (b_db ex_files) XX = Some b" "map_of (c_db ex_files) (XX, Dir_x) = Some cx"
      "map_of (c_db ex_files) (XX, Dir_y) = Some cy"
    and d: "dim0 b = p" "dim1 b = q" "dim2 b = 27" "dim0 cx = p" "dim1 cx = q" "dim2 cx = 27"
      "dim0 cy = p" "dim1 cy = q" "dim2 cy = 27"
    and v: "\<forall>i<p. \<forall>j<q. \<forall>k<27.
              at3 b i j k = b_conv ex_hs XX (z_vec 150000 k) Fv (np_scale2 ex_dem (- 1)) i j * (1 / 1000000)
            \<and> at3 cx i j k = c_conv ex_hs XX Dir_x (z_vec 150000 k) fx i j * (1 / 1000000)
            \<and> at3 cy i j k = c_conv ex_hs XX Dir_y (z_vec 150000 k) fy i j * (1 / 1000000)"
    by (elim allE [of _ XX] exE conjE)
  have "(1::nat) < p" "(2::nat) < q" "(26::nat) < 27"
    by (simp_all add: p3)
  from v [rule_format, OF this]
  have "at3 b 1 2 26 = b_conv ex_hs XX (z_vec 150000 26) Fv (np_scale2 ex_dem (- 1)) 1 2 * (1 / 1000000)"
    by simp
  then have bv: "at3 (the (map_of (b_db ex_files) XX)) 1 2 26 = - 198 / 125"
    using m(1) by (simp add: ex_hs_def z_vec_step ex_topo_at)
  from ex_search_df r3 ex_stress_field r a bv show ?thesis
    by (intro conjI)
qed

end

